theory Spec2Isabelle
  imports Main "HOL-Library.Sublist"
begin

section \<open>Python values and strings\<close>

text \<open>
  A Python \<open>str\<close> is modelled by a \<open>string\<close>: the list of the bytes of its UTF-8
  encoding, as the source file stores its literals. Comparing, joining, searching and
  cutting strings at ASCII characters are the same on the text and on its encoding;
  they are defined in this section. The methods whose result depends on the Unicode
  character tables of the interpreter (\<open>strip\<close>, \<open>lower\<close>, \<open>upper\<close>, \<open>isdigit\<close>) and
  the conversion \<open>int\<close> are taken from the host (section \<open>The host\<close>), so that a
  property holds whatever these tables are. The functions \<open>ascii_strip\<close>,
  \<open>ascii_lower\<close>, \<open>ascii_upper\<close>, \<open>ascii_isdigit\<close> and \<open>ascii_int\<close> below are these
  methods on ASCII text; they serve in the examples, which use ASCII text only.
\<close>

definition whitespace :: "char list" where
  "whitespace = [CHR 0x09, CHR 0x0A, CHR 0x0B, CHR 0x0C, CHR 0x0D,
                 CHR 0x1C, CHR 0x1D, CHR 0x1E, CHR 0x1F, CHR 0x20]"

definition isspace :: "char \<Rightarrow> bool" where
  "isspace c = (c \<in> set whitespace)"

text \<open>\<open>s.strip()\<close> on ASCII text: leading and trailing whitespace removed.\<close>

definition ascii_strip :: "string \<Rightarrow> string" where
  "ascii_strip s = rev (dropWhile isspace (rev (dropWhile isspace s)))"

definition lower_char :: "char \<Rightarrow> char" where
  "lower_char c =
     (case map_of (zip ''ABCDEFGHIJKLMNOPQRSTUVWXYZ'' ''abcdefghijklmnopqrstuvwxyz'') c of
        Some d \<Rightarrow> d | None \<Rightarrow> c)"

definition upper_char :: "char \<Rightarrow> char" where
  "upper_char c =
     (case map_of (zip ''abcdefghijklmnopqrstuvwxyz'' ''ABCDEFGHIJKLMNOPQRSTUVWXYZ'') c of
        Some d \<Rightarrow> d | None \<Rightarrow> c)"

definition ascii_lower :: "string \<Rightarrow> string" where
  "ascii_lower s = map lower_char s"

definition ascii_upper :: "string \<Rightarrow> string" where
  "ascii_upper s = map upper_char s"

text \<open>\<open>s.endswith(suffix)\<close> and the slice \<open>s[:-n]\<close> (which is empty for \<open>n = 0\<close>).\<close>

definition endswith :: "string \<Rightarrow> string \<Rightarrow> bool" where
  "endswith s suf = (length suf \<le> length s \<and> drop (length s - length suf) s = suf)"

definition slice_to_neg :: "string \<Rightarrow> nat \<Rightarrow> string" where
  "slice_to_neg s n = (if n = 0 then [] else take (length s - n) s)"

text \<open>\<open>sub in s\<close> on strings: \<open>sub\<close> occurs in \<open>s\<close> as a contiguous run.\<close>

fun contains :: "string \<Rightarrow> string \<Rightarrow> bool" where
  "contains sub [] = (sub = [])"
| "contains sub (c # cs) = (prefix sub (c # cs) \<or> contains sub cs)"

text \<open>\<open>s.split(sep, 1)[0]\<close>: the part of \<open>s\<close> before the first occurrence of \<open>sep\<close>
  (all of \<open>s\<close> when there is none).\<close>

fun split_first :: "string \<Rightarrow> string \<Rightarrow> string" where
  "split_first sep [] = []"
| "split_first sep (c # cs) = (if prefix sep (c # cs) then [] else c # split_first sep cs)"

text \<open>\<open>s.replace(" ", "")\<close>.\<close>

definition remove_spaces :: "string \<Rightarrow> string" where
  "remove_spaces s = filter (\<lambda>c. c \<noteq> CHR '' '') s"

text \<open>\<open>sep.join(parts)\<close>.\<close>

fun join :: "string \<Rightarrow> string list \<Rightarrow> string" where
  "join sep [] = []"
| "join sep [p] = p"
| "join sep (p # q # ps) = p @ sep @ join sep (q # ps)"

text \<open>\<open>str(n)\<close> for a natural number, and the format \<open>{n:02d}\<close>.\<close>

definition digit_char :: "nat \<Rightarrow> char" where
  "digit_char d = ''0123456789'' ! d"

fun str_nat :: "nat \<Rightarrow> string" where
  "str_nat n = (if n < 10 then [digit_char n] else str_nat (n div 10) @ [digit_char (n mod 10)])"

declare str_nat.simps [simp del]

definition format_02d :: "nat \<Rightarrow> string" where
  "format_02d n = (if n < 10 then CHR ''0'' # str_nat n else str_nat n)"

text \<open>\<open>s.isdigit()\<close> on ASCII text, and \<open>int(s)\<close> of a string of ASCII digits, the only
  strings the helper converts; \<open>None\<close> stands for \<open>ValueError\<close>.\<close>

definition ascii_isdigit :: "string \<Rightarrow> bool" where
  "ascii_isdigit s = (s \<noteq> [] \<and> list_all (\<lambda>c. c \<in> set ''0123456789'') s)"

definition digit_value :: "char \<Rightarrow> nat" where
  "digit_value c = (case map_of (zip ''0123456789'' [0 ..< 10]) c of Some d \<Rightarrow> d | None \<Rightarrow> 0)"

definition int_of_digits :: "string \<Rightarrow> nat" where
  "int_of_digits s = foldl (\<lambda>acc c. acc * 10 + digit_value c) 0 s"

definition ascii_int :: "string \<Rightarrow> int option" where
  "ascii_int s = (if ascii_isdigit s then Some (int (int_of_digits s)) else None)"

text \<open>
  The values the dictionaries of the helper hold: the record store gives text or NULL
  for the columns read here (\<open>container_id\<close>, \<open>container_name\<close>, \<open>apex_url\<close> are
  TEXT columns), and an artifact match is a path or \<open>None\<close>. \<open>d.get(k)\<close> is \<open>None\<close>
  for a key the dictionary does not have.
\<close>

datatype pyval = PyNone | PyStr string

type_synonym pydict = "string \<rightharpoonup> pyval"

definition dict_get :: "pydict \<Rightarrow> string \<Rightarrow> pyval" where
  "dict_get d k = (case d k of None \<Rightarrow> PyNone | Some v \<Rightarrow> v)"

fun truthy :: "pyval \<Rightarrow> bool" where
  "truthy PyNone = False"
| "truthy (PyStr s) = (s \<noteq> [])"

fun str :: "pyval \<Rightarrow> string" where
  "str PyNone = ''None''"
| "str (PyStr s) = s"

section \<open>The installer helper: data\<close>

text \<open>The dataclasses \<open>InstallationStep\<close> and \<open>InstallationStage\<close>; the fields of a step
  carry the prefix \<open>step_\<close> to keep them apart from those of a stage.\<close>

record InstallationStep =
  step_title :: string
  step_description :: string
  step_context :: string
  commands :: "string list"

record InstallationStage =
  key :: string
  title :: string
  description :: string
  steps :: "InstallationStep list"

text \<open>\<open>REQUIRED_ARTIFACTS\<close>, in the insertion order a Python dictionary iterates in.\<close>

record artifact =
  artifact_keywords :: "string list"
  url :: string
  friendly_name :: string

definition REQUIRED_ARTIFACTS :: "(string \<times> artifact) list" where
  "REQUIRED_ARTIFACTS =
    [(''java'', \<lparr>artifact_keywords = [''jdk'', ''linux''],
                url = ''https://www.oracle.com/java/technologies/downloads/'',
                friendly_name = ''Java Development Kit for Linux x64''\<rparr>),
     (''apex'', \<lparr>artifact_keywords = [''apex''],
                url = ''https://www.oracle.com/tools/downloads/apex-downloads/'',
                friendly_name = ''Oracle APEX bundle''\<rparr>),
     (''ords'', \<lparr>artifact_keywords = [''ords''],
                url = ''https://www.oracle.com/database/technologies/appdev/rest-data-services-downloads.html'',
                friendly_name = ''Oracle REST Data Services (ORDS)''\<rparr>)]"

section \<open>Reports on the artifacts\<close>

text \<open>\<open>missing_artifacts_report\<close>: the loop over the catalog skips a matched requirement
  and appends one note for every other.\<close>

definition missing_artifacts_report :: "pydict \<Rightarrow> string list" where
  "missing_artifacts_report matches =
     foldl (\<lambda>notes (k, metadata).
              if truthy (dict_get matches k) then notes
              else notes @ [''Missing '' @ friendly_name metadata @ ''. Download it from '' @ url metadata])
           [] REQUIRED_ARTIFACTS"

text \<open>\<open>artifact_summary\<close>.\<close>

definition artifact_summary :: "pydict \<Rightarrow> string list" where
  "artifact_summary matches =
     foldl (\<lambda>lines (k, metadata).
              (case dict_get matches k of
                 PyStr p \<Rightarrow> if p \<noteq> [] then lines @ [friendly_name metadata @ '': '' @ p]
                            else lines @ [friendly_name metadata @ '': not found'']
               | PyNone \<Rightarrow> lines @ [friendly_name metadata @ '': not found'']))
           [] REQUIRED_ARTIFACTS"

section \<open>The directory hint of the JDK archive\<close>

text \<open>The loop over the suffixes of \<open>_guess_java_home\<close>: the first suffix the name ends
  with is cut off, and the loop stops there.\<close>

fun strip_archive_suffix :: "string list \<Rightarrow> string \<Rightarrow> string" where
  "strip_archive_suffix [] name = name"
| "strip_archive_suffix (suf # rest) name =
     (if endswith name suf then slice_to_neg name (length suf)
      else strip_archive_suffix rest name)"

definition guess_java_home :: "string option \<Rightarrow> string" where
  "guess_java_home archive_name =
     (case archive_name of
        None \<Rightarrow> ''<jdk_folder>''
      | Some a \<Rightarrow>
          if a = [] then ''<jdk_folder>''
          else
            let name = strip_archive_suffix [''.tar.gz'', ''.tgz'', ''.tar''] a;
                name = (if contains ''_linux'' name then split_first ''_linux'' name else name)
            in if name = [] then ''<jdk_folder>'' else name)"

section \<open>The host\<close>

text \<open>
  What the helper takes from the interpreter and the operating system: the value of
  \<open>sys.platform\<close>, the functions \<open>os.path.join\<close> and \<open>os.path.basename\<close> of the
  platform's path module, whether a clipboard tool, started by \<open>subprocess.run\<close>
  with the text as its input, ends without an error, and the methods of \<open>str\<close> that
  read the Unicode tables: \<open>s.strip()\<close>, \<open>s.lower()\<close>, \<open>s.upper()\<close>, \<open>s.isdigit()\<close>,
  and \<open>int(s)\<close>, which is \<open>None\<close> when the conversion raises \<open>ValueError\<close>. The
  properties below hold for every host; \<open>posix_host\<close> is the one of a Linux
  installation with no clipboard tool, with the path functions of \<open>posixpath\<close> and
  the methods of \<open>str\<close> as they are on ASCII text.
\<close>

record host =
  sys_platform :: string
  os_path_join :: "string \<Rightarrow> string \<Rightarrow> string"
  os_path_basename :: "string \<Rightarrow> string"
  subprocess_run_ok :: "string list \<Rightarrow> string \<Rightarrow> bool"
  str_strip :: "string \<Rightarrow> string"
  str_lower :: "string \<Rightarrow> string"
  str_upper :: "string \<Rightarrow> string"
  str_isdigit :: "string \<Rightarrow> bool"
  str_int :: "string \<Rightarrow> int option"

definition posix_join :: "string \<Rightarrow> string \<Rightarrow> string" where
  "posix_join a b =
     (if prefix ''/'' b then b
      else if a = [] \<or> endswith a ''/'' then a @ b
      else a @ ''/'' @ b)"

definition posix_basename :: "string \<Rightarrow> string" where
  "posix_basename p = rev (takeWhile (\<lambda>c. c \<noteq> CHR ''/'') (rev p))"

definition posix_host :: host where
  "posix_host = \<lparr>sys_platform = ''linux'', os_path_join = posix_join,
                  os_path_basename = posix_basename,
                  subprocess_run_ok = (\<lambda>argv text. False),
                  str_strip = ascii_strip, str_lower = ascii_lower, str_upper = ascii_upper,
                  str_isdigit = ascii_isdigit, str_int = ascii_int\<rparr>"

text \<open>\<open>shlex.quote\<close>: a string of safe characters only is returned as it is, any other
  is put in single quotes, each single quote inside written as \<open>'"'"'\<close>.\<close>

definition shlex_safe :: "char \<Rightarrow> bool" where
  "shlex_safe c =
     (c \<in> set ''abcdefghijklmnopqrstuvwxyzABCDEFGHIJKLMNOPQRSTUVWXYZ0123456789_@%+=:,./-'')"

definition shlex_quote :: "string \<Rightarrow> string" where
  \<open>shlex_quote s =
     (if s = [] then [CHR 0x27, CHR 0x27]
      else if list_all shlex_safe s then s
      else [CHR 0x27]
           @ concat (map (\<lambda>c. if c = CHR 0x27 then [CHR 0x27, CHR 0x22, CHR 0x27, CHR 0x22, CHR 0x27]
                                else [c]) s)
           @ [CHR 0x27])\<close>

text \<open>\<open>s.rstrip(chars)\<close>.\<close>

definition rstrip_chars :: "string \<Rightarrow> string \<Rightarrow> string" where
  "rstrip_chars chars s = rev (dropWhile (\<lambda>c. c \<in> set chars) (rev s))"

text \<open>\<open>copy_to_clipboard\<close>: nothing is copied for an empty text; otherwise the tool of
  the platform is tried (on Linux \<open>xclip\<close>, then \<open>xsel\<close>).\<close>

definition copy_to_clipboard :: "host \<Rightarrow> string \<Rightarrow> bool" where
  "copy_to_clipboard h text =
     (if text = [] then False
      else if sys_platform h = ''darwin'' then subprocess_run_ok h [''pbcopy''] text
      else if prefix ''linux'' (sys_platform h) then
        (subprocess_run_ok h [''xclip'', ''-selection'', ''clipboard''] text
         \<or> subprocess_run_ok h [''xsel'', ''-selection'', ''clipboard''] text)
      else if sys_platform h = ''win32'' then subprocess_run_ok h [''clip''] text
      else False)"

section \<open>The plan builder\<close>

text \<open>The helper object: \<open>__init__\<close> stores the working folder and the folder of the
  artifacts below it.\<close>

record ApexInstallerHelper =
  working_folder :: string
  apex_folder :: string

definition init :: "host \<Rightarrow> string \<Rightarrow> ApexInstallerHelper" where
  "init h folder = \<lparr>working_folder = folder, apex_folder = os_path_join h folder ''APEX_files''\<rparr>"

text \<open>\<open>_resolve_container_reference\<close>: the identifier when it is truthy, else the name
  when it is truthy, else \<open>None\<close>.\<close>

definition resolve_container_reference :: "pydict \<Rightarrow> string option" where
  "resolve_container_reference project =
     (let container_id = dict_get project ''container_id'';
          container_name = dict_get project ''container_name''
      in if truthy container_id then Some (str container_id)
         else if truthy container_name then Some (str container_name)
         else None)"

text \<open>The constants and the dashes of \<open>_build_guided_stages\<close>.\<close>

definition en_dash :: string where
  "en_dash = [CHR 0xE2, CHR 0x80, CHR 0x93]"

definition em_dash :: string where
  "em_dash = [CHR 0xE2, CHR 0x80, CHR 0x94]"

definition tools_folder :: string where
  "tools_folder = ''/opt/oracle/tools''"

definition ords_home :: string where
  "ords_home = ''ords''"

definition apex_home :: string where
  "apex_home = ''apex''"

definition ords_config_root :: string where
  "ords_config_root = ''/opt/oracle/ords_config''"

definition default_url :: string where
  "default_url = ''http://localhost:8080/ords''"

text \<open>\<open>os.path.basename(path) if path else None\<close>, and the truth value of the result.\<close>

definition archive_of :: "host \<Rightarrow> pyval \<Rightarrow> string option" where
  "archive_of h path = (if truthy path then Some (os_path_basename h (str path)) else None)"

fun nonempty :: "string option \<Rightarrow> bool" where
  "nonempty None = False"
| "nonempty (Some a) = (a \<noteq> [])"

definition browser_command :: "host \<Rightarrow> string \<Rightarrow> string" where
  "browser_command h apex_url =
     (if sys_platform h = ''darwin'' then ''open '' @ apex_url
      else if sys_platform h = ''win32'' then ''start '' @ apex_url
      else ''xdg-open '' @ apex_url)"

definition artifact_message :: "pydict \<Rightarrow> string option \<Rightarrow> string option \<Rightarrow> string option \<Rightarrow> string" where
  "artifact_message matches java_archive ords_archive apex_archive =
     (let available = map the (filter nonempty [java_archive, ords_archive, apex_archive]);
          missing = map (\<lambda>(k, metadata). friendly_name metadata)
                      (filter (\<lambda>(k, metadata). \<not> truthy (dict_get matches k)) REQUIRED_ARTIFACTS);
          message = (if available \<noteq> [] then ''Found archives: '' @ join '', '' available
                     else ''No archives detected.'')
      in if missing \<noteq> [] then message @ '' Missing: '' @ join '', '' missing @ ''.''
         else message)"

definition extract_commands :: "string option \<Rightarrow> string option \<Rightarrow> string option \<Rightarrow> string list" where
  "extract_commands java_archive apex_archive ords_archive =
     [''cd '' @ tools_folder, ''ls -1'']
     @ (if nonempty java_archive then [''tar -xzf '' @ the java_archive] else [])
     @ (if nonempty apex_archive then [''unzip -o '' @ the apex_archive] else [])
     @ (if nonempty ords_archive
        then [''mkdir -p ords'', ''unzip -o '' @ the ords_archive @ '' -d ords''] else [])
     @ [''ls -lh '' @ tools_folder]"

text \<open>Stage 0: the container is prepared and the files are unpacked.\<close>

definition preparation_steps ::
  "string \<Rightarrow> string \<Rightarrow> string \<Rightarrow> string \<Rightarrow> string list \<Rightarrow> InstallationStep list" where
  \<open>preparation_steps container_label container_reference copy_source message extract =
    [\<lparr>step_title = ''Verify Docker runtime'',
      step_description = ''Make sure Docker Desktop is running and can reach the local daemon. Install the gvenzl/oracle-xe image beforehand.'',
      step_context = ''Host shell'',
      commands = [''docker info'']\<rparr>,
     \<lparr>step_title = ''Start Oracle container'',
      step_description = ''Start the container assigned to this project ('' @ container_label @ '') and wait for the database to open. Follow the logs until you see Database ready messages, then exit with CTRL+C.'',
      step_context = ''Host shell'',
      commands = [''docker start '' @ container_reference,
                  ''docker logs -f '' @ container_reference]\<rparr>,
     \<lparr>step_title = ''Create tools directory'',
      step_description = ''Ensure the shared tools directory exists inside the container before copying the installers.'',
      step_context = ''Host shell'',
      commands = [''docker exec -it '' @ container_reference @ '' mkdir -p '' @ tools_folder]\<rparr>,
     \<lparr>step_title = ''Copy installation artifacts'',
      step_description = ''Transfer the installer archives into the container. '' @ message,
      step_context = ''Host shell'',
      commands = [''docker cp '' @ copy_source @ '' '' @ container_reference @ '':'' @ tools_folder,
                  ''docker exec -it '' @ container_reference @ '' ls -lh '' @ tools_folder]\<rparr>,
     \<lparr>step_title = ''Open oracle shell'',
      step_description = ''Enter the container as the oracle user. Use the root shell as a fallback and export ORACLE_HOME manually.'',
      step_context = ''Host shell'',
      commands = [''docker exec -it --user oracle '' @ container_reference @ '' bash'',
                  ''docker exec -it '' @ container_reference @ '' bash'']\<rparr>]
    @ [\<lparr>step_title = ''Extract installers'',
        step_description = ''Unpack the archives inside the tools directory. If the files were already extracted, re-run the commands to refresh them.'',
        step_context = ''Container shell'',
        commands = extract\<rparr>]\<close>

text \<open>Stage 1: the Java runtime.\<close>

definition java_steps :: "string \<Rightarrow> InstallationStep list" where
  \<open>java_steps java_hint =
    [\<lparr>step_title = ''Configure Java environment'',
      step_description = ''Point JAVA_HOME to the JDK you just extracted so ORDS can use it. Adjust the folder name if it differs or if you are running as root instead of the oracle user.'',
      step_context = ''Container shell'',
      commands = [''cd '' @ tools_folder,
                  ''export JAVA_HOME='' @ tools_folder @ ''/'' @ java_hint,
                  ''export PATH="$JAVA_HOME/bin:$PATH"'',
                  ''$JAVA_HOME/bin/java -version'']\<rparr>,
     \<lparr>step_title = ''Persist Java environment (optional)'',
      step_description = ''Append the JAVA_HOME exports to the oracle user's shell profile so new sessions inherit the configuration. Skip if you prefer to set it manually per session.'',
      step_context = ''Container shell'',
      commands = [''echo 'export JAVA_HOME='' @ tools_folder @ ''/'' @ java_hint @ ''' >> ~/.bashrc'',
                  ''echo 'export PATH="$JAVA_HOME/bin:$PATH"' >> ~/.bashrc'',
                  ''tail -n 5 ~/.bashrc'']\<rparr>]\<close>

text \<open>Stage 2: the setup of ORDS.\<close>

definition ords_steps :: "string \<Rightarrow> InstallationStep list" where
  \<open>ords_steps apex_url =
    [\<lparr>step_title = ''Make ORDS CLI available'',
      step_description = ''Add the ords launcher to PATH for this session. Append the export to ~/.bashrc if you want every shell to include it automatically.'',
      step_context = ''Container shell'',
      commands = [''cd '' @ tools_folder @ ''/'' @ ords_home,
                  ''export PATH="$PATH:'' @ tools_folder @ ''/'' @ ords_home @ ''/bin"'',
                  ''echo 'export PATH="$PATH:'' @ tools_folder @ ''/'' @ ords_home @ ''/bin"' >> ~/.bashrc  # optional'',
                  ''ords --version'']\<rparr>,
     \<lparr>step_title = ''Review ORDS directory'',
      step_description = ''Confirm the ORDS archive was extracted into its own folder.'',
      step_context = ''Container shell'',
      commands = [''cd '' @ tools_folder,
                  ''ls -1'',
                  ''cd '' @ tools_folder @ ''/'' @ ords_home,
                  ''ls -1'']\<rparr>,
     \<lparr>step_title = ''Prepare ORDS configuration directory'',
      step_description = ''Create a configuration folder outside the ORDS product path to avoid warnings. If you are retrying the install, move the previous config out of the way first.'',
      step_context = ''Container shell'',
      commands = [''mv /opt/oracle/ords_config /opt/oracle/ords_config.bak.$(date +%Y%m%d%H%M%S) 2>/dev/null || true'',
                  ''mkdir -p '' @ ords_config_root,
                  ''ls -ld '' @ ords_config_root]\<rparr>,
     \<lparr>step_title = ''Install ORDS'',
      step_description = ''Run the interactive installer. Select connection type 1 (Basic), enter host localhost, port 1521, and service XEPDB1. When prompted for administrator credentials use 'sys as sysdba' with the container password (JACJConsulting). On the summary screen edit option 3 to set a known password for ORDS_PUBLIC_USER, then accept the configuration.'',
      step_context = ''Container shell'',
      commands = [''cd '' @ tools_folder @ ''/'' @ ords_home,
                  ''ords --config '' @ ords_config_root @ '' install'']\<rparr>,
     \<lparr>step_title = ''Sync ORDS runtime credentials'',
      step_description = ''Reset the ORDS and APEX REST users to the password you chose in the installer, then store it securely in the ORDS config. Replace <ords_password> with that value when running these commands.'',
      step_context = ''Container shell'',
      commands = [''sqlplus / as sysdba <<'EOF'' @ [CHR 0x27],
                  ''ALTER SESSION SET CONTAINER = CDB$ROOT;'',
                  ''ALTER USER ORDS_PUBLIC_USER IDENTIFIED BY "<ords_password>" ACCOUNT UNLOCK CONTAINER = ALL;'',
                  ''ALTER SESSION SET CONTAINER = XEPDB1;'',
                  ''ALTER USER APEX_PUBLIC_USER IDENTIFIED BY "<ords_password>" ACCOUNT UNLOCK;'',
                  ''ALTER USER APEX_REST_PUBLIC_USER IDENTIFIED BY "<ords_password>" ACCOUNT UNLOCK;'',
                  ''EXIT;'',
                  ''EOF'',
                  ''ords --config '' @ ords_config_root @ '' config secret db.password'',
                  ''# enter <ords_password> when prompted'']\<rparr>,
     \<lparr>step_title = ''Enable PL/SQL gateway'',
      step_description = ''Turn on the PL/SQL gateway so /ords/apex and /ords/apex_admin respond.'',
      step_context = ''Container shell'',
      commands = [''ords --config '' @ ords_config_root @ '' config set feature.plsql.gateway.enabled true'']\<rparr>,
     \<lparr>step_title = ''Start ORDS service'',
      step_description = ''Launch ORDS so it listens on port 8080. Consider using screen, tmux, or nohup to keep it running in the background.'',
      step_context = ''Container shell'',
      commands = [''cd '' @ tools_folder @ ''/'' @ ords_home,
                  ''ords --config '' @ ords_config_root @ '' serve'',
                  ''curl -I '' @ rstrip_chars ''/'' apex_url @ ''/_/'']\<rparr>,
     \<lparr>step_title = ''Grant ORDS-enabled schema access'',
      step_description = ''Run the optional grant/enable tasks if you plan to use SQL Developer Web or REST endpoints for additional schemas.'',
      step_context = ''Container shell'',
      commands = [''cd '' @ tools_folder @ ''/'' @ ords_home,
                  ''ords --config '' @ ords_config_root @ '' grant-schema'',
                  ''ords --config '' @ ords_config_root @ '' enable-schema'']\<rparr>]\<close>

text \<open>Stage 3: the installation of APEX.\<close>

definition apex_steps :: "string \<Rightarrow> string \<Rightarrow> InstallationStep list" where
  \<open>apex_steps apex_url browser =
    [\<lparr>step_title = ''Inspect XDB component'',
      step_description = ''Verify the XDB component status in both CDB$ROOT and XEPDB1. APEX requires XDB to be VALID in every container.'',
      step_context = ''Container shell'',
      commands = [''sqlplus / as sysdba'',
                  ''SHOW con_name;'',
                  ''SELECT comp_name, status FROM dba_registry WHERE comp_id = 'XDB';'',
                  ''ALTER SESSION SET CONTAINER = XEPDB1;'',
                  ''SHOW con_name;'',
                  ''SELECT comp_name, status FROM dba_registry WHERE comp_id = 'XDB';'']\<rparr>,
     \<lparr>step_title = ''Repair XDB when invalid (advanced)'',
      step_description = ''If XDB reports INVALID in any container, follow Oracle's documented reload procedure. This restarts the instance in UPGRADE mode; plan for downtime. Skip this step if XDB is already VALID.'',
      step_context = ''Container shell'',
      commands = [''ALTER SESSION SET CONTAINER = CDB$ROOT;'',
                  ''SHUTDOWN IMMEDIATE;'',
                  ''STARTUP UPGRADE;'',
                  ''@?/rdbms/admin/xdbrelod.sql'',
                  ''SHUTDOWN IMMEDIATE;'',
                  ''STARTUP;'',
                  ''ALTER PLUGGABLE DATABASE ALL OPEN;'',
                  ''@?/rdbms/admin/utlrp.sql'',
                  ''ALTER SESSION SET CONTAINER = XEPDB1;'',
                  ''@?/rdbms/admin/utlrp.sql'',
                  ''SELECT comp_name, status FROM dba_registry WHERE comp_id = 'XDB';'']\<rparr>,
     \<lparr>step_title = ''Install APEX core'',
      step_description = ''Run the core APEX installation inside the XEPDB1 pluggable database. If the prerequisite check reports XDB as INVALID, rerun the previous step before retrying this installation.'',
      step_context = ''Container shell'',
      commands = [''cd '' @ tools_folder @ ''/'' @ apex_home,
                  ''sqlplus / as sysdba'',
                  ''ALTER SESSION SET CONTAINER = XEPDB1;'',
                  ''@apexins.sql SYSAUX SYSAUX TEMP /i/'']\<rparr>,
     \<lparr>step_title = ''Set APEX administrator password'',
      step_description = ''Define the ADMIN password so you can log in to the APEX workspace after the installation.'',
      step_context = ''Container shell'',
      commands = [''cd '' @ tools_folder @ ''/'' @ apex_home,
                  ''sqlplus / as sysdba'',
                  ''ALTER SESSION SET CONTAINER = XEPDB1;'',
                  ''@apxchpwd.sql'']\<rparr>,
     \<lparr>step_title = ''Configure REST support'',
      step_description = ''Run the APEX REST configuration script to set passwords for APEX_PUBLIC_USER and ORDS_PUBLIC_USER. When prompted, provide the same passwords twice and type SYSAUX and TEMP when the script asks for tablespaces.'',
      step_context = ''Container shell'',
      commands = [''cd '' @ tools_folder @ ''/'' @ apex_home,
                  ''sqlplus / as sysdba'',
                  ''ALTER SESSION SET CONTAINER = XEPDB1;'',
                  ''@apex_rest_config.sql'']\<rparr>,
     \<lparr>step_title = ''Unlock REST accounts'',
      step_description = ''If needed, unlock application users so ORDS can authenticate. Replace <password> with the values you selected during the REST configuration step. ORDS_PUBLIC_USER is only present on older installs; skip its ALTER if the account does not exist.'',
      step_context = ''Container shell'',
      commands = [''sqlplus / as sysdba'',
                  ''ALTER SESSION SET CONTAINER = XEPDB1;'',
                  ''SELECT username, account_status FROM dba_users WHERE username IN ('APEX_PUBLIC_USER','APEX_REST_PUBLIC_USER','ORDS_PUBLIC_USER');'',
                  ''ALTER USER APEX_PUBLIC_USER IDENTIFIED BY "<password>" ACCOUNT UNLOCK;'',
                  ''ALTER USER APEX_REST_PUBLIC_USER IDENTIFIED BY "<password>" ACCOUNT UNLOCK;'',
                  ''ALTER USER ORDS_PUBLIC_USER IDENTIFIED BY "<password>" ACCOUNT UNLOCK; -- optional, only if it exists'']\<rparr>,
     \<lparr>step_title = ''Validate APEX endpoint'',
      step_description = ''Confirm that the APEX login page is reachable. Replace localhost with the mapped host if required.'',
      step_context = ''Host browser'',
      commands = [''curl -I '' @ apex_url,
                  browser]\<rparr>]\<close>

text \<open>\<open>_build_guided_stages\<close>: no stage without a container reference, else the four
  stages.\<close>

definition build_guided_stages ::
  "host \<Rightarrow> ApexInstallerHelper \<Rightarrow> pydict \<Rightarrow> pydict \<Rightarrow> InstallationStage list" where
  "build_guided_stages h self project matches =
     (case resolve_container_reference project of
        None \<Rightarrow> []
      | Some container_reference \<Rightarrow>
          if container_reference = [] then []
          else
            let container_label =
                  (if truthy (dict_get project ''container_name'')
                   then str (dict_get project ''container_name'') else container_reference);
                apex_url =
                  (if truthy (dict_get project ''apex_url'')
                   then str (dict_get project ''apex_url'') else default_url);
                artifacts_folder = os_path_join h (working_folder self) ''APEX_files'';
                artifacts_dir = rstrip_chars [CHR ''/'', CHR 0x5C] artifacts_folder;
                copy_source = shlex_quote (artifacts_dir @ ''/.'');
                java_archive = archive_of h (dict_get matches ''java'');
                ords_archive = archive_of h (dict_get matches ''ords'');
                apex_archive = archive_of h (dict_get matches ''apex'');
                java_hint = guess_java_home java_archive;
                message = artifact_message matches java_archive ords_archive apex_archive
            in
              [\<lparr>key = ''prep'',
                title = ''Stage 0 '' @ en_dash @ '' Files and Extraction'',
                description = ''Move the installer archives into the container and unpack them.'',
                steps = preparation_steps container_label container_reference copy_source message
                          (extract_commands java_archive apex_archive ords_archive)\<rparr>,
               \<lparr>key = ''java'',
                title = ''Stage 1 '' @ en_dash @ '' Java Runtime'',
                description = ''Configure JAVA_HOME inside the container and verify the runtime.'',
                steps = java_steps java_hint\<rparr>,
               \<lparr>key = ''ords'',
                title = ''Stage 2 '' @ en_dash @ '' ORDS Setup'',
                description = ''Install Oracle REST Data Services and bring the standalone server online.'',
                steps = ords_steps apex_url\<rparr>,
               \<lparr>key = ''apex'',
                title = ''Stage 3 '' @ en_dash @ '' APEX Installation'',
                description = ''Install Oracle APEX, set the ADMIN password, and expose the endpoint.'',
                steps = apex_steps apex_url (browser_command h apex_url)\<rparr>])"

section \<open>The artifact locator\<close>

text \<open>
  A directory as \<open>os.walk\<close> finds it: its name, the names of its files and the
  subdirectories the walk enters, each in the order in which the host lists them (the
  helper does not sort them). \<open>os.walk\<close> goes top down: a directory is reported with
  its files before any of its subdirectories is entered. A subdirectory the host
  cannot list contributes no file, as a directory with no entry does.
\<close>

datatype dir_tree = Dir (dir_name: string) (file_names: "string list") (subdirs: "dir_tree list")

fun walk :: "host \<Rightarrow> string \<Rightarrow> dir_tree \<Rightarrow> (string \<times> string list) list" where
  "walk h root (Dir name fs subs) =
     (root, fs) # concat (map (\<lambda>d. walk h (os_path_join h root (dir_name d)) d) subs)"

text \<open>\<open>_find_artifact\<close>: the two nested loops, left at the first file whose normalized name
  has every keyword.\<close>

definition normalized_file :: "host \<Rightarrow> string \<Rightarrow> string" where
  "normalized_file h file_name = remove_spaces (str_lower h file_name)"

definition matches_keywords :: "host \<Rightarrow> string list \<Rightarrow> string \<Rightarrow> bool" where
  "matches_keywords h normalized_keywords file_name =
     list_all (\<lambda>keyword. contains keyword (normalized_file h file_name)) normalized_keywords"

fun find_in_files :: "host \<Rightarrow> string list \<Rightarrow> string \<Rightarrow> string list \<Rightarrow> string option" where
  "find_in_files h normalized_keywords root [] = None"
| "find_in_files h normalized_keywords root (file_name # files) =
     (if matches_keywords h normalized_keywords file_name then Some (os_path_join h root file_name)
      else find_in_files h normalized_keywords root files)"

fun find_in_walk :: "host \<Rightarrow> string list \<Rightarrow> (string \<times> string list) list \<Rightarrow> string option" where
  "find_in_walk h normalized_keywords [] = None"
| "find_in_walk h normalized_keywords ((root, files) # rest) =
     (case find_in_files h normalized_keywords root files of
        Some path \<Rightarrow> Some path
      | None \<Rightarrow> find_in_walk h normalized_keywords rest)"

definition find_artifact :: "host \<Rightarrow> ApexInstallerHelper \<Rightarrow> dir_tree \<Rightarrow> string list \<Rightarrow> string option" where
  "find_artifact h self tree kws =
     find_in_walk h (map (str_lower h) kws) (walk h (apex_folder self) tree)"

text \<open>\<open>scan_required_files\<close>: one entry for every requirement of the catalog.\<close>

definition optional_str :: "string option \<Rightarrow> pyval" where
  "optional_str r = (case r of None \<Rightarrow> PyNone | Some s \<Rightarrow> PyStr s)"

definition scan_required_files :: "host \<Rightarrow> ApexInstallerHelper \<Rightarrow> dir_tree \<Rightarrow> pydict" where
  "scan_required_files h self tree =
     foldl (\<lambda>matches (k, metadata).
              matches(k \<mapsto> optional_str (find_artifact h self tree (artifact_keywords metadata))))
           Map.empty REQUIRED_ARTIFACTS"

section \<open>The wizard session\<close>

text \<open>
  The session talks to the operator through \<open>print\<close> and \<open>input\<close>. The lines the
  operator will type are a list, read from its head; what the session does is a list
  of events: a \<open>Prompt\<close> for the text \<open>input\<close> shows, a \<open>Print\<close> for a printed line,
  and a \<open>Noted\<close> for an entry appended to the ledger \<open>collected_notes\<close>. \<open>input\<close>
  raises \<open>EOFError\<close> when no line is left and \<open>int\<close> may raise \<open>ValueError\<close>;
  nothing in the helper catches them, so the session ends there with the exception.
  A function of the session takes the ledger of notes, the events so far and the
  remaining lines, and returns them as they are when it is done.
\<close>

datatype event = Print string | Prompt string | Noted string

datatype error = EOFError | ValueError

text \<open>The entries appended to the ledger, as a list of events records them.\<close>

fun noted :: "event \<Rightarrow> string list" where
  "noted (Noted entry) = [entry]"
| "noted (Print line) = []"
| "noted (Prompt line) = []"

definition appended :: "event list \<Rightarrow> string list" where
  "appended events = concat (map noted events)"

definition copy_prompt :: string where
  "copy_prompt = ''Select a command number to copy, 'a' to copy all, or press Enter to continue: ''"

definition ack_prompt :: string where
  "ack_prompt = ''Press Enter when the step is done, 'n' to log a note, or 'q' to exit the wizard: ''"

definition note_prompt :: string where
  "note_prompt = ''Write your note for this step: ''"

definition select_prompt :: string where
  "select_prompt = ''Select a stage number, type its keyword, use 'a' for all, or press Enter to exit: ''"

text \<open>The first loop of \<open>_process_step\<close>: commands are copied until an empty line. A
  choice that \<open>isdigit\<close> accepts is converted by \<open>int\<close>.\<close>

fun copy_loop :: "host \<Rightarrow> string list \<Rightarrow> event list \<Rightarrow> string list
    \<Rightarrow> error + (event list \<times> string list)" where
  "copy_loop h cmds out [] = Inl EOFError"
| "copy_loop h cmds out (line # ins) =
     (let out1 = out @ [Prompt copy_prompt];
          choice = str_lower h (str_strip h line)
      in if choice = [] then Inr (out1, ins)
         else if choice = ''a'' then
           copy_loop h cmds
             (out1 @ [Print (if copy_to_clipboard h (join [CHR 0x0A] cmds)
                             then ''All commands copied to clipboard.''
                             else ''Could not copy commands to the clipboard.'')]) ins
         else if str_isdigit h choice then
           (case str_int h choice of
              None \<Rightarrow> Inl ValueError
            | Some number \<Rightarrow>
                let selected = number - 1
                in copy_loop h cmds
                     (out1 @ [Print (if 0 \<le> selected \<and> selected < int (length cmds)
                                     then (if copy_to_clipboard h (cmds ! nat selected)
                                           then ''Command copied to clipboard.''
                                           else ''Clipboard copy failed on this system.'')
                                     else ''Command number out of range.'')]) ins)
         else copy_loop h cmds (out1 @ [Print ''Unknown option. Please try again.'']) ins)"

text \<open>The second loop of \<open>_process_step\<close>, the acknowledgement: an empty line completes
  the step (\<open>True\<close>), \<open>n\<close> reads a note and appends it to the ledger when it is not
  empty, \<open>q\<close> interrupts (\<open>False\<close>).\<close>

fun ack_loop :: "host \<Rightarrow> InstallationStage \<Rightarrow> InstallationStep \<Rightarrow> string list \<Rightarrow> event list
    \<Rightarrow> string list \<Rightarrow> error + (bool \<times> string list \<times> event list \<times> string list)" where
  "ack_loop h stage step notes out [] = Inl EOFError"
| "ack_loop h stage step notes out (line # ins) =
     (let out1 = out @ [Prompt ack_prompt];
          follow_up = str_lower h (str_strip h line)
      in if follow_up = [] then Inr (True, notes, out1, ins)
         else if follow_up = ''n'' then
           (case ins of
              [] \<Rightarrow> Inl EOFError
            | line2 # ins2 \<Rightarrow>
                let note = str_strip h line2
                in if note \<noteq> [] then
                     ack_loop h stage step
                       (notes @ [title stage @ '' / '' @ step_title step @ '': '' @ note])
                       (out1 @ [Prompt note_prompt,
                                Noted (title stage @ '' / '' @ step_title step @ '': '' @ note)])
                       ins2
                   else ack_loop h stage step notes (out1 @ [Prompt note_prompt]) ins2)
         else if follow_up = ''q'' then
           Inr (False, notes,
                out1 @ [Print ''Wizard interrupted. Resume later from the remaining steps.''], ins)
         else ack_loop h stage step notes (out1 @ [Print ''Unknown option. Please try again.'']) ins)"

text \<open>\<open>_process_step\<close>: the step is shown, its commands are offered when it has any,
  then the acknowledgement decides. The result is \<open>False\<close> when the wizard should exit.\<close>

definition process_step :: "host \<Rightarrow> InstallationStep \<Rightarrow> nat \<Rightarrow> InstallationStage
    \<Rightarrow> string list \<Rightarrow> event list \<Rightarrow> string list
    \<Rightarrow> error + (bool \<times> string list \<times> event list \<times> string list)" where
  "process_step h step index stage notes out ins =
     (let out1 = out @ [Print (CHR 0x0A # ''['' @ str_upper h (key stage) @ '' '' @ format_02d index @ ''] ''
                               @ step_title step @ '' '' @ em_dash @ '' '' @ step_context step),
                        Print (step_description step)]
      in if commands step \<noteq> [] then
           (case copy_loop h (commands step)
                   (out1 @ [Print ''Suggested commands:'']
                    @ map (\<lambda>(cmd_index, command). Print (''  ('' @ str_nat cmd_index @ '') '' @ command))
                        (enumerate 1 (commands step)))
                   ins of
              Inl e \<Rightarrow> Inl e
            | Inr (out2, ins2) \<Rightarrow> ack_loop h stage step notes out2 ins2)
         else ack_loop h stage step notes out1 ins)"

text \<open>\<open>_run_stage\<close>: the steps in order, numbered from 1; the first step that returns
  \<open>False\<close> ends the stage with \<open>False\<close>.\<close>

fun run_steps :: "host \<Rightarrow> InstallationStage \<Rightarrow> nat \<Rightarrow> InstallationStep list
    \<Rightarrow> string list \<Rightarrow> event list \<Rightarrow> string list
    \<Rightarrow> error + (bool \<times> string list \<times> event list \<times> string list)" where
  "run_steps h stage index [] notes out ins = Inr (True, notes, out, ins)"
| "run_steps h stage index (step # rest) notes out ins =
     (case process_step h step index stage notes out ins of
        Inl e \<Rightarrow> Inl e
      | Inr (completed, notes', out', ins') \<Rightarrow>
          if \<not> completed then Inr (False, notes', out', ins')
          else run_steps h stage (Suc index) rest notes' out' ins')"

definition run_stage :: "host \<Rightarrow> InstallationStage \<Rightarrow> string list \<Rightarrow> event list \<Rightarrow> string list
    \<Rightarrow> error + (bool \<times> string list \<times> event list \<times> string list)" where
  "run_stage h stage notes out ins =
     run_steps h stage 1 (steps stage) notes
       (out @ [Print (CHR 0x0A # ''=== '' @ title stage @ '' ===''), Print (description stage)]) ins"

text \<open>The loop over the chosen stages in \<open>run_installation_wizard\<close>; its result is the
  flag \<open>interrupted\<close>.\<close>

fun run_sequence :: "host \<Rightarrow> InstallationStage list \<Rightarrow> string list \<Rightarrow> event list \<Rightarrow> string list
    \<Rightarrow> error + (bool \<times> string list \<times> event list \<times> string list)" where
  "run_sequence h [] notes out ins = Inr (False, notes, out, ins)"
| "run_sequence h (stage # rest) notes out ins =
     (case run_stage h stage notes out ins of
        Inl e \<Rightarrow> Inl e
      | Inr (completed, notes', out', ins') \<Rightarrow>
          if \<not> completed then Inr (True, notes', out', ins')
          else run_sequence h rest notes' out' ins')"

text \<open>A dictionary built by a comprehension: a later entry replaces an earlier one with
  the same key.\<close>

definition dict_of :: "(string \<times> 'v) list \<Rightarrow> (string \<rightharpoonup> 'v)" where
  "dict_of entries = foldl (\<lambda>d (k, v). d(k \<mapsto> v)) Map.empty entries"

definition stage_map :: "InstallationStage list \<Rightarrow> (string \<rightharpoonup> InstallationStage)" where
  "stage_map stages = dict_of (map (\<lambda>(index, stage). (str_nat index, stage)) (enumerate 0 stages))"

definition stage_keys :: "host \<Rightarrow> InstallationStage list \<Rightarrow> (string \<rightharpoonup> InstallationStage)" where
  "stage_keys h stages = dict_of (map (\<lambda>stage. (str_lower h (key stage), stage)) stages)"

definition menu :: "InstallationStage list \<Rightarrow> event list" where
  "menu stages =
     Print (CHR 0x0A # ''Available stages:'')
     # map (\<lambda>(index, stage). Print (''  ['' @ str_nat index @ ''] '' @ title stage @ '' '' @ em_dash
                                      @ '' '' @ description stage))
         (enumerate 0 stages)"

text \<open>The choice of the stages to run: \<open>None\<close> for an unknown option.\<close>

definition select_sequence :: "host \<Rightarrow> InstallationStage list \<Rightarrow> string \<Rightarrow> InstallationStage list option" where
  "select_sequence h stages choice =
     (if choice = ''a'' \<or> choice = ''all'' then Some stages
      else case stage_map stages choice of
             Some stage \<Rightarrow> Some [stage]
           | None \<Rightarrow> (case stage_keys h stages choice of
                         Some stage \<Rightarrow> Some [stage]
                       | None \<Rightarrow> None))"

text \<open>No function of the session gives lines back: the lines left after a call are
  no more than before. The outer loop, which reads one line itself in every round,
  terminates for this reason.\<close>

lemma copy_loop_ins:
  "copy_loop h cmds out ins = Inr (out', ins') \<Longrightarrow> length ins' \<le> length ins"
  by (induction ins arbitrary: out) (auto simp: Let_def split: if_splits option.splits intro: le_SucI)

lemma ack_loop_ins:
  "ack_loop h stage step ns out ins = Inr (f, ns', out', ins') \<Longrightarrow> length ins' \<le> length ins"
proof (induction h stage step ns out ins rule: ack_loop.induct)
  case (1 h stage step ns out)
  then show ?case by simp
next
  case (2 h stage step ns out line ins)
  from "2.prems" "2.IH" show ?case
    by (auto simp: Let_def split: if_splits list.splits intro!: le_SucI)
qed

lemma process_step_ins:
  "process_step h step index stage ns out ins = Inr (f, ns', out', ins') \<Longrightarrow> length ins' \<le> length ins"
  unfolding process_step_def Let_def
  by (auto split: if_splits sum.splits dest!: copy_loop_ins ack_loop_ins)

lemma run_steps_ins:
  "run_steps h stage index xs ns out ins = Inr (f, ns', out', ins') \<Longrightarrow> length ins' \<le> length ins"
proof (induction xs arbitrary: index ns out ins)
  case Nil
  then show ?case by simp
next
  case (Cons x xs)
  then show ?case
    by (fastforce split: sum.splits if_splits dest!: process_step_ins)
qed

lemma run_stage_ins:
  "run_stage h stage ns out ins = Inr (f, ns', out', ins') \<Longrightarrow> length ins' \<le> length ins"
  unfolding run_stage_def by (rule run_steps_ins)

lemma run_sequence_ins:
  "run_sequence h xs ns out ins = Inr (f, ns', out', ins') \<Longrightarrow> length ins' \<le> length ins"
proof (induction xs arbitrary: ns out ins)
  case Nil
  then show ?case by simp
next
  case (Cons x xs)
  then show ?case
    by (fastforce split: sum.splits if_splits dest!: run_stage_ins)
qed

text \<open>The loop \<open>while True\<close> of \<open>run_installation_wizard\<close>: the stages are listed, a
  line is read; an empty choice leaves the loop, an unknown one starts the next round,
  any other runs the chosen stages and leaves the loop when they were interrupted.\<close>

function choosing :: "host \<Rightarrow> InstallationStage list \<Rightarrow> string list \<Rightarrow> event list \<Rightarrow> string list
    \<Rightarrow> error + (string list \<times> event list \<times> string list)" where
  "choosing h stages notes out [] = Inl EOFError"
| "choosing h stages notes out (line # ins) =
     (let out1 = out @ menu stages @ [Prompt select_prompt];
          choice = str_lower h (str_strip h line)
      in if choice = [] then Inr (notes, out1, ins)
         else
           (case select_sequence h stages choice of
              None \<Rightarrow> choosing h stages notes (out1 @ [Print ''Unknown option. Try again.'']) ins
            | Some sequence \<Rightarrow>
                (case run_sequence h sequence notes out1 ins of
                   Inl e \<Rightarrow> Inl e
                 | Inr (interrupted, notes', out', ins') \<Rightarrow>
                     if interrupted then Inr (notes', out', ins')
                     else choosing h stages notes' out' ins')))"
  by pat_completeness auto
termination
  by (relation "measure (\<lambda>(h, stages, notes, out, ins). length ins)")
     (auto dest!: run_sequence_ins)


text \<open>What is printed after the loop: the notes, when there are any.\<close>

definition flush_notes :: "string list \<Rightarrow> event list" where
  "flush_notes notes =
     (if notes \<noteq> [] then Print (CHR 0x0A # ''Session notes:'') # map (\<lambda>entry. Print (''  - '' @ entry)) notes
      else [])"

text \<open>\<open>run_installation_wizard\<close>: the output of the whole session and the lines it
  left unread, or the exception that ended it.\<close>

definition run_installation_wizard ::
  "host \<Rightarrow> ApexInstallerHelper \<Rightarrow> pydict \<Rightarrow> pydict \<Rightarrow> string list
    \<Rightarrow> error + (event list \<times> string list)" where
  "run_installation_wizard h self project matches ins =
     (let stages = build_guided_stages h self project matches
      in if stages = [] then
           Inr ([Print (CHR 0x0A # ''Guided wizard is unavailable: make sure the project has container information.'')],
                ins)
         else
           (case choosing h stages []
                   [Print (CHR 0x0A # ''--- Guided APEX Installation Wizard ---''),
                    Print ''Pick the stage you need. You can run them individually or execute all of them in sequence.'']
                   ins of
              Inl e \<Rightarrow> Inl e
            | Inr (collected_notes, out, ins') \<Rightarrow>
                Inr (out @ flush_notes collected_notes
                     @ [Print (CHR 0x0A # ''Wizard closed. Re-run it if you need to revisit any stage.'')],
                     ins')))"

section \<open>Properties\<close>

text \<open>
  C8. When no requirement is matched (every lookup is \<open>None\<close> or the empty string), the
  report of the missing artifacts has exactly three lines, for the runtime, the
  application platform and the REST gateway in this order, each naming the artifact
  and its download URL; when all three are matched, the report is empty.
\<close>

theorem missing_report_none_or_all:
  "(\<not> truthy (dict_get matches ''java'') \<and> \<not> truthy (dict_get matches ''apex'')
      \<and> \<not> truthy (dict_get matches ''ords'')
    \<longrightarrow> missing_artifacts_report matches =
          [''Missing Java Development Kit for Linux x64. Download it from https://www.oracle.com/java/technologies/downloads/'',
           ''Missing Oracle APEX bundle. Download it from https://www.oracle.com/tools/downloads/apex-downloads/'',
           ''Missing Oracle REST Data Services (ORDS). Download it from https://www.oracle.com/database/technologies/appdev/rest-data-services-downloads.html'']
        \<and> map fst REQUIRED_ARTIFACTS = [''java'', ''apex'', ''ords''])
   \<and> (truthy (dict_get matches ''java'') \<and> truthy (dict_get matches ''apex'')
      \<and> truthy (dict_get matches ''ords'')
    \<longrightarrow> missing_artifacts_report matches = [])"
  by (simp add: missing_artifacts_report_def REQUIRED_ARTIFACTS_def)

theorem missing_report_none_or_all_witness:
  "missing_artifacts_report Map.empty =
     [''Missing Java Development Kit for Linux x64. Download it from https://www.oracle.com/java/technologies/downloads/'',
      ''Missing Oracle APEX bundle. Download it from https://www.oracle.com/tools/downloads/apex-downloads/'',
      ''Missing Oracle REST Data Services (ORDS). Download it from https://www.oracle.com/database/technologies/appdev/rest-data-services-downloads.html'']
   \<and> missing_artifacts_report
        [''java'' \<mapsto> PyStr ''/w/APEX_files/jdk-17_linux-x64_bin.tar.gz'',
         ''apex'' \<mapsto> PyStr ''/w/APEX_files/apex_24.1.zip'',
         ''ords'' \<mapsto> PyStr ''/w/APEX_files/ords-latest.zip''] = []"
  using missing_report_none_or_all [of Map.empty]
    missing_report_none_or_all
      [of "[''java'' \<mapsto> PyStr ''/w/APEX_files/jdk-17_linux-x64_bin.tar.gz'',
            ''apex'' \<mapsto> PyStr ''/w/APEX_files/apex_24.1.zip'',
            ''ords'' \<mapsto> PyStr ''/w/APEX_files/ords-latest.zip'']"]
  by (simp add: dict_get_def)

text \<open>
  C6. For the archive \<open>jdk-17_linux-x64_bin.tar.gz\<close> the hint is \<open>jdk-17\<close>: the suffix
  \<open>.tar.gz\<close> is cut off first, which leaves \<open>jdk-17_linux-x64_bin\<close>, then everything
  from \<open>_linux\<close> on. With no archive name (or an empty one) the hint is the placeholder
  \<open><jdk_folder>\<close>, and for no archive name at all is the hint empty.
\<close>

theorem guess_java_home_scenario:
  "guess_java_home (Some ''jdk-17_linux-x64_bin.tar.gz'') = ''jdk-17''
   \<and> strip_archive_suffix [''.tar.gz'', ''.tgz'', ''.tar''] ''jdk-17_linux-x64_bin.tar.gz''
       = ''jdk-17_linux-x64_bin''
   \<and> split_first ''_linux'' ''jdk-17_linux-x64_bin'' = ''jdk-17''
   \<and> guess_java_home None = ''<jdk_folder>''
   \<and> guess_java_home (Some []) = ''<jdk_folder>''
   \<and> guess_java_home archive_name \<noteq> []"
  by (simp add: guess_java_home_def endswith_def slice_to_neg_def Let_def split: option.splits)

subsection \<open>The plan builder\<close>

lemma resolve_nonempty:
  "resolve_container_reference project = Some r \<Longrightarrow> r \<noteq> []"
  by (cases "dict_get project ''container_id''"; cases "dict_get project ''container_name''")
     (auto simp: resolve_container_reference_def Let_def split: if_splits)

lemma resolve_none:
  "resolve_container_reference project = None
   \<longleftrightarrow> \<not> truthy (dict_get project ''container_id'') \<and> \<not> truthy (dict_get project ''container_name'')"
  by (simp add: resolve_container_reference_def Let_def)

lemma build_empty:
  "resolve_container_reference project = None \<Longrightarrow> build_guided_stages h self project matches = []"
  by (simp add: build_guided_stages_def)

lemma build_keys:
  "resolve_container_reference project \<noteq> None
   \<Longrightarrow> map key (build_guided_stages h self project matches) = [''prep'', ''java'', ''ords'', ''apex'']"
  by (auto simp: build_guided_stages_def Let_def dest: resolve_nonempty)

lemma build_prep_steps:
  "resolve_container_reference project = Some r
   \<Longrightarrow> steps (build_guided_stages h self project matches ! 0) =
       preparation_steps
         (if truthy (dict_get project ''container_name'') then str (dict_get project ''container_name'') else r)
         r
         (shlex_quote (rstrip_chars [CHR ''/'', CHR 0x5C] (os_path_join h (working_folder self) ''APEX_files'') @ ''/.''))
         (artifact_message matches (archive_of h (dict_get matches ''java''))
            (archive_of h (dict_get matches ''ords'')) (archive_of h (dict_get matches ''apex'')))
         (extract_commands (archive_of h (dict_get matches ''java''))
            (archive_of h (dict_get matches ''apex'')) (archive_of h (dict_get matches ''ords'')))"
  by (auto simp: build_guided_stages_def Let_def dest: resolve_nonempty)

lemma build_apex_steps:
  "resolve_container_reference project = Some r
   \<Longrightarrow> steps (build_guided_stages h self project matches ! 3) =
       apex_steps
         (if truthy (dict_get project ''apex_url'') then str (dict_get project ''apex_url'') else default_url)
         (browser_command h
            (if truthy (dict_get project ''apex_url'') then str (dict_get project ''apex_url'') else default_url))"
  by (auto simp: build_guided_stages_def Let_def dest: resolve_nonempty)

lemma extract_step:
  "preparation_steps l r c m e ! 5 =
     \<lparr>step_title = ''Extract installers'',
      step_description = ''Unpack the archives inside the tools directory. If the files were already extracted, re-run the commands to refresh them.'',
      step_context = ''Container shell'', commands = e\<rparr>"
  by (simp add: preparation_steps_def)

text \<open>
  C4. For every project with a resolvable container reference and every artifact match
  result (a matched requirement maps to the path of a file, so the base name of the
  path is not empty), the plan has exactly the four stages \<open>prep\<close>, \<open>java\<close>, \<open>ords\<close>,
  \<open>apex\<close> in this order, and the commands of the step \<open>Extract installers\<close>, the sixth
  of the preparation stage, are the two listing commands, then \<open>tar\<close> for the runtime
  archive, \<open>unzip\<close> for the APEX archive and \<open>mkdir\<close> with \<open>unzip\<close> for the ORDS
  archive, each present if and only if its artifact was matched, then the final
  listing.
\<close>

theorem four_stages_and_extraction:
  assumes ref: "resolve_container_reference project \<noteq> None"
    and java: "truthy (dict_get matches ''java'') \<longrightarrow> os_path_basename h (str (dict_get matches ''java'')) \<noteq> []"
    and apex: "truthy (dict_get matches ''apex'') \<longrightarrow> os_path_basename h (str (dict_get matches ''apex'')) \<noteq> []"
    and ords: "truthy (dict_get matches ''ords'') \<longrightarrow> os_path_basename h (str (dict_get matches ''ords'')) \<noteq> []"
  shows "map key (build_guided_stages h self project matches) = [''prep'', ''java'', ''ords'', ''apex'']
    \<and> length (build_guided_stages h self project matches) = 4
    \<and> length (steps (build_guided_stages h self project matches ! 0)) = 6
    \<and> step_title (steps (build_guided_stages h self project matches ! 0) ! 5) = ''Extract installers''
    \<and> commands (steps (build_guided_stages h self project matches ! 0) ! 5) =
        [''cd /opt/oracle/tools'', ''ls -1'']
        @ (if truthy (dict_get matches ''java'')
           then [''tar -xzf '' @ os_path_basename h (str (dict_get matches ''java''))] else [])
        @ (if truthy (dict_get matches ''apex'')
           then [''unzip -o '' @ os_path_basename h (str (dict_get matches ''apex''))] else [])
        @ (if truthy (dict_get matches ''ords'')
           then [''mkdir -p ords'',
                 ''unzip -o '' @ os_path_basename h (str (dict_get matches ''ords'')) @ '' -d ords''] else [])
        @ [''ls -lh /opt/oracle/tools'']
    \<and> ((\<exists>c \<in> set (commands (steps (build_guided_stages h self project matches ! 0) ! 5)).
           prefix ''tar -xzf '' c) \<longleftrightarrow> truthy (dict_get matches ''java''))
    \<and> (''mkdir -p ords'' \<in> set (commands (steps (build_guided_stages h self project matches ! 0) ! 5))
        \<longleftrightarrow> truthy (dict_get matches ''ords''))
    \<and> length (filter (prefix ''unzip -o '')
                 (commands (steps (build_guided_stages h self project matches ! 0) ! 5)))
        = (if truthy (dict_get matches ''apex'') then 1 else 0)
          + (if truthy (dict_get matches ''ords'') then 1 else 0)"
proof -
  from ref obtain r where r: "resolve_container_reference project = Some r" by auto
  have keys: "map key (build_guided_stages h self project matches) = [''prep'', ''java'', ''ords'', ''apex'']"
    using ref by (rule build_keys)
  have len: "length (build_guided_stages h self project matches) = 4"
    using arg_cong [OF keys, of length] by simp
  note prep = build_prep_steps [OF r, of h self matches]
  have cmds: "commands (steps (build_guided_stages h self project matches ! 0) ! 5) =
      extract_commands (archive_of h (dict_get matches ''java''))
            (archive_of h (dict_get matches ''apex'')) (archive_of h (dict_get matches ''ords''))"
    by (simp only: prep extract_step) simp
  have ex: "extract_commands (archive_of h (dict_get matches ''java''))
            (archive_of h (dict_get matches ''apex'')) (archive_of h (dict_get matches ''ords'')) =
        [''cd /opt/oracle/tools'', ''ls -1'']
        @ (if truthy (dict_get matches ''java'')
           then [''tar -xzf '' @ os_path_basename h (str (dict_get matches ''java''))] else [])
        @ (if truthy (dict_get matches ''apex'')
           then [''unzip -o '' @ os_path_basename h (str (dict_get matches ''apex''))] else [])
        @ (if truthy (dict_get matches ''ords'')
           then [''mkdir -p ords'',
                 ''unzip -o '' @ os_path_basename h (str (dict_get matches ''ords'')) @ '' -d ords''] else [])
        @ [''ls -lh /opt/oracle/tools'']"
    using java apex ords by (simp add: extract_commands_def archive_of_def tools_folder_def)
  have six: "length (steps (build_guided_stages h self project matches ! 0)) = 6"
    by (simp only: prep) (simp add: preparation_steps_def)
  have ttl: "step_title (steps (build_guided_stages h self project matches ! 0) ! 5) = ''Extract installers''"
    by (simp only: prep extract_step) simp
  have tar: "(\<exists>c \<in> set (commands (steps (build_guided_stages h self project matches ! 0) ! 5)).
           prefix ''tar -xzf '' c) \<longleftrightarrow> truthy (dict_get matches ''java'')"
    unfolding cmds ex by auto
  have mkdir: "''mkdir -p ords'' \<in> set (commands (steps (build_guided_stages h self project matches ! 0) ! 5))
        \<longleftrightarrow> truthy (dict_get matches ''ords'')"
    unfolding cmds ex by auto
  have unzip: "length (filter (prefix ''unzip -o '')
                 (commands (steps (build_guided_stages h self project matches ! 0) ! 5)))
        = (if truthy (dict_get matches ''apex'') then 1 else 0)
          + (if truthy (dict_get matches ''ords'') then 1 else 0)"
    unfolding cmds ex by simp
  from keys len six ttl tar mkdir unzip show ?thesis
    unfolding cmds ex by blast
qed


theorem four_stages_and_extraction_witness:
  "resolve_container_reference [''container_id'' \<mapsto> PyStr ''c1''] = Some ''c1''
   \<and> os_path_basename posix_host ''/w/APEX_files/jdk-17_linux-x64_bin.tar.gz'' = ''jdk-17_linux-x64_bin.tar.gz''
   \<and> map key (build_guided_stages posix_host (init posix_host ''/w'') [''container_id'' \<mapsto> PyStr ''c1'']
                  [''java'' \<mapsto> PyStr ''/w/APEX_files/jdk-17_linux-x64_bin.tar.gz''])
       = [''prep'', ''java'', ''ords'', ''apex'']
   \<and> commands (steps (build_guided_stages posix_host (init posix_host ''/w'') [''container_id'' \<mapsto> PyStr ''c1'']
                  [''java'' \<mapsto> PyStr ''/w/APEX_files/jdk-17_linux-x64_bin.tar.gz''] ! 0) ! 5)
       = [''cd /opt/oracle/tools'', ''ls -1'', ''tar -xzf jdk-17_linux-x64_bin.tar.gz'',
          ''ls -lh /opt/oracle/tools'']"
proof -
  let ?p = "[''container_id'' \<mapsto> PyStr ''c1'']"
  let ?m = "[''java'' \<mapsto> PyStr ''/w/APEX_files/jdk-17_linux-x64_bin.tar.gz'']"
  have r: "resolve_container_reference ?p = Some ''c1''"
    by (simp add: resolve_container_reference_def dict_get_def)
  have b: "os_path_basename posix_host ''/w/APEX_files/jdk-17_linux-x64_bin.tar.gz'' = ''jdk-17_linux-x64_bin.tar.gz''"
    by (simp add: posix_host_def posix_basename_def)
  have r': "resolve_container_reference ?p \<noteq> None" using r by simp
  have j: "truthy (dict_get ?m ''java'') \<longrightarrow> os_path_basename posix_host (str (dict_get ?m ''java'')) \<noteq> []"
    using b by (simp add: dict_get_def)
  have a: "truthy (dict_get ?m ''apex'') \<longrightarrow> os_path_basename posix_host (str (dict_get ?m ''apex'')) \<noteq> []"
    by (simp add: dict_get_def)
  have o: "truthy (dict_get ?m ''ords'') \<longrightarrow> os_path_basename posix_host (str (dict_get ?m ''ords'')) \<noteq> []"
    by (simp add: dict_get_def)
  from four_stages_and_extraction [OF r' j a o, of "init posix_host ''/w''"] r b show ?thesis
    by (simp add: dict_get_def)
qed

lemma contains_append: "contains sub ys \<Longrightarrow> contains sub (xs @ ys)"
  by (induction xs) auto

text \<open>
  C5. For the project \<open>{container_id: "c1", container_name: "proj_xe", apex_url: None}\<close>
  and no artifact match, on every host and for every working folder: the plan has four
  stages; the step \<open>Copy installation artifacts\<close> of the preparation stage has two
  commands, both naming the container \<open>c1\<close>; the step \<open>Validate APEX endpoint\<close> of
  the last stage runs \<open>curl\<close> on the default URL \<open>http://localhost:8080/ords\<close>.
\<close>

theorem scenario_c1:
  "length (build_guided_stages h self
             [''container_id'' \<mapsto> PyStr ''c1'', ''container_name'' \<mapsto> PyStr ''proj_xe'', ''apex_url'' \<mapsto> PyNone]
             Map.empty) = 4
   \<and> map key (build_guided_stages h self
             [''container_id'' \<mapsto> PyStr ''c1'', ''container_name'' \<mapsto> PyStr ''proj_xe'', ''apex_url'' \<mapsto> PyNone]
             Map.empty) = [''prep'', ''java'', ''ords'', ''apex'']
   \<and> step_title (steps (build_guided_stages h self
             [''container_id'' \<mapsto> PyStr ''c1'', ''container_name'' \<mapsto> PyStr ''proj_xe'', ''apex_url'' \<mapsto> PyNone]
             Map.empty ! 0) ! 3) = ''Copy installation artifacts''
   \<and> commands (steps (build_guided_stages h self
             [''container_id'' \<mapsto> PyStr ''c1'', ''container_name'' \<mapsto> PyStr ''proj_xe'', ''apex_url'' \<mapsto> PyNone]
             Map.empty ! 0) ! 3)
       = [''docker cp ''
            @ shlex_quote (rstrip_chars [CHR ''/'', CHR 0x5C] (os_path_join h (working_folder self) ''APEX_files'') @ ''/.'')
            @ '' c1:/opt/oracle/tools'',
          ''docker exec -it c1 ls -lh /opt/oracle/tools'']
   \<and> list_all (contains ''c1'') (commands (steps (build_guided_stages h self
             [''container_id'' \<mapsto> PyStr ''c1'', ''container_name'' \<mapsto> PyStr ''proj_xe'', ''apex_url'' \<mapsto> PyNone]
             Map.empty ! 0) ! 3))
   \<and> step_title (steps (build_guided_stages h self
             [''container_id'' \<mapsto> PyStr ''c1'', ''container_name'' \<mapsto> PyStr ''proj_xe'', ''apex_url'' \<mapsto> PyNone]
             Map.empty ! 3) ! 6) = ''Validate APEX endpoint''
   \<and> commands (steps (build_guided_stages h self
             [''container_id'' \<mapsto> PyStr ''c1'', ''container_name'' \<mapsto> PyStr ''proj_xe'', ''apex_url'' \<mapsto> PyNone]
             Map.empty ! 3) ! 6)
       = [''curl -I http://localhost:8080/ords'', browser_command h ''http://localhost:8080/ords'']
   \<and> contains ''http://localhost:8080/ords'' ''curl -I http://localhost:8080/ords''"
proof -
  let ?p = "[''container_id'' \<mapsto> PyStr ''c1'', ''container_name'' \<mapsto> PyStr ''proj_xe'', ''apex_url'' \<mapsto> PyNone]"
  let ?b = "build_guided_stages h self ?p Map.empty"
  have r: "resolve_container_reference ?p = Some ''c1''"
    by (simp add: resolve_container_reference_def dict_get_def)
  have keys: "map key ?b = [''prep'', ''java'', ''ords'', ''apex'']"
    by (rule build_keys) (simp add: r)
  have len: "length ?b = 4"
    using arg_cong [OF keys, of length] by simp
  have copy: "steps (?b ! 0) ! 3 =
      \<lparr>step_title = ''Copy installation artifacts'',
       step_description = ''Transfer the installer archives into the container. ''
          @ artifact_message Map.empty (archive_of h (dict_get Map.empty ''java''))
              (archive_of h (dict_get Map.empty ''ords'')) (archive_of h (dict_get Map.empty ''apex'')),
       step_context = ''Host shell'',
       commands = [''docker cp ''
            @ shlex_quote (rstrip_chars [CHR ''/'', CHR 0x5C] (os_path_join h (working_folder self) ''APEX_files'') @ ''/.'')
            @ '' c1:/opt/oracle/tools'',
          ''docker exec -it c1 ls -lh /opt/oracle/tools'']\<rparr>"
    by (simp only: build_prep_steps [OF r]) (simp add: preparation_steps_def tools_folder_def)
  have validate: "steps (?b ! 3) ! 6 =
      \<lparr>step_title = ''Validate APEX endpoint'',
       step_description = ''Confirm that the APEX login page is reachable. Replace localhost with the mapped host if required.'',
       step_context = ''Host browser'',
       commands = [''curl -I http://localhost:8080/ords'', browser_command h ''http://localhost:8080/ords'']\<rparr>"
    by (simp only: build_apex_steps [OF r]) (simp add: apex_steps_def dict_get_def default_url_def)
  have c1: "contains ''c1'' (''docker cp ''
            @ shlex_quote (rstrip_chars [CHR ''/'', CHR 0x5C] (os_path_join h (working_folder self) ''APEX_files'') @ ''/.'')
            @ '' c1:/opt/oracle/tools'')"
    by (intro contains_append) simp
  have c2: "contains ''c1'' ''docker exec -it c1 ls -lh /opt/oracle/tools''"
    by simp
  have c3: "contains ''http://localhost:8080/ords'' ''curl -I http://localhost:8080/ords''"
    by simp
  show ?thesis
    unfolding copy validate using keys len c1 c2 c3 by simp
qed

text \<open>
  C1. When the project has neither a container identifier nor a container name (each
  lookup gives \<open>None\<close>: the key is missing or holds \<open>None\<close>), the plan has no stage,
  and the wizard prints that it is unavailable and returns: it shows no list of stages
  and reads no line.
\<close>

theorem no_container_no_wizard:
  "dict_get project ''container_id'' = PyNone \<and> dict_get project ''container_name'' = PyNone
   \<longrightarrow> build_guided_stages h self project matches = []
       \<and> length (build_guided_stages h self project matches) = 0
       \<and> run_installation_wizard h self project matches ins =
           Inr ([Print (CHR 0x0A # ''Guided wizard is unavailable: make sure the project has container information.'')],
                ins)"
  by (simp add: run_installation_wizard_def build_empty resolve_none)

theorem no_container_no_wizard_witness:
  "dict_get [''project_name'' \<mapsto> PyStr ''demo'', ''container_id'' \<mapsto> PyNone] ''container_id'' = PyNone
   \<and> dict_get [''project_name'' \<mapsto> PyStr ''demo'', ''container_id'' \<mapsto> PyNone] ''container_name'' = PyNone
   \<and> build_guided_stages posix_host (init posix_host ''/w'')
         [''project_name'' \<mapsto> PyStr ''demo'', ''container_id'' \<mapsto> PyNone] Map.empty = []
   \<and> run_installation_wizard posix_host (init posix_host ''/w'')
         [''project_name'' \<mapsto> PyStr ''demo'', ''container_id'' \<mapsto> PyNone] Map.empty [''all'', ''q''] =
       Inr ([Print (CHR 0x0A # ''Guided wizard is unavailable: make sure the project has container information.'')],
            [''all'', ''q''])"
  using no_container_no_wizard
    [of "[''project_name'' \<mapsto> PyStr ''demo'', ''container_id'' \<mapsto> PyNone]"
        posix_host "init posix_host ''/w''" Map.empty "[''all'', ''q'']"]
  by (simp add: dict_get_def)

text \<open>
  C10. The container reference is resolved by truth value. When the identifier is
  \<open>None\<close> or the empty string, the name is taken if it is truthy; when both are
  falsy there is no reference and the plan is empty. So a project that has both keys,
  each with the empty string, has an empty plan.
\<close>

theorem resolution_by_truthiness:
  "(\<not> truthy (dict_get project ''container_id'')
    \<longrightarrow> resolve_container_reference project =
        (if truthy (dict_get project ''container_name'')
         then Some (str (dict_get project ''container_name'')) else None))
   \<and> (\<not> truthy (dict_get project ''container_id'') \<and> \<not> truthy (dict_get project ''container_name'')
      \<longrightarrow> resolve_container_reference project = None
          \<and> build_guided_stages h self project matches = [])
   \<and> (project ''container_id'' = Some (PyStr []) \<and> project ''container_name'' = Some (PyStr [])
      \<longrightarrow> build_guided_stages h self project matches = [])"
proof -
  have a: "\<not> truthy (dict_get project ''container_id'')
    \<longrightarrow> resolve_container_reference project =
        (if truthy (dict_get project ''container_name'')
         then Some (str (dict_get project ''container_name'')) else None)"
    by (simp add: resolve_container_reference_def Let_def)
  have b: "\<not> truthy (dict_get project ''container_id'') \<and> \<not> truthy (dict_get project ''container_name'')
      \<longrightarrow> resolve_container_reference project = None
          \<and> build_guided_stages h self project matches = []"
    by (simp add: build_empty resolve_none)
  have c: "project ''container_id'' = Some (PyStr []) \<and> project ''container_name'' = Some (PyStr [])
      \<longrightarrow> build_guided_stages h self project matches = []"
    by (simp add: build_empty resolve_none dict_get_def)
  from a b c show ?thesis by blast
qed

theorem resolution_by_truthiness_witness:
  "resolve_container_reference [''container_id'' \<mapsto> PyStr [], ''container_name'' \<mapsto> PyStr ''proj_xe'']
     = Some ''proj_xe''
   \<and> {''container_id'', ''container_name''} \<subseteq> dom [''container_id'' \<mapsto> PyStr [], ''container_name'' \<mapsto> PyStr []]
   \<and> build_guided_stages posix_host (init posix_host ''/w'')
         [''container_id'' \<mapsto> PyStr [], ''container_name'' \<mapsto> PyStr []] Map.empty = []"
  using resolution_by_truthiness
    [of "[''container_id'' \<mapsto> PyStr [], ''container_name'' \<mapsto> PyStr ''proj_xe'']"]
    resolution_by_truthiness
    [of "[''container_id'' \<mapsto> PyStr [], ''container_name'' \<mapsto> PyStr []]"
        posix_host "init posix_host ''/w''" Map.empty]
  by (simp add: dict_get_def)

subsection \<open>The artifact locator\<close>

lemma find_append:
  "find P (xs @ ys) = (case find P xs of None \<Rightarrow> find P ys | Some x \<Rightarrow> Some x)"
  by (induction xs) auto

lemma find_in_files_find:
  "find_in_files h nk root fs =
     map_option (\<lambda>(r, f). os_path_join h r f) (find (\<lambda>(r, f). matches_keywords h nk f) (map (Pair root) fs))"
  by (induction fs) auto

lemma find_in_walk_find:
  "find_in_walk h nk w =
     map_option (\<lambda>(r, f). os_path_join h r f)
       (find (\<lambda>(r, f). matches_keywords h nk f) (concat (map (\<lambda>(r, fs). map (Pair r) fs) w)))"
proof (induction w)
  case Nil
  show ?case by simp
next
  case (Cons a w)
  obtain root fs where a: "a = (root, fs)" by (cases a)
  show ?case
    by (simp add: a find_append find_in_files_find Cons.IH split: option.splits)
qed

lemma contains_iff: "contains sub s \<longleftrightarrow> (\<exists>before after. s = before @ sub @ after)"
proof (induction s)
  case Nil
  show ?case by auto
next
  case (Cons c cs)
  show ?case
  proof
    assume "contains sub (c # cs)"
    then consider "prefix sub (c # cs)" | "contains sub cs" by auto
    then show "\<exists>before after. c # cs = before @ sub @ after"
    proof cases
      case 1
      then obtain after where "c # cs = sub @ after" by (auto simp: prefix_def)
      then have "c # cs = [] @ sub @ after" by simp
      then show ?thesis by blast
    next
      case 2
      with Cons.IH obtain before after where "cs = before @ sub @ after" by blast
      then have "c # cs = (c # before) @ sub @ after" by simp
      then show ?thesis by blast
    qed
  next
    assume "\<exists>before after. c # cs = before @ sub @ after"
    then obtain before after where e: "c # cs = before @ sub @ after" by blast
    show "contains sub (c # cs)"
    proof (cases before)
      case Nil
      with e have "prefix sub (c # cs)" by (simp add: prefix_def)
      then show ?thesis by simp
    next
      case (Cons b before')
      with e have "cs = before' @ sub @ after" by simp
      with Cons.IH have "contains sub cs" by blast
      then show ?thesis by simp
    qed
  qed
qed

lemma matches_keywords_lower:
  "matches_keywords h (map (str_lower h) kws) f
   = list_all (\<lambda>keyword. \<exists>before after.
                 filter (\<lambda>c. c \<noteq> CHR '' '') (str_lower h f) = before @ str_lower h keyword @ after) kws"
  by (simp add: matches_keywords_def normalized_file_def remove_spaces_def list_all_iff contains_iff)

lemma scan_lookup:
  "dict_get (scan_required_files h self tree) ''java'' = optional_str (find_artifact h self tree [''jdk'', ''linux''])"
  "dict_get (scan_required_files h self tree) ''apex'' = optional_str (find_artifact h self tree [''apex''])"
  "dict_get (scan_required_files h self tree) ''ords'' = optional_str (find_artifact h self tree [''ords''])"
  by (simp_all add: scan_required_files_def REQUIRED_ARTIFACTS_def dict_get_def)

text \<open>
  C7, as amended. For every directory tree below the scan root and every list of
  keywords, \<open>_find_artifact\<close> returns the path of the first file whose name, put in
  lower case and with every space removed, contains every keyword in lower case as a
  contiguous part, and \<open>None\<close> when there is no such file. First is meant in the order
  of \<open>os.walk\<close>: directory by directory from the top down (a directory before its
  subdirectories), and within a directory in the order in which the host lists its
  files. The helper does not sort, so the result is a function of the listing, not
  of the set of names. \<open>scan_required_files\<close> stores this result for each requirement
  of the catalog.
\<close>

theorem first_match_in_walk_order:
  "find_artifact h self tree kws =
     map_option (\<lambda>(root, file_name). os_path_join h root file_name)
       (find (\<lambda>(root, file_name).
                list_all (\<lambda>keyword. \<exists>before after.
                            filter (\<lambda>c. c \<noteq> CHR '' '') (str_lower h file_name)
                            = before @ str_lower h keyword @ after) kws)
             (concat (map (\<lambda>(root, files). map (Pair root) files) (walk h (apex_folder self) tree))))
   \<and> walk h root (Dir name files subs) =
       (root, files) # concat (map (\<lambda>d. walk h (os_path_join h root (dir_name d)) d) subs)
   \<and> dict_get (scan_required_files h self tree) ''java'' = optional_str (find_artifact h self tree [''jdk'', ''linux''])
   \<and> dict_get (scan_required_files h self tree) ''apex'' = optional_str (find_artifact h self tree [''apex''])
   \<and> dict_get (scan_required_files h self tree) ''ords'' = optional_str (find_artifact h self tree [''ords''])"
  by (simp add: find_artifact_def find_in_walk_find matches_keywords_lower scan_lookup)

theorem first_match_in_walk_order_witness:
  "find_artifact posix_host (init posix_host ''/w'')
     (Dir ''APEX_files'' [''notes.txt'', ''J D K 17 Linux x64.tar.gz'', ''jdk-21_linux-x64_bin.tar.gz'']
        [Dir ''old'' [''jdk-11_linux-x64_bin.tar.gz'', ''ords-latest.zip''] []])
     [''jdk'', ''linux''] = Some ''/w/APEX_files/J D K 17 Linux x64.tar.gz''
   \<and> map_option (\<lambda>(root, file_name). os_path_join posix_host root file_name)
       (find (\<lambda>(root, file_name).
                list_all (\<lambda>keyword. \<exists>before after.
                            filter (\<lambda>c. c \<noteq> CHR '' '') (str_lower posix_host file_name)
                            = before @ str_lower posix_host keyword @ after) [''jdk'', ''linux''])
             (concat (map (\<lambda>(root, files). map (Pair root) files)
                (walk posix_host (apex_folder (init posix_host ''/w''))
                   (Dir ''APEX_files'' [''notes.txt'', ''J D K 17 Linux x64.tar.gz'', ''jdk-21_linux-x64_bin.tar.gz'']
                      [Dir ''old'' [''jdk-11_linux-x64_bin.tar.gz'', ''ords-latest.zip''] []])))))
     = Some ''/w/APEX_files/J D K 17 Linux x64.tar.gz''
   \<and> find_artifact posix_host (init posix_host ''/w'')
     (Dir ''APEX_files'' [''notes.txt'', ''J D K 17 Linux x64.tar.gz'', ''jdk-21_linux-x64_bin.tar.gz'']
        [Dir ''old'' [''jdk-11_linux-x64_bin.tar.gz'', ''ords-latest.zip''] []])
     [''ords''] = Some ''/w/APEX_files/old/ords-latest.zip''
   \<and> find_artifact posix_host (init posix_host ''/w'')
     (Dir ''APEX_files'' [''notes.txt'', ''J D K 17 Linux x64.tar.gz'', ''jdk-21_linux-x64_bin.tar.gz'']
        [Dir ''old'' [''jdk-11_linux-x64_bin.tar.gz'', ''ords-latest.zip''] []])
     [''apex''] = None
   \<and> dict_get (scan_required_files posix_host (init posix_host ''/w'')
        (Dir ''APEX_files'' [''notes.txt'', ''J D K 17 Linux x64.tar.gz'', ''jdk-21_linux-x64_bin.tar.gz'']
           [Dir ''old'' [''jdk-11_linux-x64_bin.tar.gz'', ''ords-latest.zip''] []])) ''java''
     = PyStr ''/w/APEX_files/J D K 17 Linux x64.tar.gz''"
proof -
  let ?t = "Dir ''APEX_files'' [''notes.txt'', ''J D K 17 Linux x64.tar.gz'', ''jdk-21_linux-x64_bin.tar.gz'']
        [Dir ''old'' [''jdk-11_linux-x64_bin.tar.gz'', ''ords-latest.zip''] []]"
  let ?self = "init posix_host ''/w''"
  note T = first_match_in_walk_order [of posix_host ?self ?t]
  have j: "find_artifact posix_host ?self ?t [''jdk'', ''linux''] = Some ''/w/APEX_files/J D K 17 Linux x64.tar.gz''"
    by code_simp
  have o: "find_artifact posix_host ?self ?t [''ords''] = Some ''/w/APEX_files/old/ords-latest.zip''"
    by code_simp
  have a: "find_artifact posix_host ?self ?t [''apex''] = None"
    by code_simp
  note j' = trans [OF T [of "[''jdk'', ''linux'']", THEN conjunct1, symmetric] j]
  have s: "dict_get (scan_required_files posix_host ?self ?t) ''java''
      = PyStr ''/w/APEX_files/J D K 17 Linux x64.tar.gz''"
    using T [of "[]", THEN conjunct2, THEN conjunct2, THEN conjunct1] j by (simp add: optional_str_def)
  from j j' o a s show ?thesis by (intro conjI)
qed

text \<open>
  C7, the claim as it was stated, fails: the traversal order is not fixed by the
  content of the directory. Two listings of one directory with the same two file
  names give two different results, and in the first the file found is not the first
  by name.
\<close>

theorem same_files_other_order_counterexample:
  "set (file_names (Dir ''APEX_files'' [''apex_24.1.zip'', ''apex_23.2.zip''] []))
     = set (file_names (Dir ''APEX_files'' [''apex_23.2.zip'', ''apex_24.1.zip''] []))
   \<and> find_artifact posix_host (init posix_host ''/w'')
       (Dir ''APEX_files'' [''apex_24.1.zip'', ''apex_23.2.zip''] []) [''apex'']
     = Some ''/w/APEX_files/apex_24.1.zip''
   \<and> find_artifact posix_host (init posix_host ''/w'')
       (Dir ''APEX_files'' [''apex_23.2.zip'', ''apex_24.1.zip''] []) [''apex'']
     = Some ''/w/APEX_files/apex_23.2.zip''"
proof -
  have s: "set (file_names (Dir ''APEX_files'' [''apex_24.1.zip'', ''apex_23.2.zip''] []))
     = set (file_names (Dir ''APEX_files'' [''apex_23.2.zip'', ''apex_24.1.zip''] []))"
    by (simp add: insert_commute)
  have a: "find_artifact posix_host (init posix_host ''/w'')
       (Dir ''APEX_files'' [''apex_24.1.zip'', ''apex_23.2.zip''] []) [''apex'']
     = Some ''/w/APEX_files/apex_24.1.zip''"
    by code_simp
  have b: "find_artifact posix_host (init posix_host ''/w'')
       (Dir ''APEX_files'' [''apex_23.2.zip'', ''apex_24.1.zip''] []) [''apex'']
     = Some ''/w/APEX_files/apex_23.2.zip''"
    by code_simp
  from s a b show ?thesis by (intro conjI)
qed

text \<open>
  The paths the locator stores name files: on a POSIX host, when no file name of the
  walk is empty or holds a slash, every matched entry of \<open>scan_required_files\<close> has a
  base name that is not empty. This is what the property of the plan builder asks of
  a match result.
\<close>

lemma find_in_files_Some:
  "find_in_files h nk root fs = Some p \<Longrightarrow> \<exists>f \<in> set fs. p = os_path_join h root f"
  by (induction fs) (auto split: if_splits)

lemma find_in_walk_Some:
  "find_in_walk h nk w = Some p \<Longrightarrow> \<exists>(root, fs) \<in> set w. \<exists>f \<in> set fs. p = os_path_join h root f"
proof (induction w)
  case Nil
  then show ?case by simp
next
  case (Cons a w)
  obtain root fs where a: "a = (root, fs)" by (cases a)
  from Cons show ?case
    by (auto simp: a split: option.splits dest: find_in_files_Some)
qed

lemma posix_basename_join:
  assumes "f \<noteq> []" "CHR ''/'' \<notin> set f"
  shows "posix_basename (posix_join root f) = f"
proof -
  from assms have np: "\<not> prefix ''/'' f" by (cases f) auto
  have tw: "takeWhile (\<lambda>c. c \<noteq> CHR ''/'') (rev f @ xs) = rev f @ takeWhile (\<lambda>c. c \<noteq> CHR ''/'') xs" for xs
    by (rule takeWhile_append2) (use assms(2) in auto)
  have tw0: "takeWhile (\<lambda>c. c \<noteq> CHR ''/'') (rev f) = rev f"
    using tw [of "[]"] by simp
  show ?thesis
  proof (cases "root = []")
    case True
    then show ?thesis using np by (simp add: posix_join_def posix_basename_def tw0)
  next
    case False
    show ?thesis
    proof (cases "endswith root ''/''")
      case True
      with False have "last root = CHR ''/''"
        using last_drop [of "length root - 1" root] by (auto simp: endswith_def)
      with False have "hd (rev root) = CHR ''/''" by (simp add: hd_rev)
      with False have "takeWhile (\<lambda>c. c \<noteq> CHR ''/'') (rev root) = []"
        by (cases "rev root") auto
      with True np show ?thesis by (simp add: posix_join_def posix_basename_def tw)
    next
      case False
      with np \<open>root \<noteq> []\<close> show ?thesis by (simp add: posix_join_def posix_basename_def tw)
    qed
  qed
qed

lemma scan_results_name_files:
  assumes wf: "\<forall>(root, fs) \<in> set (walk posix_host (apex_folder self) tree).
                 \<forall>f \<in> set fs. f \<noteq> [] \<and> CHR ''/'' \<notin> set f"
    and k: "k \<in> {''java'', ''apex'', ''ords''}"
    and t: "truthy (dict_get (scan_required_files posix_host self tree) k)"
  shows "os_path_basename posix_host (str (dict_get (scan_required_files posix_host self tree) k)) \<noteq> []"
proof -
  from k scan_lookup [of posix_host self tree]
  obtain kws where g: "dict_get (scan_required_files posix_host self tree) k
      = optional_str (find_artifact posix_host self tree kws)"
    by auto
  with t obtain p where p: "find_artifact posix_host self tree kws = Some p"
    by (cases "find_artifact posix_host self tree kws") (auto simp: optional_str_def)
  from p obtain root fs f where "(root, fs) \<in> set (walk posix_host (apex_folder self) tree)"
    "f \<in> set fs" "p = os_path_join posix_host root f"
    unfolding find_artifact_def by (auto dest!: find_in_walk_Some)
  with wf have "f \<noteq> []" "CHR ''/'' \<notin> set f" "p = posix_join root f"
    by (auto simp: posix_host_def)
  with posix_basename_join [of f root] have b: "posix_basename p = f" by simp
  have s: "str (dict_get (scan_required_files posix_host self tree) k) = p"
    unfolding g p by (simp add: optional_str_def)
  have "os_path_basename posix_host p = f"
    using b by (simp add: posix_host_def)
  with \<open>f \<noteq> []\<close> show ?thesis
    unfolding s by simp
qed

subsection \<open>The wizard session\<close>

lemma run_steps_interrupt:
  "run_steps h stage index pre ns out ins = Inr (True, ns1, out1, ins1)
   \<Longrightarrow> process_step h step (index + length pre) stage ns1 out1 ins1 = Inr (False, ns2, out2, ins2)
   \<Longrightarrow> run_steps h stage index (pre @ step # post) ns out ins = Inr (False, ns2, out2, ins2)"
proof (induction pre arbitrary: index ns out ins)
  case Nil
  then show ?case by simp
next
  case (Cons a pre)
  from Cons.prems(1) obtain na oa ia where
    a: "process_step h a index stage ns out ins = Inr (True, na, oa, ia)"
    and r: "run_steps h stage (Suc index) pre na oa ia = Inr (True, ns1, out1, ins1)"
    by (auto split: sum.splits if_splits)
  from Cons.IH [OF r] Cons.prems(2) a show ?case by simp
qed

lemma run_sequence_interrupt:
  "run_sequence h pre ns out ins = Inr (False, ns1, out1, ins1)
   \<Longrightarrow> run_stage h stage ns1 out1 ins1 = Inr (False, ns2, out2, ins2)
   \<Longrightarrow> run_sequence h (pre @ stage # post) ns out ins = Inr (True, ns2, out2, ins2)"
proof (induction pre arbitrary: ns out ins)
  case Nil
  then show ?case by simp
next
  case (Cons a pre)
  from Cons.prems(1) obtain na oa ia where
    a: "run_stage h a ns out ins = Inr (True, na, oa, ia)"
    and r: "run_sequence h pre na oa ia = Inr (False, ns1, out1, ins1)"
    by (auto split: sum.splits if_splits)
  from Cons.IH [OF r Cons.prems(2)] a show ?case by simp
qed

lemma ack_loop_cases:
  "ack_loop h stage step ns out (line # ins) = Inr r \<Longrightarrow>
     (str_lower h (str_strip h line) = [] \<and> r = (True, ns, out @ [Prompt ack_prompt], ins))
   \<or> (str_lower h (str_strip h line) = ''q''
       \<and> r = (False, ns, out @ [Prompt ack_prompt,
                Print ''Wizard interrupted. Resume later from the remaining steps.''], ins))
   \<or> (str_lower h (str_strip h line) = ''n''
       \<and> (\<exists>line2 ins2. ins = line2 # ins2 \<and> str_strip h line2 \<noteq> []
            \<and> ack_loop h stage step
                  (ns @ [title stage @ '' / '' @ step_title step @ '': '' @ str_strip h line2])
                  (out @ [Prompt ack_prompt, Prompt note_prompt,
                          Noted (title stage @ '' / '' @ step_title step @ '': '' @ str_strip h line2)])
                  ins2 = Inr r))
   \<or> (str_lower h (str_strip h line) = ''n''
       \<and> (\<exists>line2 ins2. ins = line2 # ins2 \<and> str_strip h line2 = []
            \<and> ack_loop h stage step ns (out @ [Prompt ack_prompt, Prompt note_prompt]) ins2 = Inr r))
   \<or> (str_lower h (str_strip h line) \<noteq> [] \<and> str_lower h (str_strip h line) \<noteq> ''n''
       \<and> str_lower h (str_strip h line) \<noteq> ''q''
       \<and> ack_loop h stage step ns (out @ [Prompt ack_prompt, Print ''Unknown option. Please try again.'']) ins = Inr r)"
  by (simp add: Let_def split: if_splits list.splits; blast)

lemma ack_loop_result_induct [consumes 1, case_names empty quit noted blank unknown]:
  assumes run: "ack_loop h stage step ns out ins = Inr r"
    and empty: "\<And>ns out line ins. str_lower h (str_strip h line) = []
        \<Longrightarrow> P ns out (line # ins) (True, ns, out @ [Prompt ack_prompt], ins)"
    and quit: "\<And>ns out line ins. str_lower h (str_strip h line) = ''q''
        \<Longrightarrow> P ns out (line # ins)
              (False, ns, out @ [Prompt ack_prompt,
                 Print ''Wizard interrupted. Resume later from the remaining steps.''], ins)"
    and noted: "\<And>ns out line line2 ins r. str_lower h (str_strip h line) = ''n''
        \<Longrightarrow> str_strip h line2 \<noteq> []
        \<Longrightarrow> P (ns @ [title stage @ '' / '' @ step_title step @ '': '' @ str_strip h line2])
              (out @ [Prompt ack_prompt, Prompt note_prompt,
                      Noted (title stage @ '' / '' @ step_title step @ '': '' @ str_strip h line2)]) ins r
        \<Longrightarrow> P ns out (line # line2 # ins) r"
    and blank: "\<And>ns out line line2 ins r. str_lower h (str_strip h line) = ''n''
        \<Longrightarrow> str_strip h line2 = []
        \<Longrightarrow> P ns (out @ [Prompt ack_prompt, Prompt note_prompt]) ins r
        \<Longrightarrow> P ns out (line # line2 # ins) r"
    and unknown: "\<And>ns out line ins r.
        str_lower h (str_strip h line) \<noteq> [] \<Longrightarrow> str_lower h (str_strip h line) \<noteq> ''n''
        \<Longrightarrow> str_lower h (str_strip h line) \<noteq> ''q''
        \<Longrightarrow> P ns (out @ [Prompt ack_prompt, Print ''Unknown option. Please try again.'']) ins r
        \<Longrightarrow> P ns out (line # ins) r"
  shows "P ns out ins r"
  using run
proof (induction ins arbitrary: ns out rule: length_induct)
  case (1 ins)
  show ?case
  proof (cases ins)
    case Nil
    with "1.prems" show ?thesis by simp
  next
    case (Cons line rest)
    have IH: "P ns2 out2 ys r" if "length ys < length ins" "ack_loop h stage step ns2 out2 ys = Inr r"
      for ys ns2 out2
      using "1.IH" that by blast
    from "1.prems" Cons have c: "ack_loop h stage step ns out (line # rest) = Inr r" by simp
    from ack_loop_cases [OF c] show ?thesis
    proof (elim disjE conjE exE)
      assume "str_lower h (str_strip h line) = []" "r = (True, ns, out @ [Prompt ack_prompt], rest)"
      then show ?thesis using empty Cons by simp
    next
      assume "str_lower h (str_strip h line) = ''q''"
        "r = (False, ns, out @ [Prompt ack_prompt,
              Print ''Wizard interrupted. Resume later from the remaining steps.''], rest)"
      then show ?thesis using quit Cons by simp
    next
      fix line2 ins2
      assume n: "str_lower h (str_strip h line) = ''n''" and rest: "rest = line2 # ins2"
        and t: "str_strip h line2 \<noteq> []"
        and a: "ack_loop h stage step
                  (ns @ [title stage @ '' / '' @ step_title step @ '': '' @ str_strip h line2])
                  (out @ [Prompt ack_prompt, Prompt note_prompt,
                          Noted (title stage @ '' / '' @ step_title step @ '': '' @ str_strip h line2)])
                  ins2 = Inr r"
      have "length ins2 < length ins" using Cons rest by simp
      from noted [OF n t IH [OF this a]] show ?thesis using Cons rest by simp
    next
      fix line2 ins2
      assume n: "str_lower h (str_strip h line) = ''n''" and rest: "rest = line2 # ins2"
        and t: "str_strip h line2 = []"
        and a: "ack_loop h stage step ns (out @ [Prompt ack_prompt, Prompt note_prompt]) ins2 = Inr r"
      have "length ins2 < length ins" using Cons rest by simp
      from blank [OF n t IH [OF this a]] show ?thesis using Cons rest by simp
    next
      assume u: "str_lower h (str_strip h line) \<noteq> []" "str_lower h (str_strip h line) \<noteq> ''n''"
          "str_lower h (str_strip h line) \<noteq> ''q''"
        and a: "ack_loop h stage step ns (out @ [Prompt ack_prompt, Print ''Unknown option. Please try again.'']) rest = Inr r"
      have "length rest < length ins" using Cons by simp
      from unknown [OF u IH [OF this a]] show ?thesis using Cons by simp
    qed
  qed
qed

lemma ack_loop_False_last:
  "ack_loop h stage step ns out ins = Inr r \<Longrightarrow> \<not> fst r
   \<Longrightarrow> \<exists>before. fst (snd (snd r)) = before @ [Print ''Wizard interrupted. Resume later from the remaining steps.'']"
  by (induction rule: ack_loop_result_induct) simp_all

lemma process_step_False_last:
  assumes "process_step h step index stage ns out ins = Inr (False, ns', out', ins')"
  shows "\<exists>before. out' = before @ [Print ''Wizard interrupted. Resume later from the remaining steps.'']"
proof -
  from assms obtain o1 i1 where "ack_loop h stage step ns o1 i1 = Inr (False, ns', out', ins')"
    unfolding process_step_def Let_def by (auto split: if_splits sum.splits)
  from ack_loop_False_last [OF this] show ?thesis by simp
qed

lemma ack_loop_quit:
  "str_lower h (str_strip h line) = ''q''
   \<Longrightarrow> ack_loop h stage step ns out (line # ins) =
       Inr (False, ns, out @ [Prompt ack_prompt, Print ''Wizard interrupted. Resume later from the remaining steps.''], ins)"
  by simp

lemma choosing_interrupted:
  "str_lower h (str_strip h line) \<noteq> [] \<Longrightarrow> select_sequence h stages (str_lower h (str_strip h line)) = Some sequence
   \<Longrightarrow> run_sequence h sequence ns (out @ menu stages @ [Prompt select_prompt]) ins = Inr (True, ns2, out2, ins2)
   \<Longrightarrow> choosing h stages ns out (line # ins) = Inr (ns2, out2, ins2)"
  by (simp add: Let_def)


text \<open>
  C2. An interruption ends the stage, the batch and the session. When the operator
  answers \<open>q\<close> in the acknowledgement, \<open>_process_step\<close> returns \<open>False\<close> and the last
  thing printed is the notice of the interruption. If the steps before step \<open>k\<close> of a
  stage were completed and step \<open>k\<close> returns \<open>False\<close>, the stage loop returns
  \<open>False\<close> in the state step \<open>k\<close> left: whatever steps follow, none of them prints or
  reads anything. In the same way the loop over the chosen stages stops at the first
  stage that returns \<open>False\<close>, in the state that stage left, whatever stages follow
  in the batch (for the choice \<open>all\<close> the batch is the whole plan); the outer loop then
  returns without another round, and the wizard prints the notes and the closing line.
\<close>

theorem interruption_ends_session:
  "(str_lower h (str_strip h line) = ''q''
    \<longrightarrow> ack_loop h stage step ns out (line # ins) =
        Inr (False, ns, out @ [Prompt ack_prompt, Print ''Wizard interrupted. Resume later from the remaining steps.''], ins))
   \<and> (process_step h step index stage ns out ins = Inr (False, ns2, out2, ins2)
      \<longrightarrow> (\<exists>before. out2 = before @ [Print ''Wizard interrupted. Resume later from the remaining steps.'']))
   \<and> (run_steps h stage index pre ns out ins = Inr (True, ns1, out1, ins1)
      \<and> process_step h step (index + length pre) stage ns1 out1 ins1 = Inr (False, ns2, out2, ins2)
      \<longrightarrow> run_steps h stage index (pre @ step # post) ns out ins = Inr (False, ns2, out2, ins2))
   \<and> (run_sequence h before ns out ins = Inr (False, ns1, out1, ins1)
      \<and> run_stage h stage ns1 out1 ins1 = Inr (False, ns2, out2, ins2)
      \<longrightarrow> run_sequence h (before @ stage # after) ns out ins = Inr (True, ns2, out2, ins2))
   \<and> (str_lower h (str_strip h line) \<noteq> [] \<and> select_sequence h stages (str_lower h (str_strip h line)) = Some sequence
      \<and> run_sequence h sequence ns (out @ menu stages @ [Prompt select_prompt]) ins = Inr (True, ns2, out2, ins2)
      \<longrightarrow> choosing h stages ns out (line # ins) = Inr (ns2, out2, ins2))
   \<and> (build_guided_stages h self project matches \<noteq> []
      \<longrightarrow> run_installation_wizard h self project matches ins0 =
          (case choosing h (build_guided_stages h self project matches) []
                  [Print (CHR 0x0A # ''--- Guided APEX Installation Wizard ---''),
                   Print ''Pick the stage you need. You can run them individually or execute all of them in sequence.'']
                  ins0 of
             Inl e \<Rightarrow> Inl e
           | Inr (collected_notes, out', ins') \<Rightarrow>
               Inr (out' @ flush_notes collected_notes
                    @ [Print (CHR 0x0A # ''Wizard closed. Re-run it if you need to revisit any stage.'')], ins')))"
proof -
  have a: "str_lower h (str_strip h line) = ''q''
    \<longrightarrow> ack_loop h stage step ns out (line # ins) =
        Inr (False, ns, out @ [Prompt ack_prompt, Print ''Wizard interrupted. Resume later from the remaining steps.''], ins)"
    using ack_loop_quit by blast
  have b: "process_step h step index stage ns out ins = Inr (False, ns2, out2, ins2)
      \<longrightarrow> (\<exists>before. out2 = before @ [Print ''Wizard interrupted. Resume later from the remaining steps.''])"
    using process_step_False_last by blast
  have c: "run_steps h stage index pre ns out ins = Inr (True, ns1, out1, ins1)
      \<and> process_step h step (index + length pre) stage ns1 out1 ins1 = Inr (False, ns2, out2, ins2)
      \<longrightarrow> run_steps h stage index (pre @ step # post) ns out ins = Inr (False, ns2, out2, ins2)"
    using run_steps_interrupt by blast
  have d: "run_sequence h before ns out ins = Inr (False, ns1, out1, ins1)
      \<and> run_stage h stage ns1 out1 ins1 = Inr (False, ns2, out2, ins2)
      \<longrightarrow> run_sequence h (before @ stage # after) ns out ins = Inr (True, ns2, out2, ins2)"
    using run_sequence_interrupt by blast
  have e: "str_lower h (str_strip h line) \<noteq> [] \<and> select_sequence h stages (str_lower h (str_strip h line)) = Some sequence
      \<and> run_sequence h sequence ns (out @ menu stages @ [Prompt select_prompt]) ins = Inr (True, ns2, out2, ins2)
      \<longrightarrow> choosing h stages ns out (line # ins) = Inr (ns2, out2, ins2)"
    using choosing_interrupted by blast
  have f: "build_guided_stages h self project matches \<noteq> []
      \<longrightarrow> run_installation_wizard h self project matches ins0 =
          (case choosing h (build_guided_stages h self project matches) []
                  [Print (CHR 0x0A # ''--- Guided APEX Installation Wizard ---''),
                   Print ''Pick the stage you need. You can run them individually or execute all of them in sequence.'']
                  ins0 of
             Inl e \<Rightarrow> Inl e
           | Inr (collected_notes, out', ins') \<Rightarrow>
               Inr (out' @ flush_notes collected_notes
                    @ [Print (CHR 0x0A # ''Wizard closed. Re-run it if you need to revisit any stage.'')], ins'))"
    by (simp add: run_installation_wizard_def Let_def del: choosing.simps)
  from a b c d e f show ?thesis by (intro conjI)
qed

theorem interruption_ends_session_witness:
  "ack_loop posix_host \<lparr>key = ''k'', title = ''T'', description = ''D'', steps = []\<rparr>
     \<lparr>step_title = ''S'', step_description = ''d'', step_context = ''c'', commands = []\<rparr>
     [] [] ['' Q'', ''x'']
   = Inr (False, [], [Prompt ack_prompt, Print ''Wizard interrupted. Resume later from the remaining steps.''], [''x''])
   \<and> run_steps posix_host \<lparr>key = ''k'', title = ''T'', description = ''D'', steps = []\<rparr> 1
       [\<lparr>step_title = ''S'', step_description = ''d'', step_context = ''c'', commands = []\<rparr>,
        \<lparr>step_title = ''S'', step_description = ''d'', step_context = ''c'', commands = []\<rparr>,
        \<lparr>step_title = ''U'', step_description = ''never shown'', step_context = ''c'', commands = []\<rparr>]
       [] [] ['''', ''q'', ''x'']
     = Inr (False, [],
            [Print (CHR 0x0A # ''[K 01] S '' @ em_dash @ '' c''), Print ''d'', Prompt ack_prompt,
             Print (CHR 0x0A # ''[K 02] S '' @ em_dash @ '' c''), Print ''d'', Prompt ack_prompt,
             Print ''Wizard interrupted. Resume later from the remaining steps.''],
            [''x''])
   \<and> run_sequence posix_host
       [\<lparr>key = ''k'', title = ''T'', description = ''D'',
         steps = [\<lparr>step_title = ''S'', step_description = ''d'', step_context = ''c'', commands = []\<rparr>]\<rparr>,
        \<lparr>key = ''l'', title = ''V'', description = ''never shown'', steps = []\<rparr>]
       [] [] [''q'', ''x'']
     = Inr (True, [],
            [Print (CHR 0x0A # ''=== T ===''), Print ''D'',
             Print (CHR 0x0A # ''[K 01] S '' @ em_dash @ '' c''), Print ''d'', Prompt ack_prompt,
             Print ''Wizard interrupted. Resume later from the remaining steps.''],
            [''x''])
   \<and> choosing posix_host
       [\<lparr>key = ''k'', title = ''T'', description = ''D'',
         steps = [\<lparr>step_title = ''S'', step_description = ''d'', step_context = ''c'', commands = []\<rparr>]\<rparr>,
        \<lparr>key = ''l'', title = ''V'', description = ''never shown'', steps = []\<rparr>]
       [] [] [''all'', ''q'', ''x'']
     = Inr ([],
            menu [\<lparr>key = ''k'', title = ''T'', description = ''D'',
                   steps = [\<lparr>step_title = ''S'', step_description = ''d'', step_context = ''c'', commands = []\<rparr>]\<rparr>,
                  \<lparr>key = ''l'', title = ''V'', description = ''never shown'', steps = []\<rparr>]
            @ [Prompt select_prompt,
               Print (CHR 0x0A # ''=== T ===''), Print ''D'',
               Print (CHR 0x0A # ''[K 01] S '' @ em_dash @ '' c''), Print ''d'', Prompt ack_prompt,
               Print ''Wizard interrupted. Resume later from the remaining steps.''],
            [''x''])
   \<and> run_installation_wizard posix_host (init posix_host ''/w'') [''container_id'' \<mapsto> PyStr ''c1'']
        Map.empty [''all'', [], [], [], ''q'', ''x'']
     = Inr ([Print (CHR 0x0A # ''--- Guided APEX Installation Wizard ---''),
             Print ''Pick the stage you need. You can run them individually or execute all of them in sequence.'']
            @ menu (build_guided_stages posix_host (init posix_host ''/w'') [''container_id'' \<mapsto> PyStr ''c1''] Map.empty)
            @ [Prompt select_prompt,
               Print (CHR 0x0A # ''=== Stage 0 '' @ en_dash @ '' Files and Extraction ===''),
               Print ''Move the installer archives into the container and unpack them.'',
               Print (CHR 0x0A # ''[PREP 01] Verify Docker runtime '' @ em_dash @ '' Host shell''),
               Print ''Make sure Docker Desktop is running and can reach the local daemon. Install the gvenzl/oracle-xe image beforehand.'',
               Print ''Suggested commands:'',
               Print ''  (1) docker info'',
               Prompt copy_prompt, Prompt ack_prompt,
               Print (CHR 0x0A # ''[PREP 02] Start Oracle container '' @ em_dash @ '' Host shell''),
               Print ''Start the container assigned to this project (c1) and wait for the database to open. Follow the logs until you see Database ready messages, then exit with CTRL+C.'',
               Print ''Suggested commands:'',
               Print ''  (1) docker start c1'',
               Print ''  (2) docker logs -f c1'',
               Prompt copy_prompt, Prompt ack_prompt,
               Print ''Wizard interrupted. Resume later from the remaining steps.'',
               Print (CHR 0x0A # ''Wizard closed. Re-run it if you need to revisit any stage.'')],
            [''x''])"
proof -
  let ?s = "\<lparr>step_title = ''S'', step_description = ''d'', step_context = ''c'', commands = []\<rparr>"
  let ?u = "\<lparr>step_title = ''U'', step_description = ''never shown'', step_context = ''c'', commands = []\<rparr>"
  let ?bare = "\<lparr>key = ''k'', title = ''T'', description = ''D'', steps = []\<rparr>"
  let ?st = "\<lparr>key = ''k'', title = ''T'', description = ''D'', steps = [?s]\<rparr>"
  let ?v = "\<lparr>key = ''l'', title = ''V'', description = ''never shown'', steps = []\<rparr>"
  let ?msg = "Print ''Wizard interrupted. Resume later from the remaining steps.''"
  let ?o1 = "[Print (CHR 0x0A # ''[K 01] S '' @ em_dash @ '' c''), Print ''d'', Prompt ack_prompt]"
  let ?o2 = "[Print (CHR 0x0A # ''[K 01] S '' @ em_dash @ '' c''), Print ''d'', Prompt ack_prompt,
             Print (CHR 0x0A # ''[K 02] S '' @ em_dash @ '' c''), Print ''d'', Prompt ack_prompt, ?msg]"
  let ?o3 = "[Print (CHR 0x0A # ''=== T ===''), Print ''D'',
             Print (CHR 0x0A # ''[K 01] S '' @ em_dash @ '' c''), Print ''d'', Prompt ack_prompt, ?msg]"
  let ?o4 = "menu [?st, ?v] @ [Prompt select_prompt,
               Print (CHR 0x0A # ''=== T ===''), Print ''D'',
               Print (CHR 0x0A # ''[K 01] S '' @ em_dash @ '' c''), Print ''d'', Prompt ack_prompt, ?msg]"
  let ?p = "[''container_id'' \<mapsto> PyStr ''c1'']"
  let ?self = "init posix_host ''/w''"
  note T = interruption_ends_session
  have q: "str_lower posix_host (str_strip posix_host '' Q'') = ''q''" by code_simp
  have a: "ack_loop posix_host ?bare ?s [] [] ['' Q'', ''x''] = Inr (False, [], [] @ [Prompt ack_prompt, ?msg], [''x''])"
    using T [where h = posix_host and line = "'' Q''" and stage = ?bare and step = ?s and ns = "[]" and out = "[]" and ins = "[''x'']",
        THEN conjunct1] q by blast
  have c1: "run_steps posix_host ?bare 1 [?s] [] [] ['''', ''q'', ''x''] = Inr (True, [], ?o1, [''q'', ''x''])"
    by code_simp
  have c2: "process_step posix_host ?s (1 + length [?s]) ?bare [] ?o1 [''q'', ''x''] = Inr (False, [], ?o2, [''x''])"
    by code_simp
  have c: "run_steps posix_host ?bare 1 ([?s] @ ?s # [?u]) [] [] ['''', ''q'', ''x''] = Inr (False, [], ?o2, [''x''])"
    using T [where h = posix_host and stage = ?bare and index = 1 and pre = "[?s]" and step = ?s and post = "[?u]"
          and ns = "[]" and out = "[]" and ins = "['''', ''q'', ''x'']" and ?ns1.0 = "[]" and ?out1.0 = ?o1
          and ?ins1.0 = "[''q'', ''x'']" and ?ns2.0 = "[]" and ?out2.0 = ?o2 and ?ins2.0 = "[''x'']",
        THEN conjunct2, THEN conjunct2, THEN conjunct1] c1 c2 by blast
  have b: "\<exists>before'. ?o2 = before' @ [?msg]"
    using T [where h = posix_host and step = ?s and index = "1 + length [?s]" and stage = ?bare
          and ns = "[]" and out = ?o1 and ins = "[''q'', ''x'']"
          and ?ns2.0 = "[]" and ?out2.0 = ?o2 and ?ins2.0 = "[''x'']",
        THEN conjunct2, THEN conjunct1, THEN mp, OF c2] .
  have d1: "run_sequence posix_host [] [] [] [''q'', ''x''] = Inr (False, [], [], [''q'', ''x''])"
    by simp
  have d2: "run_stage posix_host ?st [] [] [''q'', ''x''] = Inr (False, [], ?o3, [''x''])"
    by code_simp
  have d: "run_sequence posix_host ([] @ ?st # [?v]) [] [] [''q'', ''x''] = Inr (True, [], ?o3, [''x''])"
    using T [where h = posix_host and before = "[]" and stage = ?st and after = "[?v]"
          and ns = "[]" and out = "[]" and ins = "[''q'', ''x'']" and ?ns1.0 = "[]" and ?out1.0 = "[]"
          and ?ins1.0 = "[''q'', ''x'']" and ?ns2.0 = "[]" and ?out2.0 = ?o3 and ?ins2.0 = "[''x'']",
        THEN conjunct2, THEN conjunct2, THEN conjunct2, THEN conjunct1] d1 d2 by blast
  have e1: "str_lower posix_host (str_strip posix_host ''all'') \<noteq> []" by code_simp
  have e2: "select_sequence posix_host [?st, ?v] (str_lower posix_host (str_strip posix_host ''all'')) = Some [?st, ?v]" by code_simp
  have e3: "run_sequence posix_host [?st, ?v] [] ([] @ menu [?st, ?v] @ [Prompt select_prompt]) [''q'', ''x'']
      = Inr (True, [], ?o4, [''x''])"
    by code_simp
  have e: "choosing posix_host [?st, ?v] [] [] [''all'', ''q'', ''x''] = Inr ([], ?o4, [''x''])"
    using T [where h = posix_host and stages = "[?st, ?v]" and line = "''all''" and sequence = "[?st, ?v]"
          and ns = "[]" and out = "[]" and ins = "[''q'', ''x'']" and ?ns2.0 = "[]" and ?out2.0 = ?o4
          and ?ins2.0 = "[''x'']",
        THEN conjunct2, THEN conjunct2, THEN conjunct2, THEN conjunct2, THEN conjunct1] e1 e2 e3 by blast
  have f1: "build_guided_stages posix_host ?self ?p Map.empty \<noteq> []"
    by code_simp
  have f2: "(case choosing posix_host (build_guided_stages posix_host ?self ?p Map.empty) []
                  [Print (CHR 0x0A # ''--- Guided APEX Installation Wizard ---''),
                   Print ''Pick the stage you need. You can run them individually or execute all of them in sequence.'']
                  [''all'', [], [], [], ''q'', ''x''] of
             Inl e \<Rightarrow> Inl e
           | Inr (collected_notes, out', ins') \<Rightarrow>
               Inr (out' @ flush_notes collected_notes
                    @ [Print (CHR 0x0A # ''Wizard closed. Re-run it if you need to revisit any stage.'')], ins'))
     = Inr ([Print (CHR 0x0A # ''--- Guided APEX Installation Wizard ---''),
             Print ''Pick the stage you need. You can run them individually or execute all of them in sequence.'']
            @ menu (build_guided_stages posix_host ?self ?p Map.empty)
            @ [Prompt select_prompt,
               Print (CHR 0x0A # ''=== Stage 0 '' @ en_dash @ '' Files and Extraction ===''),
               Print ''Move the installer archives into the container and unpack them.'',
               Print (CHR 0x0A # ''[PREP 01] Verify Docker runtime '' @ em_dash @ '' Host shell''),
               Print ''Make sure Docker Desktop is running and can reach the local daemon. Install the gvenzl/oracle-xe image beforehand.'',
               Print ''Suggested commands:'',
               Print ''  (1) docker info'',
               Prompt copy_prompt, Prompt ack_prompt,
               Print (CHR 0x0A # ''[PREP 02] Start Oracle container '' @ em_dash @ '' Host shell''),
               Print ''Start the container assigned to this project (c1) and wait for the database to open. Follow the logs until you see Database ready messages, then exit with CTRL+C.'',
               Print ''Suggested commands:'',
               Print ''  (1) docker start c1'',
               Print ''  (2) docker logs -f c1'',
               Prompt copy_prompt, Prompt ack_prompt,
               Print ''Wizard interrupted. Resume later from the remaining steps.'',
               Print (CHR 0x0A # ''Wizard closed. Re-run it if you need to revisit any stage.'')],
            [''x''])"
    by code_simp
  note f3 = T [where h = posix_host and self = ?self and project = ?p and matches = Map.empty
          and ?ins0.0 = "[''all'', [], [], [], ''q'', ''x'']",
        THEN conjunct2, THEN conjunct2, THEN conjunct2, THEN conjunct2, THEN conjunct2, THEN mp, OF f1]
  have f: "run_installation_wizard posix_host ?self ?p Map.empty [''all'', [], [], [], ''q'', ''x'']
     = Inr ([Print (CHR 0x0A # ''--- Guided APEX Installation Wizard ---''),
             Print ''Pick the stage you need. You can run them individually or execute all of them in sequence.'']
            @ menu (build_guided_stages posix_host ?self ?p Map.empty)
            @ [Prompt select_prompt,
               Print (CHR 0x0A # ''=== Stage 0 '' @ en_dash @ '' Files and Extraction ===''),
               Print ''Move the installer archives into the container and unpack them.'',
               Print (CHR 0x0A # ''[PREP 01] Verify Docker runtime '' @ em_dash @ '' Host shell''),
               Print ''Make sure Docker Desktop is running and can reach the local daemon. Install the gvenzl/oracle-xe image beforehand.'',
               Print ''Suggested commands:'',
               Print ''  (1) docker info'',
               Prompt copy_prompt, Prompt ack_prompt,
               Print (CHR 0x0A # ''[PREP 02] Start Oracle container '' @ em_dash @ '' Host shell''),
               Print ''Start the container assigned to this project (c1) and wait for the database to open. Follow the logs until you see Database ready messages, then exit with CTRL+C.'',
               Print ''Suggested commands:'',
               Print ''  (1) docker start c1'',
               Print ''  (2) docker logs -f c1'',
               Prompt copy_prompt, Prompt ack_prompt,
               Print ''Wizard interrupted. Resume later from the remaining steps.'',
               Print (CHR 0x0A # ''Wizard closed. Re-run it if you need to revisit any stage.'')],
            [''x''])"
    by (rule trans [OF f3 f2])
  from a b c d e f show ?thesis by (simp only: append.simps simp_thms)
qed
lemma appended_append: "appended (xs @ ys) = appended xs @ appended ys"
  by (simp add: appended_def)

lemma appended_simps:
  "appended [] = []"
  "appended (Print l # xs) = appended xs"
  "appended (Prompt l # xs) = appended xs"
  "appended (Noted entry # xs) = entry # appended xs"
  by (simp_all add: appended_def)

lemma appended_prints: "appended (map (\<lambda>x. Print (g x)) xs) = []"
  by (induction xs) (simp_all add: appended_simps)

lemma trace_trans:
  assumes "\<exists>new. o1 = out @ new \<and> n1 = ns @ appended new"
    and "\<exists>new. o2 = o1 @ new \<and> n2 = n1 @ appended new"
  shows "\<exists>new. o2 = out @ new \<and> n2 = ns @ appended new"
proof -
  from assms obtain a b where "o1 = out @ a" "n1 = ns @ appended a" "o2 = o1 @ b" "n2 = n1 @ appended b"
    by blast
  then have "o2 = out @ (a @ b) \<and> n2 = ns @ appended (a @ b)"
    by (simp add: appended_append)
  then show ?thesis by blast
qed

lemma trace_drop:
  assumes "\<exists>new. o1 = out @ new \<and> n1 = ns @ appended new"
  shows "prefix out o1 \<and> n1 = ns @ appended (drop (length out) o1)"
  using assms by auto

lemma copy_loop_trace:
  "copy_loop h cmds out ins = Inr (out', ins') \<Longrightarrow> \<exists>new. out' = out @ new \<and> appended new = []"
proof (induction ins arbitrary: out)
  case Nil
  then show ?case by simp
next
  case (Cons line ins)
  from Cons.prems have "out' = out @ [Prompt copy_prompt]
      \<or> (\<exists>p. copy_loop h cmds (out @ [Prompt copy_prompt, Print p]) ins = Inr (out', ins'))"
    by (simp add: Let_def split: if_splits option.splits; blast)
  then show ?case
  proof
    assume "out' = out @ [Prompt copy_prompt]"
    then have "out' = out @ [Prompt copy_prompt] \<and> appended [Prompt copy_prompt] = []"
      by (simp add: appended_simps)
    then show ?thesis by blast
  next
    assume "\<exists>p. copy_loop h cmds (out @ [Prompt copy_prompt, Print p]) ins = Inr (out', ins')"
    then obtain p where "copy_loop h cmds (out @ [Prompt copy_prompt, Print p]) ins = Inr (out', ins')"
      by blast
    from Cons.IH [OF this] obtain new where
      "out' = (out @ [Prompt copy_prompt, Print p]) @ new" "appended new = []"
      by blast
    then have "out' = out @ ([Prompt copy_prompt, Print p] @ new)
        \<and> appended ([Prompt copy_prompt, Print p] @ new) = []"
      by (simp add: appended_simps)
    then show ?thesis by blast
  qed
qed

lemma ack_loop_trace:
  "ack_loop h stage step ns out ins = Inr r
   \<Longrightarrow> \<exists>new. fst (snd (snd r)) = out @ new \<and> fst (snd r) = ns @ appended new"
proof (induction rule: ack_loop_result_induct)
  case (empty ns out line ins)
  show ?case by (simp add: appended_simps)
next
  case (quit ns out line ins)
  show ?case by (simp add: appended_simps)
next
  case (noted ns out line line2 ins r)
  let ?entry = "title stage @ '' / '' @ step_title step @ '': '' @ str_strip h line2"
  have "\<exists>new. out @ [Prompt ack_prompt, Prompt note_prompt, Noted ?entry] = out @ new
      \<and> ns @ [?entry] = ns @ appended new"
    by (simp add: appended_simps)
  from trace_trans [OF this noted(3)] show ?case .
next
  case (blank ns out line line2 ins r)
  have "\<exists>new. out @ [Prompt ack_prompt, Prompt note_prompt] = out @ new \<and> ns = ns @ appended new"
    by (simp add: appended_simps)
  from trace_trans [OF this blank(3)] show ?case .
next
  case (unknown ns out line ins r)
  have "\<exists>new. out @ [Prompt ack_prompt, Print ''Unknown option. Please try again.''] = out @ new
      \<and> ns = ns @ appended new"
    by (simp add: appended_simps)
  from trace_trans [OF this unknown(4)] show ?case .
qed

lemma process_step_trace:
  assumes "process_step h step index stage ns out ins = Inr (f, ns', out', ins')"
  shows "\<exists>new. out' = out @ new \<and> ns' = ns @ appended new"
proof -
  let ?shown = "[Print (CHR 0x0A # ''['' @ str_upper h (key stage) @ '' '' @ format_02d index @ ''] ''
                               @ step_title step @ '' '' @ em_dash @ '' '' @ step_context step),
                        Print (step_description step)]"
  let ?offered = "[Print ''Suggested commands:'']
           @ map (\<lambda>(cmd_index, command). Print (''  ('' @ str_nat cmd_index @ '') '' @ command))
               (enumerate 1 (commands step))"
  have offered: "appended ?offered = []"
    using appended_prints [of "\<lambda>(cmd_index, command). ''  ('' @ str_nat cmd_index @ '') '' @ command"
        "enumerate 1 (commands step)"]
    by (simp add: appended_simps appended_append case_prod_unfold)
  show ?thesis
  proof (cases "commands step = []")
    case True
    with assms have a: "ack_loop h stage step ns (out @ ?shown) ins = Inr (f, ns', out', ins')"
      by (simp add: process_step_def Let_def)
    have s: "\<exists>new. out @ ?shown = out @ new \<and> ns = ns @ appended new"
      by (simp add: appended_simps)
    from trace_trans [OF s ack_loop_trace [OF a]] show ?thesis by simp
  next
    case False
    with assms obtain o2 i2 where
      c: "copy_loop h (commands step) (out @ ?shown @ ?offered) ins = Inr (o2, i2)"
      and a: "ack_loop h stage step ns o2 i2 = Inr (f, ns', out', ins')"
      by (auto simp: process_step_def Let_def split: sum.splits)
    from copy_loop_trace [OF c] obtain new where n: "o2 = (out @ ?shown @ ?offered) @ new" "appended new = []"
      by blast
    have "o2 = out @ (?shown @ ?offered @ new) \<and> ns = ns @ appended (?shown @ ?offered @ new)"
      using n offered by (simp add: appended_simps appended_append)
    then have s: "\<exists>new. o2 = out @ new \<and> ns = ns @ appended new"
      by blast
    from trace_trans [OF s ack_loop_trace [OF a]] show ?thesis by simp
  qed
qed

lemma run_steps_trace:
  "run_steps h stage index xs ns out ins = Inr (f, ns', out', ins')
   \<Longrightarrow> \<exists>new. out' = out @ new \<and> ns' = ns @ appended new"
proof (induction xs arbitrary: index ns out ins)
  case Nil
  then show ?case by (simp add: appended_simps)
next
  case (Cons x xs)
  from Cons.prems obtain g n1 o1 i1 where
    p: "process_step h x index stage ns out ins = Inr (g, n1, o1, i1)"
    and r: "(ns' = n1 \<and> out' = o1) \<or> run_steps h stage (Suc index) xs n1 o1 i1 = Inr (f, ns', out', ins')"
    by (auto split: sum.splits if_splits)
  from r show ?case
  proof
    assume "ns' = n1 \<and> out' = o1"
    with process_step_trace [OF p] show ?thesis by simp
  next
    assume "run_steps h stage (Suc index) xs n1 o1 i1 = Inr (f, ns', out', ins')"
    from trace_trans [OF process_step_trace [OF p] Cons.IH [OF this]] show ?thesis .
  qed
qed

lemma run_stage_trace:
  assumes "run_stage h stage ns out ins = Inr (f, ns', out', ins')"
  shows "\<exists>new. out' = out @ new \<and> ns' = ns @ appended new"
proof -
  have s: "\<exists>new. out @ [Print (CHR 0x0A # ''=== '' @ title stage @ '' ===''), Print (description stage)] = out @ new
      \<and> ns = ns @ appended new"
    by (simp add: appended_simps)
  from trace_trans [OF s run_steps_trace [OF assms [unfolded run_stage_def]]] show ?thesis .
qed

lemma run_sequence_trace:
  "run_sequence h xs ns out ins = Inr (f, ns', out', ins')
   \<Longrightarrow> \<exists>new. out' = out @ new \<and> ns' = ns @ appended new"
proof (induction xs arbitrary: ns out ins)
  case Nil
  then show ?case by (simp add: appended_simps)
next
  case (Cons x xs)
  from Cons.prems obtain g n1 o1 i1 where
    p: "run_stage h x ns out ins = Inr (g, n1, o1, i1)"
    and r: "(ns' = n1 \<and> out' = o1) \<or> run_sequence h xs n1 o1 i1 = Inr (f, ns', out', ins')"
    by (auto split: sum.splits if_splits)
  from r show ?case
  proof
    assume "ns' = n1 \<and> out' = o1"
    with run_stage_trace [OF p] show ?thesis by simp
  next
    assume "run_sequence h xs n1 o1 i1 = Inr (f, ns', out', ins')"
    from trace_trans [OF run_stage_trace [OF p] Cons.IH [OF this]] show ?thesis .
  qed
qed

lemma choosing_cases:
  "choosing h stages ns out (line # ins) = Inr r \<Longrightarrow>
     (str_lower h (str_strip h line) = [] \<and> r = (ns, out @ menu stages @ [Prompt select_prompt], ins))
   \<or> (str_lower h (str_strip h line) \<noteq> [] \<and> select_sequence h stages (str_lower h (str_strip h line)) = None
       \<and> choosing h stages ns (out @ menu stages @ [Prompt select_prompt, Print ''Unknown option. Try again.'']) ins = Inr r)
   \<or> (str_lower h (str_strip h line) \<noteq> []
       \<and> (\<exists>sequence. select_sequence h stages (str_lower h (str_strip h line)) = Some sequence
            \<and> run_sequence h sequence ns (out @ menu stages @ [Prompt select_prompt]) ins = Inr (True, r)))
   \<or> (str_lower h (str_strip h line) \<noteq> []
       \<and> (\<exists>sequence ns1 out1 ins1. select_sequence h stages (str_lower h (str_strip h line)) = Some sequence
            \<and> run_sequence h sequence ns (out @ menu stages @ [Prompt select_prompt]) ins = Inr (False, ns1, out1, ins1)
            \<and> choosing h stages ns1 out1 ins1 = Inr r))"
  by (simp add: Let_def split: if_splits option.splits sum.splits prod.splits del: choosing.simps
      add: choosing.simps(2) [of h stages ns out line ins])

lemma choosing_result_induct [consumes 1, case_names leave unknown interrupted again]:
  assumes run: "choosing h stages ns out ins = Inr r"
    and leave: "\<And>ns out line ins. str_lower h (str_strip h line) = []
        \<Longrightarrow> P ns out (line # ins) (ns, out @ menu stages @ [Prompt select_prompt], ins)"
    and unknown: "\<And>ns out line ins r. str_lower h (str_strip h line) \<noteq> []
        \<Longrightarrow> select_sequence h stages (str_lower h (str_strip h line)) = None
        \<Longrightarrow> P ns (out @ menu stages @ [Prompt select_prompt, Print ''Unknown option. Try again.'']) ins r
        \<Longrightarrow> P ns out (line # ins) r"
    and interrupted: "\<And>ns out line ins sequence r. str_lower h (str_strip h line) \<noteq> []
        \<Longrightarrow> select_sequence h stages (str_lower h (str_strip h line)) = Some sequence
        \<Longrightarrow> run_sequence h sequence ns (out @ menu stages @ [Prompt select_prompt]) ins = Inr (True, r)
        \<Longrightarrow> P ns out (line # ins) r"
    and again: "\<And>ns out line ins sequence ns1 out1 ins1 r. str_lower h (str_strip h line) \<noteq> []
        \<Longrightarrow> select_sequence h stages (str_lower h (str_strip h line)) = Some sequence
        \<Longrightarrow> run_sequence h sequence ns (out @ menu stages @ [Prompt select_prompt]) ins = Inr (False, ns1, out1, ins1)
        \<Longrightarrow> P ns1 out1 ins1 r
        \<Longrightarrow> P ns out (line # ins) r"
  shows "P ns out ins r"
  using run
proof (induction ins arbitrary: ns out rule: length_induct)
  case (1 ins)
  show ?case
  proof (cases ins)
    case Nil
    with "1.prems" show ?thesis by simp
  next
    case (Cons line rest)
    have IH: "P ns2 out2 ys r" if "length ys < length ins" "choosing h stages ns2 out2 ys = Inr r"
      for ys ns2 out2
      using "1.IH" that by blast
    from "1.prems" Cons have c: "choosing h stages ns out (line # rest) = Inr r" by simp
    from choosing_cases [OF c] show ?thesis
    proof (elim disjE conjE exE)
      assume "str_lower h (str_strip h line) = []" "r = (ns, out @ menu stages @ [Prompt select_prompt], rest)"
      then show ?thesis using leave Cons by simp
    next
      assume u: "str_lower h (str_strip h line) \<noteq> []" "select_sequence h stages (str_lower h (str_strip h line)) = None"
        and a: "choosing h stages ns
                  (out @ menu stages @ [Prompt select_prompt, Print ''Unknown option. Try again.'']) rest = Inr r"
      have "length rest < length ins" using Cons by simp
      from unknown [OF u IH [OF this a]] show ?thesis using Cons by simp
    next
      fix sequence
      assume "str_lower h (str_strip h line) \<noteq> []" "select_sequence h stages (str_lower h (str_strip h line)) = Some sequence"
        "run_sequence h sequence ns (out @ menu stages @ [Prompt select_prompt]) rest = Inr (True, r)"
      from interrupted [OF this] show ?thesis using Cons by simp
    next
      fix sequence ns1 out1 ins1
      assume u: "str_lower h (str_strip h line) \<noteq> []" "select_sequence h stages (str_lower h (str_strip h line)) = Some sequence"
        and s: "run_sequence h sequence ns (out @ menu stages @ [Prompt select_prompt]) rest
                = Inr (False, ns1, out1, ins1)"
        and a: "choosing h stages ns1 out1 ins1 = Inr r"
      from run_sequence_ins [OF s] have "length ins1 < length ins" using Cons by simp
      from again [OF u s IH [OF this a]] show ?thesis using Cons by simp
    qed
  qed
qed

lemma menu_appended: "appended (menu stages) = []"
  using appended_prints [of "\<lambda>(index, stage). ''  ['' @ str_nat index @ ''] '' @ title stage @ '' '' @ em_dash
                                      @ '' '' @ description stage" "enumerate 0 stages"]
  by (simp add: menu_def appended_simps case_prod_unfold)

lemma choosing_trace:
  "choosing h stages ns out ins = Inr r
   \<Longrightarrow> \<exists>new. fst (snd r) = out @ new \<and> fst r = ns @ appended new"
proof (induction rule: choosing_result_induct)
  case (leave ns out line ins)
  have "out @ menu stages @ [Prompt select_prompt] = out @ (menu stages @ [Prompt select_prompt])
      \<and> ns = ns @ appended (menu stages @ [Prompt select_prompt])"
    by (simp add: appended_append appended_simps menu_appended)
  then show ?case by (simp only: fst_conv snd_conv) blast
next
  case (unknown ns out line ins r)
  have "out @ menu stages @ [Prompt select_prompt, Print ''Unknown option. Try again.'']
        = out @ (menu stages @ [Prompt select_prompt, Print ''Unknown option. Try again.''])
      \<and> ns = ns @ appended (menu stages @ [Prompt select_prompt, Print ''Unknown option. Try again.''])"
    by (simp add: appended_append appended_simps menu_appended)
  then have "\<exists>new. out @ menu stages @ [Prompt select_prompt, Print ''Unknown option. Try again.''] = out @ new
      \<and> ns = ns @ appended new"
    by blast
  from trace_trans [OF this unknown(3)] show ?case .
next
  case (interrupted ns out line ins sequence r)
  obtain a b c where r: "r = (a, b, c)" by (cases r)
  have "out @ menu stages @ [Prompt select_prompt] = out @ (menu stages @ [Prompt select_prompt])
      \<and> ns = ns @ appended (menu stages @ [Prompt select_prompt])"
    by (simp add: appended_append appended_simps menu_appended)
  then have s: "\<exists>new. out @ menu stages @ [Prompt select_prompt] = out @ new \<and> ns = ns @ appended new"
    by blast
  from trace_trans [OF s run_sequence_trace [OF interrupted(3) [unfolded r]]] show ?case
    by (simp add: r)
next
  case (again ns out line ins sequence ns1 out1 ins1 r)
  have "out @ menu stages @ [Prompt select_prompt] = out @ (menu stages @ [Prompt select_prompt])
      \<and> ns = ns @ appended (menu stages @ [Prompt select_prompt])"
    by (simp add: appended_append appended_simps menu_appended)
  then have s: "\<exists>new. out @ menu stages @ [Prompt select_prompt] = out @ new \<and> ns = ns @ appended new"
    by blast
  from trace_trans [OF trace_trans [OF s run_sequence_trace [OF again(3)]] again(4)] show ?case .
qed

lemma copy_loop_quiet:
  "copy_loop h cmds out ins = Inr (out', ins')
   \<Longrightarrow> Print (CHR 0x0A # ''Session notes:'') \<notin> set out
   \<Longrightarrow> Print (CHR 0x0A # ''Session notes:'') \<notin> set out'"
  by (induction ins arbitrary: out) (auto simp: Let_def split: if_splits option.splits)

lemma ack_loop_quiet:
  "ack_loop h stage step ns out ins = Inr r
   \<Longrightarrow> Print (CHR 0x0A # ''Session notes:'') \<notin> set out
   \<Longrightarrow> Print (CHR 0x0A # ''Session notes:'') \<notin> set (fst (snd (snd r)))"
  by (induction rule: ack_loop_result_induct) simp_all

lemma process_step_quiet:
  assumes "process_step h step index stage ns out ins = Inr (f, ns', out', ins')"
    and "Print (CHR 0x0A # ''Session notes:'') \<notin> set out"
    and "step_description step \<noteq> CHR 0x0A # ''Session notes:''"
  shows "Print (CHR 0x0A # ''Session notes:'') \<notin> set out'"
proof (cases "commands step = []")
  case True
  with assms(1) have "ack_loop h stage step ns
      (out @ [Print (CHR 0x0A # ''['' @ str_upper h (key stage) @ '' '' @ format_02d index @ ''] ''
                               @ step_title step @ '' '' @ em_dash @ '' '' @ step_context step),
                        Print (step_description step)]) ins = Inr (f, ns', out', ins')"
    by (simp add: process_step_def Let_def)
  from ack_loop_quiet [OF this] assms(2,3) show ?thesis by simp
next
  case False
  with assms(1) obtain o2 i2 where
    c: "copy_loop h (commands step)
          (out @ [Print (CHR 0x0A # ''['' @ str_upper h (key stage) @ '' '' @ format_02d index @ ''] ''
                               @ step_title step @ '' '' @ em_dash @ '' '' @ step_context step),
                        Print (step_description step)]
           @ [Print ''Suggested commands:'']
           @ map (\<lambda>(cmd_index, command). Print (''  ('' @ str_nat cmd_index @ '') '' @ command))
               (enumerate 1 (commands step))) ins = Inr (o2, i2)"
    and a: "ack_loop h stage step ns o2 i2 = Inr (f, ns', out', ins')"
    by (auto simp: process_step_def Let_def split: sum.splits)
  have "Print (CHR 0x0A # ''Session notes:'')
      \<notin> set (map (\<lambda>(cmd_index, command). Print (''  ('' @ str_nat cmd_index @ '') '' @ command))
               (enumerate 1 (commands step)))"
    by (induction "commands step" arbitrary: step) auto
  then have "Print (CHR 0x0A # ''Session notes:'')
      \<notin> set (out @ [Print (CHR 0x0A # ''['' @ str_upper h (key stage) @ '' '' @ format_02d index @ ''] ''
                               @ step_title step @ '' '' @ em_dash @ '' '' @ step_context step),
                        Print (step_description step)]
           @ [Print ''Suggested commands:'']
           @ map (\<lambda>(cmd_index, command). Print (''  ('' @ str_nat cmd_index @ '') '' @ command))
               (enumerate 1 (commands step)))"
    using assms(2,3) by simp
  from copy_loop_quiet [OF c this] have "Print (CHR 0x0A # ''Session notes:'') \<notin> set o2" .
  from ack_loop_quiet [OF a this] show ?thesis by simp
qed

lemma run_steps_quiet:
  "run_steps h stage index xs ns out ins = Inr (f, ns', out', ins')
   \<Longrightarrow> Print (CHR 0x0A # ''Session notes:'') \<notin> set out
   \<Longrightarrow> \<forall>step \<in> set xs. step_description step \<noteq> CHR 0x0A # ''Session notes:''
   \<Longrightarrow> Print (CHR 0x0A # ''Session notes:'') \<notin> set out'"
proof (induction xs arbitrary: index ns out ins)
  case Nil
  then show ?case by simp
next
  case (Cons x xs)
  from Cons.prems(1) obtain g n1 o1 i1 where
    p: "process_step h x index stage ns out ins = Inr (g, n1, o1, i1)"
    and r: "(\<not> g \<and> out' = o1) \<or> run_steps h stage (Suc index) xs n1 o1 i1 = Inr (f, ns', out', ins')"
    by (auto split: sum.splits if_splits)
  have q: "Print (CHR 0x0A # ''Session notes:'') \<notin> set o1"
    using process_step_quiet [OF p Cons.prems(2)] Cons.prems(3) by simp
  from r show ?case
  proof
    assume "\<not> g \<and> out' = o1"
    with q show ?thesis by simp
  next
    assume "run_steps h stage (Suc index) xs n1 o1 i1 = Inr (f, ns', out', ins')"
    from Cons.IH [OF this q] Cons.prems(3) show ?thesis by simp
  qed
qed

lemma run_stage_quiet:
  "run_stage h stage ns out ins = Inr (f, ns', out', ins')
   \<Longrightarrow> Print (CHR 0x0A # ''Session notes:'') \<notin> set out
   \<Longrightarrow> description stage \<noteq> CHR 0x0A # ''Session notes:''
   \<Longrightarrow> \<forall>step \<in> set (steps stage). step_description step \<noteq> CHR 0x0A # ''Session notes:''
   \<Longrightarrow> Print (CHR 0x0A # ''Session notes:'') \<notin> set out'"
  unfolding run_stage_def
  by (erule run_steps_quiet) simp_all

lemma run_sequence_quiet:
  "run_sequence h xs ns out ins = Inr (f, ns', out', ins')
   \<Longrightarrow> Print (CHR 0x0A # ''Session notes:'') \<notin> set out
   \<Longrightarrow> \<forall>stage \<in> set xs. description stage \<noteq> CHR 0x0A # ''Session notes:''
         \<and> (\<forall>step \<in> set (steps stage). step_description step \<noteq> CHR 0x0A # ''Session notes:'')
   \<Longrightarrow> Print (CHR 0x0A # ''Session notes:'') \<notin> set out'"
proof (induction xs arbitrary: ns out ins)
  case Nil
  then show ?case by simp
next
  case (Cons x xs)
  from Cons.prems(1) obtain g n1 o1 i1 where
    p: "run_stage h x ns out ins = Inr (g, n1, o1, i1)"
    and r: "(\<not> g \<and> out' = o1) \<or> run_sequence h xs n1 o1 i1 = Inr (f, ns', out', ins')"
    by (auto split: sum.splits if_splits)
  have q: "Print (CHR 0x0A # ''Session notes:'') \<notin> set o1"
    using run_stage_quiet [OF p Cons.prems(2)] Cons.prems(3) by simp
  from r show ?case
  proof
    assume "\<not> g \<and> out' = o1"
    with q show ?thesis by simp
  next
    assume "run_sequence h xs n1 o1 i1 = Inr (f, ns', out', ins')"
    from Cons.IH [OF this q] Cons.prems(3) show ?thesis by simp
  qed
qed

lemma dict_of_mem_aux:
  "foldl (\<lambda>d (k, v). d(k \<mapsto> v)) m entries k = Some v \<Longrightarrow> m k = Some v \<or> (k, v) \<in> set entries"
proof (induction entries arbitrary: m)
  case Nil
  then show ?case by simp
next
  case (Cons e entries)
  obtain k' v' where e: "e = (k', v')" by (cases e)
  from Cons.prems have "foldl (\<lambda>d (k, v). d(k \<mapsto> v)) (m(k' \<mapsto> v')) entries k = Some v"
    unfolding e by (simp only: foldl.simps prod.case)
  from Cons.IH [OF this] show ?case by (auto simp: e split: if_splits)
qed

lemma dict_of_mem: "dict_of entries k = Some v \<Longrightarrow> (k, v) \<in> set entries"
  unfolding dict_of_def using dict_of_mem_aux [of Map.empty entries k v] by simp

lemma stage_map_mem: "stage_map stages choice = Some stage \<Longrightarrow> stage \<in> set stages"
  unfolding stage_map_def by (auto dest!: dict_of_mem simp: enumerate_eq_zip dest: set_zip_rightD)

lemma stage_keys_mem: "stage_keys h stages choice = Some stage \<Longrightarrow> stage \<in> set stages"
  unfolding stage_keys_def by (auto dest!: dict_of_mem)

lemma select_sequence_subset:
  "select_sequence h stages choice = Some sequence \<Longrightarrow> set sequence \<subseteq> set stages"
  unfolding select_sequence_def
  by (auto split: if_splits option.splits dest: stage_map_mem stage_keys_mem)

lemma menu_quiet: "Print (CHR 0x0A # ''Session notes:'') \<notin> set (menu stages)"
proof -
  have "Print (CHR 0x0A # ''Session notes:'')
      \<notin> set (map (\<lambda>(index, stage). Print (''  ['' @ str_nat index @ ''] '' @ title stage @ '' '' @ em_dash
                                      @ '' '' @ description stage)) xs)" for xs
    by (induction xs) auto
  then show ?thesis by (simp add: menu_def)
qed

lemma choosing_quiet:
  "choosing h stages ns out ins = Inr r
   \<Longrightarrow> \<forall>stage \<in> set stages. description stage \<noteq> CHR 0x0A # ''Session notes:''
         \<and> (\<forall>step \<in> set (steps stage). step_description step \<noteq> CHR 0x0A # ''Session notes:'')
   \<Longrightarrow> Print (CHR 0x0A # ''Session notes:'') \<notin> set out
   \<Longrightarrow> Print (CHR 0x0A # ''Session notes:'') \<notin> set (fst (snd r))"
proof (induction rule: choosing_result_induct)
  case (leave ns out line ins)
  then show ?case by (simp add: menu_quiet)
next
  case (unknown ns out line ins r)
  then show ?case by (simp add: menu_quiet)
next
  case (interrupted ns out line ins sequence r)
  obtain a b c where r: "r = (a, b, c)" by (cases r)
  have q: "Print (CHR 0x0A # ''Session notes:'') \<notin> set (out @ menu stages @ [Prompt select_prompt])"
    using interrupted(5) by (simp add: menu_quiet)
  have p: "\<forall>stage \<in> set sequence. description stage \<noteq> CHR 0x0A # ''Session notes:''
         \<and> (\<forall>step \<in> set (steps stage). step_description step \<noteq> CHR 0x0A # ''Session notes:'')"
    using interrupted(4) select_sequence_subset [OF interrupted(2)] by blast
  from run_sequence_quiet [OF interrupted(3) [unfolded r] q p] show ?case by (simp add: r)
next
  case (again ns out line ins sequence ns1 out1 ins1 r)
  have q: "Print (CHR 0x0A # ''Session notes:'') \<notin> set (out @ menu stages @ [Prompt select_prompt])"
    using again(6) by (simp add: menu_quiet)
  have p: "\<forall>stage \<in> set sequence. description stage \<noteq> CHR 0x0A # ''Session notes:''
         \<and> (\<forall>step \<in> set (steps stage). step_description step \<noteq> CHR 0x0A # ''Session notes:'')"
    using again(5) select_sequence_subset [OF again(2)] by blast
  from again(4) [OF again(5) run_sequence_quiet [OF again(3) q p]] show ?case .
qed

lemma preparation_steps_plain:
  "\<forall>step \<in> set (preparation_steps l r c m e). step_description step \<noteq> CHR 0x0A # ''Session notes:''"
  by (simp add: preparation_steps_def)

lemma java_steps_plain:
  "\<forall>step \<in> set (java_steps hint). step_description step \<noteq> CHR 0x0A # ''Session notes:''"
  by (simp add: java_steps_def)

lemma ords_steps_plain:
  "\<forall>step \<in> set (ords_steps u). step_description step \<noteq> CHR 0x0A # ''Session notes:''"
  by (simp add: ords_steps_def)

lemma apex_steps_plain:
  "\<forall>step \<in> set (apex_steps u b). step_description step \<noteq> CHR 0x0A # ''Session notes:''"
  by (simp add: apex_steps_def)

lemma build_plain:
  "\<forall>stage \<in> set (build_guided_stages h self project matches).
     description stage \<noteq> CHR 0x0A # ''Session notes:''
     \<and> (\<forall>step \<in> set (steps stage). step_description step \<noteq> CHR 0x0A # ''Session notes:'')"
  by (auto simp: build_guided_stages_def Let_def split: option.splits
      dest: preparation_steps_plain [rule_format] java_steps_plain [rule_format]
        ords_steps_plain [rule_format] apex_steps_plain [rule_format])

text \<open>
  C3. Every note reaches the ledger that is printed when the session closes. A note
  entered after \<open>n\<close> that is not blank is appended to the ledger as
  \<open>stage title / step title: note\<close> and the acknowledgement goes on with the longer
  ledger; a blank note leaves the ledger as it was. Whatever a step, a stage, a batch
  of stages or the outer loop does, whether it completed or was interrupted by \<open>q\<close>,
  the events it returns start with the events it was given and the ledger it returns
  is the ledger it was given followed by the entries noted since, in the order of
  entry: no note is dropped, none is added and none is moved. Whenever the wizard of a
  project with a plan returns, its output is the output of the outer loop, followed by
  the header \<open>Session notes:\<close> and one line for every entry noted during the session
  in order when there is one (by nothing when there is none), followed by the closing
  line; the header is printed nowhere before, so it occurs exactly once when there are
  notes and never otherwise.
\<close>

theorem notes_flushed_at_close:
  "(str_lower h (str_strip h line) = ''n'' \<and> str_strip h line2 \<noteq> []
      \<longrightarrow> ack_loop h stage step ns out (line # line2 # ins) =
          ack_loop h stage step
            (ns @ [title stage @ '' / '' @ step_title step @ '': '' @ str_strip h line2])
            (out @ [Prompt ack_prompt, Prompt note_prompt,
                    Noted (title stage @ '' / '' @ step_title step @ '': '' @ str_strip h line2)]) ins)
   \<and> (str_lower h (str_strip h line) = ''n'' \<and> str_strip h line2 = []
      \<longrightarrow> ack_loop h stage step ns out (line # line2 # ins) =
          ack_loop h stage step ns (out @ [Prompt ack_prompt, Prompt note_prompt]) ins)
   \<and> (process_step h step index stage ns out ins = Inr (f, ns1, out1, ins1)
      \<longrightarrow> prefix out out1 \<and> ns1 = ns @ appended (drop (length out) out1))
   \<and> (run_stage h stage ns out ins = Inr (f, ns1, out1, ins1)
      \<longrightarrow> prefix out out1 \<and> ns1 = ns @ appended (drop (length out) out1))
   \<and> (run_sequence h sequence ns out ins = Inr (f, ns1, out1, ins1)
      \<longrightarrow> prefix out out1 \<and> ns1 = ns @ appended (drop (length out) out1))
   \<and> (choosing h stages ns out ins = Inr (ns1, out1, ins1)
      \<longrightarrow> prefix out out1 \<and> ns1 = ns @ appended (drop (length out) out1))
   \<and> (build_guided_stages h self project matches \<noteq> []
      \<and> run_installation_wizard h self project matches ins = Inr (final, rest)
      \<longrightarrow> (\<exists>body.
            choosing h (build_guided_stages h self project matches) []
              [Print (CHR 0x0A # ''--- Guided APEX Installation Wizard ---''),
               Print ''Pick the stage you need. You can run them individually or execute all of them in sequence.'']
              ins = Inr (appended body, body, rest)
            \<and> final = body @ flush_notes (appended body)
                       @ [Print (CHR 0x0A # ''Wizard closed. Re-run it if you need to revisit any stage.'')]
            \<and> flush_notes (appended body) =
                (if appended body = [] then []
                 else Print (CHR 0x0A # ''Session notes:'')
                      # map (\<lambda>entry. Print (''  - '' @ entry)) (appended body))
            \<and> Print (CHR 0x0A # ''Session notes:'') \<notin> set body
            \<and> count_list final (Print (CHR 0x0A # ''Session notes:''))
              = (if appended body = [] then 0 else 1)))"
proof -
  have a: "str_lower h (str_strip h line) = ''n'' \<and> str_strip h line2 \<noteq> []
      \<longrightarrow> ack_loop h stage step ns out (line # line2 # ins) =
          ack_loop h stage step
            (ns @ [title stage @ '' / '' @ step_title step @ '': '' @ str_strip h line2])
            (out @ [Prompt ack_prompt, Prompt note_prompt,
                    Noted (title stage @ '' / '' @ step_title step @ '': '' @ str_strip h line2)]) ins"
    by (simp add: Let_def)
  have a': "str_lower h (str_strip h line) = ''n'' \<and> str_strip h line2 = []
      \<longrightarrow> ack_loop h stage step ns out (line # line2 # ins) =
          ack_loop h stage step ns (out @ [Prompt ack_prompt, Prompt note_prompt]) ins"
    by (simp add: Let_def)
  have b: "process_step h step index stage ns out ins = Inr (f, ns1, out1, ins1)
      \<longrightarrow> prefix out out1 \<and> ns1 = ns @ appended (drop (length out) out1)"
    using trace_drop [OF process_step_trace] by blast
  have c: "run_stage h stage ns out ins = Inr (f, ns1, out1, ins1)
      \<longrightarrow> prefix out out1 \<and> ns1 = ns @ appended (drop (length out) out1)"
    using trace_drop [OF run_stage_trace] by blast
  have d: "run_sequence h sequence ns out ins = Inr (f, ns1, out1, ins1)
      \<longrightarrow> prefix out out1 \<and> ns1 = ns @ appended (drop (length out) out1)"
    using trace_drop [OF run_sequence_trace] by blast
  have e: "choosing h stages ns out ins = Inr (ns1, out1, ins1)
      \<longrightarrow> prefix out out1 \<and> ns1 = ns @ appended (drop (length out) out1)"
    using trace_drop [OF choosing_trace [of h stages ns out ins "(ns1, out1, ins1)"]] by simp
  have g: "build_guided_stages h self project matches \<noteq> []
      \<and> run_installation_wizard h self project matches ins = Inr (final, rest)
      \<longrightarrow> (\<exists>body.
            choosing h (build_guided_stages h self project matches) []
              [Print (CHR 0x0A # ''--- Guided APEX Installation Wizard ---''),
               Print ''Pick the stage you need. You can run them individually or execute all of them in sequence.'']
              ins = Inr (appended body, body, rest)
            \<and> final = body @ flush_notes (appended body)
                       @ [Print (CHR 0x0A # ''Wizard closed. Re-run it if you need to revisit any stage.'')]
            \<and> flush_notes (appended body) =
                (if appended body = [] then []
                 else Print (CHR 0x0A # ''Session notes:'')
                      # map (\<lambda>entry. Print (''  - '' @ entry)) (appended body))
            \<and> Print (CHR 0x0A # ''Session notes:'') \<notin> set body
            \<and> count_list final (Print (CHR 0x0A # ''Session notes:''))
              = (if appended body = [] then 0 else 1))"
  proof (intro impI, elim conjE)
    let ?b = "build_guided_stages h self project matches"
    let ?banner = "[Print (CHR 0x0A # ''--- Guided APEX Installation Wizard ---''),
               Print ''Pick the stage you need. You can run them individually or execute all of them in sequence.'']"
    let ?hdr = "Print (CHR 0x0A # ''Session notes:'')"
    let ?closed = "Print (CHR 0x0A # ''Wizard closed. Re-run it if you need to revisit any stage.'')"
    assume ne: "?b \<noteq> []" and w: "run_installation_wizard h self project matches ins = Inr (final, rest)"
    from w ne obtain ledger body where
      ch: "choosing h ?b [] ?banner ins = Inr (ledger, body, rest)"
      and fin: "final = body @ flush_notes ledger @ [?closed]"
      by (auto simp: run_installation_wizard_def Let_def split: sum.splits simp del: choosing.simps)
    from choosing_trace [OF ch] obtain new where "body = ?banner @ new" "ledger = appended new"
      by auto
    then have led: "ledger = appended body"
      by (simp add: appended_simps)
    have quiet: "?hdr \<notin> set body"
      using choosing_quiet [OF ch build_plain] by simp
    have lines: "count_list (map (\<lambda>entry. Print (''  - '' @ entry)) xs) ?hdr = 0" for xs
      by (induction xs) auto
    have fl: "flush_notes ledger =
        (if ledger = [] then [] else ?hdr # map (\<lambda>entry. Print (''  - '' @ entry)) ledger)"
      by (simp add: flush_notes_def)
    have cnt: "count_list final ?hdr = (if ledger = [] then 0 else 1)"
      using quiet lines [of ledger] by (auto simp: fin fl count_list_0_iff)
    from ch fin fl quiet cnt
    show "\<exists>body.
            choosing h ?b [] ?banner ins = Inr (appended body, body, rest)
            \<and> final = body @ flush_notes (appended body) @ [?closed]
            \<and> flush_notes (appended body) =
                (if appended body = [] then []
                 else ?hdr # map (\<lambda>entry. Print (''  - '' @ entry)) (appended body))
            \<and> ?hdr \<notin> set body
            \<and> count_list final ?hdr = (if appended body = [] then 0 else 1)"
      unfolding led by blast
  qed
  from a a' b c d e g show ?thesis by (intro conjI)
qed

theorem notes_flushed_at_close_witness:
  "ack_loop posix_host \<lparr>key = ''k'', title = ''T'', description = ''D'', steps = []\<rparr>
     \<lparr>step_title = ''S'', step_description = ''d'', step_context = ''c'', commands = []\<rparr>
     [''earlier''] [Print ''before''] [''N'', '' ok '', ''q'', ''x'']
   = Inr (False, [''earlier'', ''T / S: ok''],
          [Print ''before'', Prompt ack_prompt, Prompt note_prompt, Noted ''T / S: ok'', Prompt ack_prompt,
           Print ''Wizard interrupted. Resume later from the remaining steps.''], [''x''])
   \<and> ack_loop posix_host \<lparr>key = ''k'', title = ''T'', description = ''D'', steps = []\<rparr>
     \<lparr>step_title = ''S'', step_description = ''d'', step_context = ''c'', commands = []\<rparr>
     [''earlier''] [Print ''before''] [''n'', ''   '', ''q'', ''x'']
   = Inr (False, [''earlier''],
          [Print ''before'', Prompt ack_prompt, Prompt note_prompt, Prompt ack_prompt,
           Print ''Wizard interrupted. Resume later from the remaining steps.''], [''x''])
   \<and> (prefix [Print ''before'']
         [Print ''before'', Print (CHR 0x0A # ''[K 01] S '' @ em_dash @ '' c''), Print ''d'',
          Prompt ack_prompt, Prompt note_prompt, Noted ''T / S: ok'', Prompt ack_prompt,
          Print ''Wizard interrupted. Resume later from the remaining steps.'']
       \<and> [''earlier'', ''T / S: ok''] = [''earlier''] @ appended (drop (length [Print ''before''])
         [Print ''before'', Print (CHR 0x0A # ''[K 01] S '' @ em_dash @ '' c''), Print ''d'',
          Prompt ack_prompt, Prompt note_prompt, Noted ''T / S: ok'', Prompt ack_prompt,
          Print ''Wizard interrupted. Resume later from the remaining steps.'']))
   \<and> run_stage posix_host
       \<lparr>key = ''k'', title = ''T'', description = ''D'',
        steps = [\<lparr>step_title = ''S'', step_description = ''d'', step_context = ''c'', commands = []\<rparr>,
                 \<lparr>step_title = ''U'', step_description = ''e'', step_context = ''c'', commands = []\<rparr>]\<rparr>
       [''earlier''] [Print ''before''] [''n'', ''one'', [], ''n'', ''two'', ''q'', ''x'']
     = Inr (False, [''earlier'', ''T / S: one'', ''T / U: two''],
            [Print ''before'', Print (CHR 0x0A # ''=== T ===''), Print ''D'',
             Print (CHR 0x0A # ''[K 01] S '' @ em_dash @ '' c''), Print ''d'',
             Prompt ack_prompt, Prompt note_prompt, Noted ''T / S: one'', Prompt ack_prompt,
             Print (CHR 0x0A # ''[K 02] U '' @ em_dash @ '' c''), Print ''e'',
             Prompt ack_prompt, Prompt note_prompt, Noted ''T / U: two'', Prompt ack_prompt,
             Print ''Wizard interrupted. Resume later from the remaining steps.''],
            [''x''])
   \<and> (prefix [Print ''before'']
            [Print ''before'', Print (CHR 0x0A # ''=== T ===''), Print ''D'',
             Print (CHR 0x0A # ''[K 01] S '' @ em_dash @ '' c''), Print ''d'',
             Prompt ack_prompt, Prompt note_prompt, Noted ''T / S: one'', Prompt ack_prompt,
             Print (CHR 0x0A # ''[K 02] U '' @ em_dash @ '' c''), Print ''e'',
             Prompt ack_prompt, Prompt note_prompt, Noted ''T / U: two'', Prompt ack_prompt,
             Print ''Wizard interrupted. Resume later from the remaining steps.'']
       \<and> [''earlier'', ''T / S: one'', ''T / U: two''] = [''earlier''] @ appended (drop (length [Print ''before''])
            [Print ''before'', Print (CHR 0x0A # ''=== T ===''), Print ''D'',
             Print (CHR 0x0A # ''[K 01] S '' @ em_dash @ '' c''), Print ''d'',
             Prompt ack_prompt, Prompt note_prompt, Noted ''T / S: one'', Prompt ack_prompt,
             Print (CHR 0x0A # ''[K 02] U '' @ em_dash @ '' c''), Print ''e'',
             Prompt ack_prompt, Prompt note_prompt, Noted ''T / U: two'', Prompt ack_prompt,
             Print ''Wizard interrupted. Resume later from the remaining steps.'']))
   \<and> run_sequence posix_host
       [\<lparr>key = ''k'', title = ''T'', description = ''D'',
         steps = [\<lparr>step_title = ''S'', step_description = ''d'', step_context = ''c'', commands = []\<rparr>,
                  \<lparr>step_title = ''U'', step_description = ''e'', step_context = ''c'', commands = []\<rparr>]\<rparr>,
        \<lparr>key = ''l'', title = ''V'', description = ''E'',
         steps = [\<lparr>step_title = ''S'', step_description = ''d'', step_context = ''c'', commands = []\<rparr>]\<rparr>]
       [''earlier''] [Print ''before''] [''n'', ''one'', [], [], ''n'', ''three'', ''q'', ''x'']
     = Inr (True, [''earlier'', ''T / S: one'', ''V / S: three''],
            [Print ''before'', Print (CHR 0x0A # ''=== T ===''), Print ''D'',
             Print (CHR 0x0A # ''[K 01] S '' @ em_dash @ '' c''), Print ''d'',
             Prompt ack_prompt, Prompt note_prompt, Noted ''T / S: one'', Prompt ack_prompt,
             Print (CHR 0x0A # ''[K 02] U '' @ em_dash @ '' c''), Print ''e'', Prompt ack_prompt,
             Print (CHR 0x0A # ''=== V ===''), Print ''E'',
             Print (CHR 0x0A # ''[L 01] S '' @ em_dash @ '' c''), Print ''d'',
             Prompt ack_prompt, Prompt note_prompt, Noted ''V / S: three'', Prompt ack_prompt,
             Print ''Wizard interrupted. Resume later from the remaining steps.''],
            [''x''])
   \<and> (prefix [Print ''before'']
            [Print ''before'', Print (CHR 0x0A # ''=== T ===''), Print ''D'',
             Print (CHR 0x0A # ''[K 01] S '' @ em_dash @ '' c''), Print ''d'',
             Prompt ack_prompt, Prompt note_prompt, Noted ''T / S: one'', Prompt ack_prompt,
             Print (CHR 0x0A # ''[K 02] U '' @ em_dash @ '' c''), Print ''e'', Prompt ack_prompt,
             Print (CHR 0x0A # ''=== V ===''), Print ''E'',
             Print (CHR 0x0A # ''[L 01] S '' @ em_dash @ '' c''), Print ''d'',
             Prompt ack_prompt, Prompt note_prompt, Noted ''V / S: three'', Prompt ack_prompt,
             Print ''Wizard interrupted. Resume later from the remaining steps.'']
       \<and> [''earlier'', ''T / S: one'', ''V / S: three''] = [''earlier''] @ appended (drop (length [Print ''before''])
            [Print ''before'', Print (CHR 0x0A # ''=== T ===''), Print ''D'',
             Print (CHR 0x0A # ''[K 01] S '' @ em_dash @ '' c''), Print ''d'',
             Prompt ack_prompt, Prompt note_prompt, Noted ''T / S: one'', Prompt ack_prompt,
             Print (CHR 0x0A # ''[K 02] U '' @ em_dash @ '' c''), Print ''e'', Prompt ack_prompt,
             Print (CHR 0x0A # ''=== V ===''), Print ''E'',
             Print (CHR 0x0A # ''[L 01] S '' @ em_dash @ '' c''), Print ''d'',
             Prompt ack_prompt, Prompt note_prompt, Noted ''V / S: three'', Prompt ack_prompt,
             Print ''Wizard interrupted. Resume later from the remaining steps.'']))
   \<and> choosing posix_host
       [\<lparr>key = ''k'', title = ''T'', description = ''D'',
         steps = [\<lparr>step_title = ''S'', step_description = ''d'', step_context = ''c'', commands = []\<rparr>,
                  \<lparr>step_title = ''U'', step_description = ''e'', step_context = ''c'', commands = []\<rparr>]\<rparr>,
        \<lparr>key = ''l'', title = ''V'', description = ''E'',
         steps = [\<lparr>step_title = ''S'', step_description = ''d'', step_context = ''c'', commands = []\<rparr>]\<rparr>]
       [''earlier''] [Print ''before''] [''L'', ''n'', ''zero'', [], ''k'', ''n'', ''one'', [], ''q'', ''x'']
     = Inr ([''earlier'', ''V / S: zero'', ''T / S: one''],
            [Print ''before'', Print (CHR 0x0A # ''Available stages:''),
             Print (''  [0] T '' @ em_dash @ '' D''), Print (''  [1] V '' @ em_dash @ '' E''),
             Prompt select_prompt,
             Print (CHR 0x0A # ''=== V ===''), Print ''E'',
             Print (CHR 0x0A # ''[L 01] S '' @ em_dash @ '' c''), Print ''d'',
             Prompt ack_prompt, Prompt note_prompt, Noted ''V / S: zero'', Prompt ack_prompt,
             Print (CHR 0x0A # ''Available stages:''),
             Print (''  [0] T '' @ em_dash @ '' D''), Print (''  [1] V '' @ em_dash @ '' E''),
             Prompt select_prompt,
             Print (CHR 0x0A # ''=== T ===''), Print ''D'',
             Print (CHR 0x0A # ''[K 01] S '' @ em_dash @ '' c''), Print ''d'',
             Prompt ack_prompt, Prompt note_prompt, Noted ''T / S: one'', Prompt ack_prompt,
             Print (CHR 0x0A # ''[K 02] U '' @ em_dash @ '' c''), Print ''e'', Prompt ack_prompt,
             Print ''Wizard interrupted. Resume later from the remaining steps.''],
            [''x''])
   \<and> (prefix [Print ''before'']
            [Print ''before'', Print (CHR 0x0A # ''Available stages:''),
             Print (''  [0] T '' @ em_dash @ '' D''), Print (''  [1] V '' @ em_dash @ '' E''),
             Prompt select_prompt,
             Print (CHR 0x0A # ''=== V ===''), Print ''E'',
             Print (CHR 0x0A # ''[L 01] S '' @ em_dash @ '' c''), Print ''d'',
             Prompt ack_prompt, Prompt note_prompt, Noted ''V / S: zero'', Prompt ack_prompt,
             Print (CHR 0x0A # ''Available stages:''),
             Print (''  [0] T '' @ em_dash @ '' D''), Print (''  [1] V '' @ em_dash @ '' E''),
             Prompt select_prompt,
             Print (CHR 0x0A # ''=== T ===''), Print ''D'',
             Print (CHR 0x0A # ''[K 01] S '' @ em_dash @ '' c''), Print ''d'',
             Prompt ack_prompt, Prompt note_prompt, Noted ''T / S: one'', Prompt ack_prompt,
             Print (CHR 0x0A # ''[K 02] U '' @ em_dash @ '' c''), Print ''e'', Prompt ack_prompt,
             Print ''Wizard interrupted. Resume later from the remaining steps.'']
       \<and> [''earlier'', ''V / S: zero'', ''T / S: one''] = [''earlier''] @ appended (drop (length [Print ''before''])
            [Print ''before'', Print (CHR 0x0A # ''Available stages:''),
             Print (''  [0] T '' @ em_dash @ '' D''), Print (''  [1] V '' @ em_dash @ '' E''),
             Prompt select_prompt,
             Print (CHR 0x0A # ''=== V ===''), Print ''E'',
             Print (CHR 0x0A # ''[L 01] S '' @ em_dash @ '' c''), Print ''d'',
             Prompt ack_prompt, Prompt note_prompt, Noted ''V / S: zero'', Prompt ack_prompt,
             Print (CHR 0x0A # ''Available stages:''),
             Print (''  [0] T '' @ em_dash @ '' D''), Print (''  [1] V '' @ em_dash @ '' E''),
             Prompt select_prompt,
             Print (CHR 0x0A # ''=== T ===''), Print ''D'',
             Print (CHR 0x0A # ''[K 01] S '' @ em_dash @ '' c''), Print ''d'',
             Prompt ack_prompt, Prompt note_prompt, Noted ''T / S: one'', Prompt ack_prompt,
             Print (CHR 0x0A # ''[K 02] U '' @ em_dash @ '' c''), Print ''e'', Prompt ack_prompt,
             Print ''Wizard interrupted. Resume later from the remaining steps.'']))
   \<and> run_installation_wizard posix_host (init posix_host ''/w'') [''container_id'' \<mapsto> PyStr ''c1'']
        Map.empty [''java'', [], ''n'', '' JAVA_HOME ok '', [], [], ''n'', ''persisted'', ''q'', ''x'']
     = Inr ([Print (CHR 0x0A # ''--- Guided APEX Installation Wizard ---''),
             Print ''Pick the stage you need. You can run them individually or execute all of them in sequence.'']
            @ menu (build_guided_stages posix_host (init posix_host ''/w'') [''container_id'' \<mapsto> PyStr ''c1''] Map.empty)
            @ [Prompt select_prompt,
               Print (CHR 0x0A # ''=== Stage 1 '' @ en_dash @ '' Java Runtime ===''),
               Print ''Configure JAVA_HOME inside the container and verify the runtime.'',
               Print (CHR 0x0A # ''[JAVA 01] Configure Java environment '' @ em_dash @ '' Container shell''),
               Print (step_description (java_steps ''<jdk_folder>'' ! 0)),
               Print ''Suggested commands:'']
            @ map (\<lambda>(cmd_index, command). Print (''  ('' @ str_nat cmd_index @ '') '' @ command))
                (enumerate 1 (commands (java_steps ''<jdk_folder>'' ! 0)))
            @ [Prompt copy_prompt, Prompt ack_prompt, Prompt note_prompt,
               Noted (''Stage 1 '' @ en_dash @ '' Java Runtime / Configure Java environment: JAVA_HOME ok''),
               Prompt ack_prompt,
               Print (CHR 0x0A # ''[JAVA 02] Persist Java environment (optional) '' @ em_dash @ '' Container shell''),
               Print (step_description (java_steps ''<jdk_folder>'' ! 1)),
               Print ''Suggested commands:'']
            @ map (\<lambda>(cmd_index, command). Print (''  ('' @ str_nat cmd_index @ '') '' @ command))
                (enumerate 1 (commands (java_steps ''<jdk_folder>'' ! 1)))
            @ [Prompt copy_prompt, Prompt ack_prompt, Prompt note_prompt,
               Noted (''Stage 1 '' @ en_dash @ '' Java Runtime / Persist Java environment (optional): persisted''),
               Prompt ack_prompt,
               Print ''Wizard interrupted. Resume later from the remaining steps.'',
               Print (CHR 0x0A # ''Session notes:''),
               Print (''  - Stage 1 '' @ en_dash @ '' Java Runtime / Configure Java environment: JAVA_HOME ok''),
               Print (''  - Stage 1 '' @ en_dash @ '' Java Runtime / Persist Java environment (optional): persisted''),
               Print (CHR 0x0A # ''Wizard closed. Re-run it if you need to revisit any stage.'')],
            [''x''])
   \<and> count_list
        (fst (projr (run_installation_wizard posix_host (init posix_host ''/w'') [''container_id'' \<mapsto> PyStr ''c1'']
                       Map.empty [''java'', [], ''n'', '' JAVA_HOME ok '', [], [], ''n'', ''persisted'', ''q'', ''x''])))
        (Print (CHR 0x0A # ''Session notes:'')) = 1"
proof -
  let ?s = "\<lparr>step_title = ''S'', step_description = ''d'', step_context = ''c'', commands = []\<rparr>"
  let ?u = "\<lparr>step_title = ''U'', step_description = ''e'', step_context = ''c'', commands = []\<rparr>"
  let ?bare = "\<lparr>key = ''k'', title = ''T'', description = ''D'', steps = []\<rparr>"
  let ?st = "\<lparr>key = ''k'', title = ''T'', description = ''D'', steps = [?s, ?u]\<rparr>"
  let ?v = "\<lparr>key = ''l'', title = ''V'', description = ''E'', steps = [?s]\<rparr>"
  let ?msg = "Print ''Wizard interrupted. Resume later from the remaining steps.''"
  let ?o0 = "[Print ''before'']"
  let ?oa = "[Print ''before'', Prompt ack_prompt, Prompt note_prompt, Noted ''T / S: ok'', Prompt ack_prompt, ?msg]"
  let ?oa' = "[Print ''before'', Prompt ack_prompt, Prompt note_prompt, Prompt ack_prompt, ?msg]"
  let ?ob = "[Print ''before'', Print (CHR 0x0A # ''[K 01] S '' @ em_dash @ '' c''), Print ''d'',
          Prompt ack_prompt, Prompt note_prompt, Noted ''T / S: ok'', Prompt ack_prompt, ?msg]"
  let ?oc = "[Print ''before'', Print (CHR 0x0A # ''=== T ===''), Print ''D'',
             Print (CHR 0x0A # ''[K 01] S '' @ em_dash @ '' c''), Print ''d'',
             Prompt ack_prompt, Prompt note_prompt, Noted ''T / S: one'', Prompt ack_prompt,
             Print (CHR 0x0A # ''[K 02] U '' @ em_dash @ '' c''), Print ''e'',
             Prompt ack_prompt, Prompt note_prompt, Noted ''T / U: two'', Prompt ack_prompt, ?msg]"
  let ?od = "[Print ''before'', Print (CHR 0x0A # ''=== T ===''), Print ''D'',
             Print (CHR 0x0A # ''[K 01] S '' @ em_dash @ '' c''), Print ''d'',
             Prompt ack_prompt, Prompt note_prompt, Noted ''T / S: one'', Prompt ack_prompt,
             Print (CHR 0x0A # ''[K 02] U '' @ em_dash @ '' c''), Print ''e'', Prompt ack_prompt,
             Print (CHR 0x0A # ''=== V ===''), Print ''E'',
             Print (CHR 0x0A # ''[L 01] S '' @ em_dash @ '' c''), Print ''d'',
             Prompt ack_prompt, Prompt note_prompt, Noted ''V / S: three'', Prompt ack_prompt, ?msg]"
  let ?oe = "[Print ''before'', Print (CHR 0x0A # ''Available stages:''),
             Print (''  [0] T '' @ em_dash @ '' D''), Print (''  [1] V '' @ em_dash @ '' E''),
             Prompt select_prompt,
             Print (CHR 0x0A # ''=== V ===''), Print ''E'',
             Print (CHR 0x0A # ''[L 01] S '' @ em_dash @ '' c''), Print ''d'',
             Prompt ack_prompt, Prompt note_prompt, Noted ''V / S: zero'', Prompt ack_prompt,
             Print (CHR 0x0A # ''Available stages:''),
             Print (''  [0] T '' @ em_dash @ '' D''), Print (''  [1] V '' @ em_dash @ '' E''),
             Prompt select_prompt,
             Print (CHR 0x0A # ''=== T ===''), Print ''D'',
             Print (CHR 0x0A # ''[K 01] S '' @ em_dash @ '' c''), Print ''d'',
             Prompt ack_prompt, Prompt note_prompt, Noted ''T / S: one'', Prompt ack_prompt,
             Print (CHR 0x0A # ''[K 02] U '' @ em_dash @ '' c''), Print ''e'', Prompt ack_prompt, ?msg]"
  let ?p = "[''container_id'' \<mapsto> PyStr ''c1'']"
  let ?self = "init posix_host ''/w''"
  let ?ins = "[''java'', [], ''n'', '' JAVA_HOME ok '', [], [], ''n'', ''persisted'', ''q'', ''x'']"
  let ?banner = "[Print (CHR 0x0A # ''--- Guided APEX Installation Wizard ---''),
             Print ''Pick the stage you need. You can run them individually or execute all of them in sequence.'']"
  let ?e1 = "''Stage 1 '' @ en_dash @ '' Java Runtime / Configure Java environment: JAVA_HOME ok''"
  let ?e2 = "''Stage 1 '' @ en_dash @ '' Java Runtime / Persist Java environment (optional): persisted''"
  let ?body = "?banner
            @ menu (build_guided_stages posix_host ?self ?p Map.empty)
            @ [Prompt select_prompt,
               Print (CHR 0x0A # ''=== Stage 1 '' @ en_dash @ '' Java Runtime ===''),
               Print ''Configure JAVA_HOME inside the container and verify the runtime.'',
               Print (CHR 0x0A # ''[JAVA 01] Configure Java environment '' @ em_dash @ '' Container shell''),
               Print (step_description (java_steps ''<jdk_folder>'' ! 0)),
               Print ''Suggested commands:'']
            @ map (\<lambda>(cmd_index, command). Print (''  ('' @ str_nat cmd_index @ '') '' @ command))
                (enumerate 1 (commands (java_steps ''<jdk_folder>'' ! 0)))
            @ [Prompt copy_prompt, Prompt ack_prompt, Prompt note_prompt, Noted ?e1, Prompt ack_prompt,
               Print (CHR 0x0A # ''[JAVA 02] Persist Java environment (optional) '' @ em_dash @ '' Container shell''),
               Print (step_description (java_steps ''<jdk_folder>'' ! 1)),
               Print ''Suggested commands:'']
            @ map (\<lambda>(cmd_index, command). Print (''  ('' @ str_nat cmd_index @ '') '' @ command))
                (enumerate 1 (commands (java_steps ''<jdk_folder>'' ! 1)))
            @ [Prompt copy_prompt, Prompt ack_prompt, Prompt note_prompt, Noted ?e2, Prompt ack_prompt, ?msg]"
  let ?final = "?body @ [Print (CHR 0x0A # ''Session notes:''), Print (''  - '' @ ?e1), Print (''  - '' @ ?e2),
               Print (CHR 0x0A # ''Wizard closed. Re-run it if you need to revisit any stage.'')]"
  note T = notes_flushed_at_close
  have a1: "str_lower posix_host (str_strip posix_host ''N'') = ''n''" by code_simp
  have a2: "str_strip posix_host '' ok '' \<noteq> []" by code_simp
  have a3: "ack_loop posix_host ?bare ?s
        ([''earlier''] @ [title ?bare @ '' / '' @ step_title ?s @ '': '' @ str_strip posix_host '' ok ''])
        (?o0 @ [Prompt ack_prompt, Prompt note_prompt,
                Noted (title ?bare @ '' / '' @ step_title ?s @ '': '' @ str_strip posix_host '' ok '')])
        [''q'', ''x'']
      = Inr (False, [''earlier'', ''T / S: ok''], ?oa, [''x''])"
    by code_simp
  note a4 = T [where h = posix_host and line = "''N''" and ?line2.0 = "'' ok ''" and stage = ?bare and step = ?s
          and ns = "[''earlier'']" and out = ?o0 and ins = "[''q'', ''x'']",
        THEN conjunct1, THEN mp, OF conjI [OF a1 a2]]
  have a: "ack_loop posix_host ?bare ?s [''earlier''] ?o0 [''N'', '' ok '', ''q'', ''x'']
      = Inr (False, [''earlier'', ''T / S: ok''], ?oa, [''x''])"
    by (rule trans [OF a4 a3])
  have k1: "str_lower posix_host (str_strip posix_host ''n'') = ''n''" by code_simp
  have k2: "str_strip posix_host ''   '' = []" by code_simp
  have k3: "ack_loop posix_host ?bare ?s [''earlier''] (?o0 @ [Prompt ack_prompt, Prompt note_prompt]) [''q'', ''x'']
      = Inr (False, [''earlier''], ?oa', [''x''])"
    by code_simp
  note k4 = T [where h = posix_host and line = "''n''" and ?line2.0 = "''   ''" and stage = ?bare and step = ?s
          and ns = "[''earlier'']" and out = ?o0 and ins = "[''q'', ''x'']",
        THEN conjunct2, THEN conjunct1, THEN mp, OF conjI [OF k1 k2]]
  have k: "ack_loop posix_host ?bare ?s [''earlier''] ?o0 [''n'', ''   '', ''q'', ''x'']
      = Inr (False, [''earlier''], ?oa', [''x''])"
    by (rule trans [OF k4 k3])
  have b1: "process_step posix_host ?s 1 ?bare [''earlier''] ?o0 [''n'', '' ok '', ''q'', ''x'']
      = Inr (False, [''earlier'', ''T / S: ok''], ?ob, [''x''])"
    by code_simp
  note b = T [where h = posix_host and step = ?s and index = 1 and stage = ?bare and ns = "[''earlier'']"
          and out = ?o0 and ins = "[''n'', '' ok '', ''q'', ''x'']" and f = False
          and ?ns1.0 = "[''earlier'', ''T / S: ok'']" and ?out1.0 = ?ob and ?ins1.0 = "[''x'']",
        THEN conjunct2, THEN conjunct2, THEN conjunct1, THEN mp, OF b1]
  have c1: "run_stage posix_host ?st [''earlier''] ?o0 [''n'', ''one'', [], ''n'', ''two'', ''q'', ''x'']
      = Inr (False, [''earlier'', ''T / S: one'', ''T / U: two''], ?oc, [''x''])"
    by code_simp
  note c = T [where h = posix_host and stage = ?st and ns = "[''earlier'']"
          and out = ?o0 and ins = "[''n'', ''one'', [], ''n'', ''two'', ''q'', ''x'']" and f = False
          and ?ns1.0 = "[''earlier'', ''T / S: one'', ''T / U: two'']" and ?out1.0 = ?oc and ?ins1.0 = "[''x'']",
        THEN conjunct2, THEN conjunct2, THEN conjunct2, THEN conjunct1, THEN mp, OF c1]
  have d1: "run_sequence posix_host [?st, ?v] [''earlier''] ?o0 [''n'', ''one'', [], [], ''n'', ''three'', ''q'', ''x'']
      = Inr (True, [''earlier'', ''T / S: one'', ''V / S: three''], ?od, [''x''])"
    by code_simp
  note d = T [where h = posix_host and sequence = "[?st, ?v]" and ns = "[''earlier'']"
          and out = ?o0 and ins = "[''n'', ''one'', [], [], ''n'', ''three'', ''q'', ''x'']" and f = True
          and ?ns1.0 = "[''earlier'', ''T / S: one'', ''V / S: three'']" and ?out1.0 = ?od and ?ins1.0 = "[''x'']",
        THEN conjunct2, THEN conjunct2, THEN conjunct2, THEN conjunct2, THEN conjunct1, THEN mp, OF d1]
  have e1: "choosing posix_host [?st, ?v] [''earlier''] ?o0
        [''L'', ''n'', ''zero'', [], ''k'', ''n'', ''one'', [], ''q'', ''x'']
      = Inr ([''earlier'', ''V / S: zero'', ''T / S: one''], ?oe, [''x''])"
    by code_simp
  note e = T [where h = posix_host and stages = "[?st, ?v]" and ns = "[''earlier'']" and out = ?o0
          and ins = "[''L'', ''n'', ''zero'', [], ''k'', ''n'', ''one'', [], ''q'', ''x'']"
          and ?ns1.0 = "[''earlier'', ''V / S: zero'', ''T / S: one'']" and ?out1.0 = ?oe and ?ins1.0 = "[''x'']",
        THEN conjunct2, THEN conjunct2, THEN conjunct2, THEN conjunct2, THEN conjunct2, THEN conjunct1,
        THEN mp, OF e1]
  have g1: "build_guided_stages posix_host ?self ?p Map.empty \<noteq> []"
    by code_simp
  have g2: "run_installation_wizard posix_host ?self ?p Map.empty ?ins = Inr (?final, [''x''])"
    by code_simp
  have g3: "choosing posix_host (build_guided_stages posix_host ?self ?p Map.empty) [] ?banner ?ins
      = Inr ([?e1, ?e2], ?body, [''x''])"
    by code_simp
  from T [where h = posix_host and self = ?self and project = ?p and matches = Map.empty
          and ins = ?ins and final = ?final and rest = "[''x'']",
        THEN conjunct2, THEN conjunct2, THEN conjunct2, THEN conjunct2, THEN conjunct2, THEN conjunct2,
        THEN mp, OF conjI [OF g1 g2]]
  obtain body where
    ch: "choosing posix_host (build_guided_stages posix_host ?self ?p Map.empty) [] ?banner ?ins
      = Inr (appended body, body, [''x''])"
    and cnt: "count_list ?final (Print (CHR 0x0A # ''Session notes:'')) = (if appended body = [] then 0 else 1)"
    by blast
  from trans [OF ch [symmetric] g3] have "appended body \<noteq> []"
    by (auto simp only: sum.inject prod.inject)
  with cnt have c1': "count_list ?final (Print (CHR 0x0A # ''Session notes:'')) = 1" by simp
  have g: "count_list (fst (projr (run_installation_wizard posix_host ?self ?p Map.empty ?ins)))
        (Print (CHR 0x0A # ''Session notes:'')) = 1"
    unfolding g2 using c1' by (simp only: sum.sel fst_conv)
  from a k b c1 c d1 d e1 e g2 g show ?thesis by (simp only: append.simps append_assoc simp_thms)
qed

lemma str_nat_digits:
  "str_nat 0 = ''0''" "str_nat (Suc 0) = ''1''" "str_nat (Suc (Suc 0)) = ''2''"
  "str_nat (Suc (Suc (Suc 0))) = ''3''"
  by (simp_all add: str_nat.simps digit_char_def)

lemma str_nat_numerals:
  "str_nat 1 = ''1''" "str_nat 2 = ''2''" "str_nat 3 = ''3''"
  by (simp_all add: str_nat.simps digit_char_def eval_nat_numeral)

lemma select_built:
  assumes keys: "map key B = [''prep'', ''java'', ''ords'', ''apex'']"
    and low: "map (str_lower h) [''prep'', ''java'', ''ords'', ''apex''] = [''prep'', ''java'', ''ords'', ''apex'']"
  shows "select_sequence h B choice =
     (if choice = ''a'' \<or> choice = ''all'' then Some B
      else if choice = ''0'' then Some [B ! 0]
      else if choice = ''1'' then Some [B ! 1]
      else if choice = ''2'' then Some [B ! 2]
      else if choice = ''3'' then Some [B ! 3]
      else if choice = ''prep'' then Some [B ! 0]
      else if choice = ''java'' then Some [B ! 1]
      else if choice = ''ords'' then Some [B ! 2]
      else if choice = ''apex'' then Some [B ! 3]
      else None)"
proof -
  from keys obtain s0 s1 s2 s3 where B: "B = [s0, s1, s2, s3]"
    and k: "key s0 = ''prep''" "key s1 = ''java''" "key s2 = ''ords''" "key s3 = ''apex''"
    by (auto simp: map_eq_Cons_conv)
  from low have lower_keys:
    "str_lower h ''prep'' = ''prep''" "str_lower h ''java'' = ''java''"
    "str_lower h ''ords'' = ''ords''" "str_lower h ''apex'' = ''apex''"
    by simp_all
  show ?thesis
    unfolding B select_sequence_def stage_map_def stage_keys_def dict_of_def
    by (simp add: enumerate_simps k lower_keys str_nat_digits)
qed

text \<open>
  C9. The choosing state, for the plan of any project with a container reference and
  any line of input. The line is read as \<open>line.strip().lower()\<close> gives it, whatever
  characters it holds; the four keys of the plan are lower-case ASCII words, which
  \<open>lower()\<close> leaves as they are. An empty choice leaves the loop (the session closes);
  \<open>a\<close> or \<open>all\<close> selects every stage in the order of the plan; the index of a stage,
  as the menu shows it, selects that stage; a choice equal to the key of a stage in lower
  case selects that stage; every other choice selects nothing, prints that the option is
  unknown and starts the next round with the menu and the prompt. A selection is run as
  a batch, after which the loop goes on unless the batch was interrupted.
\<close>

theorem choosing_dispatch:
  assumes ref: "resolve_container_reference project \<noteq> None"
    and low: "map (str_lower h) [''prep'', ''java'', ''ords'', ''apex''] = [''prep'', ''java'', ''ords'', ''apex'']"
  shows
   "(str_lower h (str_strip h line) = []
      \<longrightarrow> choosing h (build_guided_stages h self project matches) ns out (line # ins) =
          Inr (ns, out @ menu (build_guided_stages h self project matches) @ [Prompt select_prompt], ins))
    \<and> (str_lower h (str_strip h line) \<in> {''a'', ''all''}
      \<longrightarrow> select_sequence h (build_guided_stages h self project matches) (str_lower h (str_strip h line)) =
          Some (build_guided_stages h self project matches))
    \<and> (i < length (build_guided_stages h self project matches) \<and> str_lower h (str_strip h line) = str_nat i
      \<longrightarrow> select_sequence h (build_guided_stages h self project matches) (str_lower h (str_strip h line)) =
          Some [build_guided_stages h self project matches ! i])
    \<and> (i < length (build_guided_stages h self project matches)
        \<and> str_lower h (str_strip h line) = str_lower h (key (build_guided_stages h self project matches ! i))
      \<longrightarrow> select_sequence h (build_guided_stages h self project matches) (str_lower h (str_strip h line)) =
          Some [build_guided_stages h self project matches ! i])
    \<and> (str_lower h (str_strip h line) \<noteq> [] \<and> str_lower h (str_strip h line) \<notin> {''a'', ''all''}
        \<and> (\<forall>j < length (build_guided_stages h self project matches).
              str_lower h (str_strip h line) \<noteq> str_nat j
              \<and> str_lower h (str_strip h line) \<noteq> str_lower h (key (build_guided_stages h self project matches ! j)))
      \<longrightarrow> select_sequence h (build_guided_stages h self project matches) (str_lower h (str_strip h line)) = None
          \<and> choosing h (build_guided_stages h self project matches) ns out (line # ins) =
              choosing h (build_guided_stages h self project matches) ns
                (out @ menu (build_guided_stages h self project matches)
                 @ [Prompt select_prompt, Print ''Unknown option. Try again.'']) ins)
    \<and> (str_lower h (str_strip h line) \<noteq> []
        \<and> select_sequence h (build_guided_stages h self project matches) (str_lower h (str_strip h line)) = Some sequence
      \<longrightarrow> choosing h (build_guided_stages h self project matches) ns out (line # ins) =
          (case run_sequence h sequence ns
                  (out @ menu (build_guided_stages h self project matches) @ [Prompt select_prompt]) ins of
             Inl e \<Rightarrow> Inl e
           | Inr (interrupted, ns', out', ins') \<Rightarrow>
               if interrupted then Inr (ns', out', ins')
               else choosing h (build_guided_stages h self project matches) ns' out' ins'))"
proof -
  let ?B = "build_guided_stages h self project matches"
  let ?c = "str_lower h (str_strip h line)"
  have keys: "map key ?B = [''prep'', ''java'', ''ords'', ''apex'']"
    using ref by (rule build_keys)
  note sel = select_built [OF keys low]
  from low have lower_keys:
    "str_lower h ''prep'' = ''prep''" "str_lower h ''java'' = ''java''"
    "str_lower h ''ords'' = ''ords''" "str_lower h ''apex'' = ''apex''"
    by simp_all
  from keys obtain s0 s1 s2 s3 where B: "?B = [s0, s1, s2, s3]"
    and k: "key s0 = ''prep''" "key s1 = ''java''" "key s2 = ''ords''" "key s3 = ''apex''"
    by (auto simp: map_eq_Cons_conv)
  have four: "j < length ?B \<longleftrightarrow> j = 0 \<or> j = 1 \<or> j = 2 \<or> j = 3" for j
    unfolding B by auto
  have a: "?c = [] \<longrightarrow> choosing h ?B ns out (line # ins) = Inr (ns, out @ menu ?B @ [Prompt select_prompt], ins)"
    by (simp add: Let_def)
  have b: "?c \<in> {''a'', ''all''} \<longrightarrow> select_sequence h ?B ?c = Some ?B"
    by (auto simp: sel)
  have c: "i < length ?B \<and> ?c = str_nat i \<longrightarrow> select_sequence h ?B ?c = Some [?B ! i]"
  proof (intro impI, elim conjE)
    assume i: "i < length ?B" and eq: "?c = str_nat i"
    from i have "i = 0 \<or> i = 1 \<or> i = 2 \<or> i = 3" using four by blast
    then show "select_sequence h ?B ?c = Some [?B ! i]"
      by (elim disjE) (simp_all add: eq sel str_nat_digits str_nat_numerals)
  qed
  have d: "i < length ?B \<and> ?c = str_lower h (key (?B ! i)) \<longrightarrow> select_sequence h ?B ?c = Some [?B ! i]"
  proof (intro impI, elim conjE)
    assume i: "i < length ?B" and eq: "?c = str_lower h (key (?B ! i))"
    from i have "i = 0 \<or> i = 1 \<or> i = 2 \<or> i = 3" using four by blast
    then have "(i = 0 \<and> ?c = ''prep'') \<or> (i = 1 \<and> ?c = ''java'')
        \<or> (i = 2 \<and> ?c = ''ords'') \<or> (i = 3 \<and> ?c = ''apex'')"
      using eq unfolding B by (auto simp: k lower_keys)
    then show "select_sequence h ?B ?c = Some [?B ! i]"
      by (elim disjE conjE) (simp_all add: sel)
  qed
  have e0: "?c \<noteq> [] \<and> ?c \<notin> {''a'', ''all''}
        \<and> (\<forall>j < length ?B. ?c \<noteq> str_nat j \<and> ?c \<noteq> str_lower h (key (?B ! j)))
      \<longrightarrow> select_sequence h ?B ?c = None"
  proof (intro impI, elim conjE)
    assume n: "?c \<notin> {''a'', ''all''}"
      and all: "\<forall>j < length ?B. ?c \<noteq> str_nat j \<and> ?c \<noteq> str_lower h (key (?B ! j))"
    from all [rule_format, of 0] all [rule_format, of 1] all [rule_format, of 2] all [rule_format, of 3]
    have "?c \<noteq> ''0''" "?c \<noteq> ''1''" "?c \<noteq> ''2''" "?c \<noteq> ''3''"
      "?c \<noteq> ''prep''" "?c \<noteq> ''java''" "?c \<noteq> ''ords''" "?c \<noteq> ''apex''"
      unfolding B by (simp_all add: k lower_keys str_nat_digits str_nat_numerals)
    with n show "select_sequence h ?B ?c = None"
      by (simp add: sel)
  qed
  have e: "?c \<noteq> [] \<and> ?c \<notin> {''a'', ''all''}
        \<and> (\<forall>j < length ?B. ?c \<noteq> str_nat j \<and> ?c \<noteq> str_lower h (key (?B ! j)))
      \<longrightarrow> select_sequence h ?B ?c = None
          \<and> choosing h ?B ns out (line # ins) =
              choosing h ?B ns (out @ menu ?B @ [Prompt select_prompt, Print ''Unknown option. Try again.'']) ins"
  proof (intro impI)
    assume hyp: "?c \<noteq> [] \<and> ?c \<notin> {''a'', ''all''}
        \<and> (\<forall>j < length ?B. ?c \<noteq> str_nat j \<and> ?c \<noteq> str_lower h (key (?B ! j)))"
    with e0 have none: "select_sequence h ?B ?c = None" by blast
    from hyp have ne: "?c \<noteq> []" by blast
    show "select_sequence h ?B ?c = None
          \<and> choosing h ?B ns out (line # ins) =
              choosing h ?B ns (out @ menu ?B @ [Prompt select_prompt, Print ''Unknown option. Try again.'']) ins"
      using none ne by (simp add: Let_def)
  qed
  have f: "?c \<noteq> [] \<and> select_sequence h ?B ?c = Some sequence
      \<longrightarrow> choosing h ?B ns out (line # ins) =
          (case run_sequence h sequence ns (out @ menu ?B @ [Prompt select_prompt]) ins of
             Inl e \<Rightarrow> Inl e
           | Inr (interrupted, ns', out', ins') \<Rightarrow>
               if interrupted then Inr (ns', out', ins')
               else choosing h ?B ns' out' ins')"
    by (simp add: Let_def)
  from a b c d e f show ?thesis by (intro conjI)
qed

theorem choosing_dispatch_witness:
  "choosing posix_host
      (build_guided_stages posix_host (init posix_host ''/w'') [''container_id'' \<mapsto> PyStr ''c1''] Map.empty)
      [] [] [''  '', ''x'']
   = Inr ([], menu (build_guided_stages posix_host (init posix_host ''/w'') [''container_id'' \<mapsto> PyStr ''c1''] Map.empty)
              @ [Prompt select_prompt], [''x''])
   \<and> select_sequence posix_host
       (build_guided_stages posix_host (init posix_host ''/w'') [''container_id'' \<mapsto> PyStr ''c1''] Map.empty)
       (str_lower posix_host (str_strip posix_host ''ALL''))
     = Some (build_guided_stages posix_host (init posix_host ''/w'') [''container_id'' \<mapsto> PyStr ''c1''] Map.empty)
   \<and> select_sequence posix_host
       (build_guided_stages posix_host (init posix_host ''/w'') [''container_id'' \<mapsto> PyStr ''c1''] Map.empty)
       (str_lower posix_host (str_strip posix_host '' 2''))
     = Some [build_guided_stages posix_host (init posix_host ''/w'') [''container_id'' \<mapsto> PyStr ''c1''] Map.empty ! 2]
   \<and> select_sequence posix_host
       (build_guided_stages posix_host (init posix_host ''/w'') [''container_id'' \<mapsto> PyStr ''c1''] Map.empty)
       (str_lower posix_host (str_strip posix_host ''Java''))
     = Some [build_guided_stages posix_host (init posix_host ''/w'') [''container_id'' \<mapsto> PyStr ''c1''] Map.empty ! 1]
   \<and> select_sequence posix_host
       (build_guided_stages posix_host (init posix_host ''/w'') [''container_id'' \<mapsto> PyStr ''c1''] Map.empty)
       (str_lower posix_host (str_strip posix_host ''05''))
     = None
   \<and> choosing posix_host
      (build_guided_stages posix_host (init posix_host ''/w'') [''container_id'' \<mapsto> PyStr ''c1''] Map.empty)
      [] [] [''05'', []]
     = Inr ([], menu (build_guided_stages posix_host (init posix_host ''/w'') [''container_id'' \<mapsto> PyStr ''c1''] Map.empty)
              @ [Prompt select_prompt, Print ''Unknown option. Try again.'']
              @ menu (build_guided_stages posix_host (init posix_host ''/w'') [''container_id'' \<mapsto> PyStr ''c1''] Map.empty)
              @ [Prompt select_prompt], [])
   \<and> choosing posix_host
      (build_guided_stages posix_host (init posix_host ''/w'') [''container_id'' \<mapsto> PyStr ''c1''] Map.empty)
      [] [] [''java'', [], ''q'', ''x'']
     = (case run_sequence posix_host
               [build_guided_stages posix_host (init posix_host ''/w'') [''container_id'' \<mapsto> PyStr ''c1''] Map.empty ! 1]
               []
               (menu (build_guided_stages posix_host (init posix_host ''/w'') [''container_id'' \<mapsto> PyStr ''c1''] Map.empty)
                @ [Prompt select_prompt])
               [[], ''q'', ''x''] of
          Inl e \<Rightarrow> Inl e
        | Inr (interrupted, ns', out', ins') \<Rightarrow>
            if interrupted then Inr (ns', out', ins')
            else choosing posix_host
                   (build_guided_stages posix_host (init posix_host ''/w'') [''container_id'' \<mapsto> PyStr ''c1''] Map.empty)
                   ns' out' ins')"
proof -
  let ?p = "[''container_id'' \<mapsto> PyStr ''c1'']"
  let ?self = "init posix_host ''/w''"
  let ?B = "build_guided_stages posix_host ?self ?p Map.empty"
  have ref: "resolve_container_reference ?p \<noteq> None"
    by (simp add: resolve_container_reference_def dict_get_def)
  have low: "map (str_lower posix_host) [''prep'', ''java'', ''ords'', ''apex''] = [''prep'', ''java'', ''ords'', ''apex'']"
    by code_simp
  note T = choosing_dispatch [OF ref low, where self = ?self and matches = Map.empty]
  have len: "length ?B = 4" by code_simp
  have a1: "str_lower posix_host (str_strip posix_host ''  '') = []" by code_simp
  from T [where line = "''  ''" and ns = "[]" and out = "[]" and ins = "[''x'']", THEN conjunct1, THEN mp, OF a1]
  have a: "choosing posix_host ?B [] [] [''  '', ''x''] = Inr ([], [] @ menu ?B @ [Prompt select_prompt], [''x''])" .
  have b1: "str_lower posix_host (str_strip posix_host ''ALL'') \<in> {''a'', ''all''}" by code_simp
  from T [where line = "''ALL''", THEN conjunct2, THEN conjunct1, THEN mp, OF b1]
  have b: "select_sequence posix_host ?B (str_lower posix_host (str_strip posix_host ''ALL'')) = Some ?B" .
  have c1: "2 < length ?B \<and> str_lower posix_host (str_strip posix_host '' 2'') = str_nat 2" by code_simp
  from T [where line = "'' 2''" and i = 2, THEN conjunct2, THEN conjunct2, THEN conjunct1, THEN mp, OF c1]
  have c: "select_sequence posix_host ?B (str_lower posix_host (str_strip posix_host '' 2'')) = Some [?B ! 2]" .
  have d1: "1 < length ?B \<and> str_lower posix_host (str_strip posix_host ''Java'') = str_lower posix_host (key (?B ! 1))" by code_simp
  from T [where line = "''Java''" and i = 1, THEN conjunct2, THEN conjunct2, THEN conjunct2, THEN conjunct1,
      THEN mp, OF d1]
  have d: "select_sequence posix_host ?B (str_lower posix_host (str_strip posix_host ''Java'')) = Some [?B ! 1]" .
  have e1: "str_lower posix_host (str_strip posix_host ''05'') \<noteq> []" by code_simp
  have e2: "str_lower posix_host (str_strip posix_host ''05'') \<notin> {''a'', ''all''}" by code_simp
  have p0: "str_lower posix_host (str_strip posix_host ''05'') \<noteq> str_nat 0 \<and> str_lower posix_host (str_strip posix_host ''05'') \<noteq> str_lower posix_host (key (?B ! 0))" by code_simp
  have p1: "str_lower posix_host (str_strip posix_host ''05'') \<noteq> str_nat 1 \<and> str_lower posix_host (str_strip posix_host ''05'') \<noteq> str_lower posix_host (key (?B ! 1))" by code_simp
  have p2: "str_lower posix_host (str_strip posix_host ''05'') \<noteq> str_nat 2 \<and> str_lower posix_host (str_strip posix_host ''05'') \<noteq> str_lower posix_host (key (?B ! 2))" by code_simp
  have p3: "str_lower posix_host (str_strip posix_host ''05'') \<noteq> str_nat 3 \<and> str_lower posix_host (str_strip posix_host ''05'') \<noteq> str_lower posix_host (key (?B ! 3))" by code_simp
  have e3: "\<forall>j < length ?B. str_lower posix_host (str_strip posix_host ''05'') \<noteq> str_nat j \<and> str_lower posix_host (str_strip posix_host ''05'') \<noteq> str_lower posix_host (key (?B ! j))"
  proof (intro allI impI)
    fix j
    assume "j < length ?B"
    with len have "j = 0 \<or> j = 1 \<or> j = 2 \<or> j = 3" by auto
    with p0 p1 p2 p3
    show "str_lower posix_host (str_strip posix_host ''05'') \<noteq> str_nat j \<and> str_lower posix_host (str_strip posix_host ''05'') \<noteq> str_lower posix_host (key (?B ! j))"
      by blast
  qed
  note e4 = T [where line = "''05''" and ns = "[]" and out = "[]" and ins = "[[]]",
      THEN conjunct2, THEN conjunct2, THEN conjunct2, THEN conjunct2, THEN conjunct1,
      THEN mp, OF conjI [OF e1 conjI [OF e2 e3]]]
  from e4 have e: "select_sequence posix_host ?B (str_lower posix_host (str_strip posix_host ''05'')) = None" by (rule conjunct1)
  have e5: "choosing posix_host ?B [] ([] @ menu ?B @ [Prompt select_prompt, Print ''Unknown option. Try again.'']) [[]]
      = Inr ([], menu ?B @ [Prompt select_prompt, Print ''Unknown option. Try again.''] @ menu ?B
               @ [Prompt select_prompt], [])"
    by code_simp
  have e': "choosing posix_host ?B [] [] [''05'', []]
      = Inr ([], menu ?B @ [Prompt select_prompt, Print ''Unknown option. Try again.''] @ menu ?B
               @ [Prompt select_prompt], [])"
    by (rule trans [OF e4 [THEN conjunct2] e5])
  have f1: "str_lower posix_host (str_strip posix_host ''java'') \<noteq> [] \<and> select_sequence posix_host ?B (str_lower posix_host (str_strip posix_host ''java'')) = Some [?B ! 1]"
    by code_simp
  note f = T [where line = "''java''" and sequence = "[?B ! 1]" and ns = "[]" and out = "[]"
        and ins = "[[], ''q'', ''x'']",
      THEN conjunct2, THEN conjunct2, THEN conjunct2, THEN conjunct2, THEN conjunct2, THEN mp, OF f1]
  from a b c d e e' f show ?thesis
    by (simp only: append.simps append_assoc simp_thms)
qed

end
